(* ===== verification/Prelude.thy ===== *)
theory Prelude
  imports Main "HOL-Library.Char_ord" "HOL-Library.List_Lexorder" "HOL-Library.Product_Lexorder"
    "HOL-Library.Word" "HOL-Library.Multiset"
begin

section \<open>Shared notions: errors, panics, Go maps, iteration order, strings\<close>

text \<open>
  What every component of the operator uses: Go's \<open>error\<close> interface and its two producers
  (\<open>fmt.Errorf\<close> and the API machinery's status errors), the outcome of a call that may
  panic, the Go map as a key-sorted association list, the unspecified iteration order of
  \<open>range\<close> over a map as an explicit argument, and \<open>strings.Split\<close>.
\<close>

named_theorems gomap_rules "laws of Go maps kept as key-sorted association lists"
named_theorems order_rules "independence of the order in which a map is ranged over"

subsection \<open>Errors\<close>

text \<open>
  \<open>Errorf m\<close> is \<open>fmt.Errorf\<close> with its formatted text, \<open>StatusError r m\<close> an error of the API
  server with its reason and message (\<open>k8s.io/apimachinery/pkg/api/errors\<close>). A returned
  \<open>error\<close> is an \<open>error option\<close>, \<open>None\<close> being \<open>nil\<close>; \<open>fmt_err\<close> is the verb \<open>%v\<close>.
\<close>

datatype error = Errorf string | StatusError string string

fun err_text :: "error \<Rightarrow> string" where
  "err_text (Errorf m) = m"
| "err_text (StatusError r m) = m"

definition fmt_err :: "error option \<Rightarrow> string" where
  "fmt_err e = (case e of None \<Rightarrow> ''<nil>'' | Some x \<Rightarrow> err_text x)"

fun IsAlreadyExists :: "error option \<Rightarrow> bool" where
  "IsAlreadyExists (Some (StatusError r m)) = (r = ''AlreadyExists'')"
| "IsAlreadyExists _ = False"

subsection \<open>Outcomes: a call returns or panics\<close>

text \<open>
  A Go call that may dereference \<open>nil\<close> or index out of range ends in \<open>Panicked\<close> with the
  state at that moment (the calls made before the crash stay visible to the cluster);
  otherwise it ends in \<open>Returned\<close>.
\<close>

datatype panic = NilDeref | IndexOutOfRange | Explicit string

datatype ('s, 'a) outcome = Returned 'a 's | Panicked panic 's

fun and_then :: "('s, 'a) outcome \<Rightarrow> ('a \<Rightarrow> 's \<Rightarrow> ('s, 'b) outcome) \<Rightarrow> ('s, 'b) outcome" where
  "and_then (Returned a s) f = f a s"
| "and_then (Panicked p s) f = Panicked p s"

fun final_state :: "('s, 'a) outcome \<Rightarrow> 's" where
  "final_state (Returned a s) = s"
| "final_state (Panicked p s) = s"

fun panics :: "('s, 'a) outcome \<Rightarrow> bool" where
  "panics (Returned a s) = False"
| "panics (Panicked p s) = True"

lemma and_then_assoc: "and_then (and_then m f) g = and_then m (\<lambda>a s. and_then (f a s) g)"
  by (cases m) simp_all

lemma and_then_Returned [simp]: "and_then m Returned = m"
  by (cases m) simp_all

lemma final_state_and_then:
  "(\<And>a s. m = Returned a s \<Longrightarrow> Q (final_state (f a s))) \<Longrightarrow>
   (\<And>p s. m = Panicked p s \<Longrightarrow> Q s) \<Longrightarrow> Q (final_state (and_then m f))"
  by (cases m) simp_all

subsection \<open>Iteration order\<close>

text \<open>
  Go leaves the order of \<open>range\<close> over a map open. \<open>shuffle ns\<close> picks one order: the numbers
  \<open>ns\<close> choose the next element among those left. Every order is some \<open>shuffle\<close>
  (\<open>shuffle_onto\<close>). A \<open>chooser\<close> supplies one such list to every execution of a \<open>range\<close>
  statement: a call hands \<open>sub c i\<close> to its \<open>i\<close>-th callee or iteration and uses \<open>c []\<close> for
  its own loop, so no two loops share their choices.
\<close>

type_synonym chooser = "nat list \<Rightarrow> nat list"

definition sub :: "chooser \<Rightarrow> nat \<Rightarrow> chooser" where
  "sub c i = (\<lambda>p. c (i # p))"

definition in_order :: chooser where
  "in_order = (\<lambda>p. [])"

fun shuffle :: "nat list \<Rightarrow> 'a list \<Rightarrow> 'a list" where
  "shuffle [] xs = xs"
| "shuffle (n # ns) [] = []"
| "shuffle (n # ns) (x # xs) =
     (let ys = x # xs; i = n mod length ys
      in ys ! i # shuffle ns (take i ys @ drop (Suc i) ys))"

definition range_over :: "chooser \<Rightarrow> 'a list \<Rightarrow> 'a list" where
  "range_over c m = shuffle (c []) m"

lemma mset_take_drop_nth:
  assumes "i < length ys"
  shows "add_mset (ys ! i) (mset (take i ys @ drop (Suc i) ys)) = mset ys"
proof -
  have "ys = take i ys @ ys ! i # drop (Suc i) ys"
    using assms by (rule id_take_nth_drop)
  then have "mset ys = mset (take i ys @ ys ! i # drop (Suc i) ys)" by simp
  then show ?thesis by simp
qed

lemma mset_shuffle [simp]: "mset (shuffle ns xs) = mset xs"
proof (induction ns xs rule: shuffle.induct)
  case (3 n ns x xs)
  let ?ys = "x # xs" and ?i = "n mod length (x # xs)"
  have i: "?i < length ?ys" by (rule mod_less_divisor) simp
  have "mset (shuffle (n # ns) (x # xs)) =
      add_mset (?ys ! ?i) (mset (take ?i ?ys @ drop (Suc ?i) ?ys))"
    using "3.IH" [OF refl refl] by (simp add: Let_def)
  also have "\<dots> = mset ?ys" by (rule mset_take_drop_nth [OF i])
  finally show ?case .
qed simp_all

lemma set_shuffle [simp]: "set (shuffle ns xs) = set xs"
  by (metis mset_shuffle set_mset_mset)

lemma length_shuffle [simp]: "length (shuffle ns xs) = length xs"
  by (metis mset_shuffle size_mset)

lemma shuffle_Nil [simp]: "shuffle ns [] = []"
  by (cases ns) simp_all

lemma shuffle_onto: "mset ys = mset xs \<Longrightarrow> \<exists>ns. shuffle ns xs = ys"
proof (induction ys arbitrary: xs)
  case Nil
  then show ?case by (auto intro: exI [of _ "[]"])
next
  case (Cons y ys)
  from Cons.prems have "y \<in> set xs" by (metis list.set_intros(1) set_mset_mset)
  then obtain i where i: "i < length xs" "xs ! i = y" by (auto simp: in_set_conv_nth)
  let ?r = "take i xs @ drop (Suc i) xs"
  have "add_mset y (mset ?r) = mset xs" using mset_take_drop_nth [OF i(1)] i(2) by simp
  then have "add_mset y (mset ?r) = add_mset y (mset ys)" using Cons.prems by simp
  then have "mset ys = mset ?r" by (metis add_mset_add_single add_right_cancel)
  then obtain ns where ns: "shuffle ns ?r = ys" using Cons.IH by blast
  obtain z zs where xs: "xs = z # zs" using i(1) by (cases xs) auto
  have "shuffle (i # ns) xs = y # ys" using i ns by (simp add: xs Let_def)
  then show ?case by blast
qed

lemma mset_range_over [simp]: "mset (range_over c m) = mset m"
  by (simp add: range_over_def)

lemma set_range_over [simp]: "set (range_over c m) = set m"
  by (simp add: range_over_def)

lemma length_range_over [simp]: "length (range_over c m) = length m"
  by (simp add: range_over_def)

lemma range_over_Nil [simp]: "range_over c [] = []"
  by (simp add: range_over_def)

lemma sub_in_order [simp]: "sub in_order i = in_order"
  by (simp add: sub_def in_order_def)

lemma range_over_in_order [simp]: "range_over in_order m = m"
  by (simp add: range_over_def in_order_def)

lemma distinct_keys_range_over:
  "distinct (map fst m) \<Longrightarrow> distinct (map fst (range_over c m))"
  by (metis mset_map mset_range_over mset_eq_imp_distinct_iff)

subsection \<open>Go maps\<close>

text \<open>
  A map is the list of its entries sorted by key, so that two maps with the same entries are
  the same list; \<open>m_put\<close> is \<open>m[k] = v\<close>, \<open>map_of\<close> the lookup \<open>v, ok := m[k]\<close>. A map value
  that may be \<open>nil\<close> is an \<open>option\<close>; ranging over or reading a \<open>nil\<close> map sees no entries.
\<close>

type_synonym ('k, 'v) gomap = "('k \<times> 'v) list"
type_synonym strmap = "(string, string) gomap"

fun m_put :: "'k::linorder \<Rightarrow> 'v \<Rightarrow> ('k, 'v) gomap \<Rightarrow> ('k, 'v) gomap" where
  "m_put k v [] = [(k, v)]"
| "m_put k v ((a, b) # m) =
     (if k < a then (k, v) # (a, b) # m
      else if k = a then (k, v) # m else (a, b) # m_put k v m)"

definition m_ok :: "('k::linorder, 'v) gomap \<Rightarrow> bool" where
  "m_ok m \<longleftrightarrow> sorted_wrt (<) (map fst m)"

definition entries :: "('k, 'v) gomap option \<Rightarrow> ('k, 'v) gomap" where
  "entries m = (case m of None \<Rightarrow> [] | Some es \<Rightarrow> es)"

definition m_puts :: "('k::linorder \<times> 'v) list \<Rightarrow> ('k, 'v) gomap \<Rightarrow> ('k, 'v) gomap" where
  "m_puts kvs m = fold (\<lambda>(k, v). m_put k v) kvs m"

lemma m_ok_Nil [simp]: "m_ok []"
  by (simp add: m_ok_def)

lemma entries_simps [simp]: "entries None = []" "entries (Some m) = m"
  by (simp_all add: entries_def)

lemma map_of_m_put [simp]: "map_of (m_put k v m) = (map_of m)(k \<mapsto> v)"
  by (induction k v m rule: m_put.induct) (auto simp: fun_eq_iff)

lemma keys_m_put [simp]: "fst ` set (m_put k v m) = insert k (fst ` set m)"
  by (induction k v m rule: m_put.induct) auto

lemma m_put_not_Nil [simp]: "m_put k v m \<noteq> []"
  by (cases m) (auto split: if_splits)

lemma m_ok_m_put [gomap_rules]: "m_ok m \<Longrightarrow> m_ok (m_put k v m)"
proof (induction k v m rule: m_put.induct)
  case (2 k v a b m)
  have "\<forall>x \<in> fst ` set (m_put k v m). a < x" if "\<not> k < a" "k \<noteq> a"
    using "2.prems" that by (auto simp: m_ok_def)
  with 2 show ?case by (auto simp: m_ok_def)
qed (simp add: m_ok_def)

lemma m_ok_distinct [gomap_rules]: "m_ok m \<Longrightarrow> distinct (map fst m)"
  by (simp add: m_ok_def strict_sorted_iff)

lemma entries_by_keys:
  "distinct (map fst m) \<Longrightarrow> m = map (\<lambda>k. (k, the (map_of m k))) (map fst m)"
  by (subst map_map, rule map_idI [symmetric]) auto

lemma m_ok_ext:
  assumes "m_ok m" "m_ok m'" and same: "map_of m = map_of m'"
  shows "m = m'"
proof -
  have d: "distinct (map fst m)" "distinct (map fst m')"
    using assms(1,2) by (simp_all add: m_ok_distinct)
  have "set (map fst m) = set (map fst m')"
    using same by (metis dom_map_of_conv_image_fst image_set)
  then have keys: "map fst m = map fst m'"
    using assms(1,2) by (metis m_ok_def strict_sorted_equal)
  show ?thesis
    using entries_by_keys [OF d(1)] entries_by_keys [OF d(2)] keys same by simp
qed

lemma m_ok_m_puts [gomap_rules]: "m_ok m \<Longrightarrow> m_ok (m_puts kvs m)"
  by (induction kvs arbitrary: m) (auto simp: m_puts_def gomap_rules)

lemma map_of_m_puts:
  "distinct (map fst kvs) \<Longrightarrow> map_of (m_puts kvs m) = map_of m ++ map_of kvs"
proof (induction kvs arbitrary: m)
  case Nil
  then show ?case by (simp add: m_puts_def)
next
  case (Cons kv kvs)
  obtain k v where kv: "kv = (k, v)" by (cases kv)
  have "k \<notin> dom (map_of kvs)" using Cons.prems kv by (auto simp: dom_map_of_conv_image_fst)
  then show ?case
    using Cons by (auto simp: kv m_puts_def fun_eq_iff map_add_def split: option.splits)
qed

lemma map_of_perm:
  assumes "mset xs = mset ys" and "distinct (map fst ys)"
  shows "map_of xs = map_of ys"
proof -
  have "distinct (map fst xs)" using assms by (metis mset_eq_imp_distinct_iff mset_map)
  moreover have "set xs = set ys" using assms(1) by (rule mset_eq_setD)
  ultimately show ?thesis using assms(2) by (metis map_of_inject_set)
qed

lemma m_puts_perm:
  assumes "mset kvs = mset kvs'" and "distinct (map fst kvs')" and "m_ok m"
  shows "m_puts kvs m = m_puts kvs' m"
proof (rule m_ok_ext)
  have "distinct (map fst kvs)" using assms(1,2) by (metis mset_eq_imp_distinct_iff mset_map)
  then show "map_of (m_puts kvs m) = map_of (m_puts kvs' m)"
    using assms(2) map_of_perm [OF assms(1,2)] by (simp add: map_of_m_puts)
qed (simp_all add: assms gomap_rules)

lemma m_puts_range_over [order_rules]:
  "distinct (map fst kvs) \<Longrightarrow> m_ok m \<Longrightarrow> m_puts (range_over c kvs) m = m_puts kvs m"
  by (rule m_puts_perm) simp_all

lemma m_puts_id [order_rules]: "m_ok m \<Longrightarrow> m_puts m [] = m"
  by (rule m_ok_ext) (simp_all add: gomap_rules map_of_m_puts)

subsection \<open>Strings\<close>

text \<open>\<open>strings.Split(s, sep)\<close> for a separator of one byte, the only kind the operator uses.\<close>

fun split_on :: "char \<Rightarrow> string \<Rightarrow> string list" where
  "split_on c [] = [[]]"
| "split_on c (x # xs) =
     (if x = c then [] # split_on c xs
      else (case split_on c xs of [] \<Rightarrow> [[x]] | y # ys \<Rightarrow> (x # y) # ys))"

fun join_with :: "string \<Rightarrow> string list \<Rightarrow> string" where
  "join_with sep [] = []"
| "join_with sep [x] = x"
| "join_with sep (x # y # ys) = x @ sep @ join_with sep (y # ys)"

lemma split_on_not_Nil [simp]: "split_on c s \<noteq> []"
  by (induction s) (auto split: list.splits)

lemma split_on_no_sep: "c \<notin> set s \<Longrightarrow> split_on c s = [s]"
  by (induction s) auto

lemma split_on_append: "c \<notin> set a \<Longrightarrow> split_on c (a @ c # b) = a # split_on c b"
  by (induction a) auto

lemma split_on_join:
  "ks \<noteq> [] \<Longrightarrow> \<forall>k \<in> set ks. c \<notin> set k \<Longrightarrow> split_on c (join_with [c] ks) = ks"
  by (induction "[c]" ks rule: join_with.induct) (auto simp: split_on_no_sep split_on_append)

end
