(* ===== verification/Config.thy ===== *)
theory Config
  imports Prelude
begin

section \<open>Configuration values and their accessors (pkg/config/config.go)\<close>

text \<open>
  The YAML document of a ConfigMap is decoded into nested Go maps and slices of
  \<open>interface{}\<close>; \<open>Config\<close> wraps the outermost map and the getters walk a dotted key through
  it. The theory has the dynamic values, the conversions of maps and arrays, the walk
  \<open>retrieveValueFromKeys\<close> and every getter with its use of the read lock. Its lemmas show
  that no result depends on the order in which Go ranges over a map, and characterise the
  walk by a recursive lookup.
\<close>

subsection \<open>Dynamic values\<close>

text \<open>
  Keys of a \<open>map[interface{}]interface{}\<close> (YAML scalars), ordered by their kind and then by
  their value so that such maps are kept sorted as well. Integers are Go's 64-bit \<open>int\<close>,
  floats the bits of a \<open>float64\<close>.
\<close>

datatype gkey = KNil | KBool bool | KInt "64 word" | KFloat "64 word" | is_KStr: KStr (the_str: string)

fun gkey_code :: "gkey \<Rightarrow> nat \<times> nat \<times> string" where
  "gkey_code KNil = (0, 0, [])"
| "gkey_code (KBool b) = (1, if b then 1 else 0, [])"
| "gkey_code (KInt w) = (2, unat w, [])"
| "gkey_code (KFloat w) = (3, unat w, [])"
| "gkey_code (KStr s) = (4, 0, s)"

lemma gkey_code_inj: "gkey_code x = gkey_code y \<Longrightarrow> x = y"
  by (cases x; cases y) (auto simp: word_unat_eq_iff split: if_splits)

instantiation gkey :: linorder
begin

definition less_eq_gkey :: "gkey \<Rightarrow> gkey \<Rightarrow> bool" where
  "less_eq_gkey x y \<longleftrightarrow> gkey_code x \<le> gkey_code y"

definition less_gkey :: "gkey \<Rightarrow> gkey \<Rightarrow> bool" where
  "less_gkey x y \<longleftrightarrow> gkey_code x < gkey_code y"

instance
proof
  fix x y :: gkey
  assume "x \<le> y" "y \<le> x"
  then have "gkey_code x = gkey_code y" unfolding less_eq_gkey_def by (rule order.antisym)
  then show "x = y" by (rule gkey_code_inj)
qed (auto simp: less_eq_gkey_def less_gkey_def)

end

text \<open>
  An \<open>interface{}\<close> by its dynamic type: \<open>GMapS\<close> is \<open>map[string]interface{}\<close>, \<open>GMapI\<close> is
  \<open>map[interface{}]interface{}\<close>, \<open>GSlice\<close> is \<open>[]interface{}\<close>, \<open>GConf\<close> a \<open>*Config\<close> with the
  map it wraps, \<open>GOther\<close> any other type.
\<close>

datatype gval =
    GNil
  | GStr string
  | GBool bool
  | GInt "64 word"
  | GFloat "64 word"
  | GSlice "gval list"
  | GMapS "(string \<times> gval) list"
  | GMapI "(gkey \<times> gval) list"
  | GConf "(string \<times> gval) list"
  | GOther nat

type_synonym gmap = "(string, gval) gomap"

text \<open>\<open>m[key]\<close> as an expression: the zero value \<open>nil\<close> where the key is missing.\<close>

definition m_index :: "gmap \<Rightarrow> string \<Rightarrow> gval" where
  "m_index m key = (case map_of m key of None \<Rightarrow> GNil | Some v \<Rightarrow> v)"

subsection \<open>The Config object\<close>

text \<open>The wrapped map and the number of readers that hold the \<open>sync.RWMutex\<close>.\<close>

record Config =
  config :: gmap
  mutex :: nat

definition RLock :: "Config \<Rightarrow> Config" where
  "RLock c = c\<lparr>mutex := Suc (mutex c)\<rparr>"

definition RUnlock :: "Config \<Rightarrow> Config" where
  "RUnlock c = c\<lparr>mutex := mutex c - 1\<rparr>"

definition NewConfigFromMap :: "gmap \<Rightarrow> Config" where
  "NewConfigFromMap m = \<lparr>config = m, mutex = 0\<rparr>"

text \<open>
  \<open>yaml.Unmarshal\<close> (a third-party decoder) and \<open>ioutil.ReadFile\<close> are arguments: the first
  returns the map it filled and an error, the second the file's text or an error.
\<close>

definition NewConfigFromString ::
    "(string \<Rightarrow> gmap \<times> error option) \<Rightarrow> string \<Rightarrow> Config \<times> error option" where
  "NewConfigFromString yaml text =
     (let (c, err) = yaml text
      in if err \<noteq> None then (NewConfigFromMap [], err) else (NewConfigFromMap c, None))"

definition CreateConfig ::
    "(string \<Rightarrow> string \<times> error option) \<Rightarrow> (string \<Rightarrow> gmap \<times> error option) \<Rightarrow>
     string \<Rightarrow> Config \<times> error option" where
  "CreateConfig ReadFile yaml configFile =
     (let (dat, err) = ReadFile configFile
      in if err \<noteq> None then (NewConfigFromMap [], err)
         else (let (c, err) = yaml dat
               in if err \<noteq> None then (NewConfigFromMap [], err)
                  else (NewConfigFromMap c, None)))"

definition Empty :: "Config \<Rightarrow> bool" where
  "Empty c \<longleftrightarrow> length (config c) = 0"

subsection \<open>Conversions between maps\<close>

definition createNewMap :: "chooser \<Rightarrow> gmap \<Rightarrow> gmap" where
  "createNewMap \<rho> m = m_puts (range_over \<rho> m) []"

fun createStringMap_loop :: "(gkey \<times> gval) list \<Rightarrow> gmap \<Rightarrow> gmap \<times> error option" where
  "createStringMap_loop [] subMap = (subMap, None)"
| "createStringMap_loop ((key, v) # kvs) subMap =
     (case key of
        KStr k \<Rightarrow> createStringMap_loop kvs (m_put k v subMap)
      | _ \<Rightarrow> (subMap, Some (Errorf ''Unable to understand non string key'')))"

definition createStringMap :: "chooser \<Rightarrow> (gkey, gval) gomap \<Rightarrow> gmap \<times> error option" where
  "createStringMap \<rho> val = createStringMap_loop (range_over \<rho> val) []"

text \<open>
  \<open>createSubMapFromArray\<close>: the elements of an array become the entries of a map under their
  \<open>name\<close> (or, for a \<open>map[interface{}]interface{}\<close> without a name, their \<open>type\<close>); \<open>i\<close> counts
  the iterations.
\<close>

fun createSubMapFromArray_loop :: "chooser \<Rightarrow> nat \<Rightarrow> gval list \<Rightarrow> gmap \<Rightarrow> gmap" where
  "createSubMapFromArray_loop \<rho> i [] subMap = subMap"
| "createSubMapFromArray_loop \<rho> i (value # vals) subMap =
     (case value of
        GMapS v \<Rightarrow>
          (case map_of v ''name'' of
             Some (GStr n) \<Rightarrow> createSubMapFromArray_loop \<rho> (Suc i) vals (m_put n value subMap)
           | _ \<Rightarrow> createSubMapFromArray_loop \<rho> (Suc i) vals subMap)
      | GMapI v \<Rightarrow>
          (let (s, err) = createStringMap (sub \<rho> i) v
           in if err \<noteq> None then subMap
              else createSubMapFromArray_loop \<rho> (Suc i) vals
                (case map_of s ''name'' of
                   Some name \<Rightarrow>
                     (case name of GStr n \<Rightarrow> m_put n value subMap | _ \<Rightarrow> subMap)
                 | None \<Rightarrow>
                     (case map_of s ''type'' of
                        Some (GStr tp) \<Rightarrow> m_put tp value subMap
                      | _ \<Rightarrow> subMap)))
      | _ \<Rightarrow> subMap)"

definition createSubMapFromArray :: "chooser \<Rightarrow> gval list \<Rightarrow> gmap" where
  "createSubMapFromArray \<rho> val = createSubMapFromArray_loop \<rho> 0 val []"

subsection \<open>Walking a dotted key\<close>

text \<open>
  The loop of \<open>retrieveValueFromKeys\<close>, with its variables \<open>i\<close>, \<open>subMap\<close> and \<open>val\<close>;
  \<open>i == len(keys)-1\<close> is \<open>rest = []\<close>.
\<close>

fun retrieve_loop :: "chooser \<Rightarrow> nat \<Rightarrow> string list \<Rightarrow> gmap \<Rightarrow> gval \<Rightarrow> gval" where
  "retrieve_loop \<rho> i [] subMap val = val"
| "retrieve_loop \<rho> i (key # rest) subMap old =
     (let val = m_index subMap key in
      case val of
        GMapS m \<Rightarrow>
          if rest = [] then GConf m else retrieve_loop \<rho> (Suc i) rest m val
      | GMapI m \<Rightarrow>
          (let (s, err) = createStringMap (sub \<rho> i) m
           in if err \<noteq> None then GConf []
              else if rest = [] then GConf s
              else retrieve_loop \<rho> (Suc i) rest s val)
      | GSlice vs \<Rightarrow>
          if rest = [] then val
          else (let s = createSubMapFromArray (sub \<rho> i) vs
                in if 0 < length s \<and> rest = [] then GConf s
                   else retrieve_loop \<rho> (Suc i) rest s val)
      | _ \<Rightarrow> if rest = [] then val else GConf [])"

definition retrieveValueFromKeys :: "chooser \<Rightarrow> string list \<Rightarrow> gmap \<Rightarrow> gval" where
  "retrieveValueFromKeys \<rho> keys subMap = retrieve_loop \<rho> 0 keys subMap GNil"

subsection \<open>The getters\<close>

text \<open>
  The common beginning of the getters: copy the map under the read lock, release it, split
  the key and walk. Each getter returns its result and the object with its lock.
\<close>

definition locked_value :: "chooser \<Rightarrow> Config \<Rightarrow> string \<Rightarrow> gval \<times> Config" where
  "locked_value \<rho> c key =
     (let c1 = RLock c;
          subMap = createNewMap (sub \<rho> 0) (config c1);
          c2 = RUnlock c1;
          keys = split_on CHR ''.'' key
      in (retrieveValueFromKeys (sub \<rho> 1) keys subMap, c2))"

definition GetString :: "chooser \<Rightarrow> Config \<Rightarrow> string \<Rightarrow> string \<times> Config" where
  "GetString \<rho> c key =
     (let (val, c') = locked_value \<rho> c key
      in (case val of GStr v \<Rightarrow> v | _ \<Rightarrow> [], c'))"

text \<open>The result \<open>None\<close> is the \<open>nil\<close> slice; an empty array leaves \<open>s\<close> at \<open>nil\<close> too.\<close>

fun strings_loop :: "gval list \<Rightarrow> string list option \<Rightarrow> string list option" where
  "strings_loop [] s = s"
| "strings_loop (str # v) s =
     (case str of
        GStr st \<Rightarrow> strings_loop v (Some ((case s of None \<Rightarrow> [] | Some xs \<Rightarrow> xs) @ [st]))
      | _ \<Rightarrow> None)"

definition GetSliceOfStrings ::
    "chooser \<Rightarrow> Config \<Rightarrow> string \<Rightarrow> string list option \<times> Config" where
  "GetSliceOfStrings \<rho> c key =
     (let (val, c') = locked_value \<rho> c key
      in (case val of GSlice v \<Rightarrow> strings_loop v None | _ \<Rightarrow> None, c'))"

definition GetInt :: "chooser \<Rightarrow> Config \<Rightarrow> string \<Rightarrow> 64 word \<times> Config" where
  "GetInt \<rho> c key =
     (let (val, c') = locked_value \<rho> c key
      in (case val of GInt v \<Rightarrow> v | _ \<Rightarrow> 0, c'))"

definition GetBool :: "chooser \<Rightarrow> Config \<Rightarrow> string \<Rightarrow> bool \<times> Config" where
  "GetBool \<rho> c key =
     (let (val, c') = locked_value \<rho> c key
      in (case val of GBool v \<Rightarrow> v | _ \<Rightarrow> False, c'))"

definition GetBoolWithDefault ::
    "chooser \<Rightarrow> Config \<Rightarrow> string \<Rightarrow> bool \<Rightarrow> bool \<times> Config" where
  "GetBoolWithDefault \<rho> c key ifNotFound =
     (let (val, c') = locked_value \<rho> c key
      in (case val of GBool v \<Rightarrow> v | _ \<Rightarrow> ifNotFound, c'))"

definition GetFloat64 :: "chooser \<Rightarrow> Config \<Rightarrow> string \<Rightarrow> 64 word \<times> Config" where
  "GetFloat64 \<rho> c key =
     (let (val, c') = locked_value \<rho> c key
      in (case val of GFloat v \<Rightarrow> v | _ \<Rightarrow> 0, c'))"

text \<open>
  The conversion \<open>float32(v)\<close> on the bits of IEEE numbers: round to nearest, ties to even;
  too large a magnitude becomes an infinity, a carry out of the fraction moves into the
  exponent, and an exponent below the range gives a subnormal number or zero. A NaN keeps the
  top of its payload and is made quiet.
\<close>

definition round_shift :: "nat \<Rightarrow> nat \<Rightarrow> nat" where
  "round_shift m s =
     (let q = m div 2 ^ s; r = m mod 2 ^ s; half = 2 ^ (s - 1)
      in if r > half \<or> (r = half \<and> odd q) then Suc q else q)"

definition float32_of :: "64 word \<Rightarrow> 32 word" where
  "float32_of v =
     (let n = unat v; s = n div 2 ^ 63; e = (n div 2 ^ 52) mod 2 ^ 11; m = n mod 2 ^ 52;
          sign = s * 2 ^ 31; M = (if e = 0 then m else 2 ^ 52 + m)
      in of_nat (sign +
        (if e = 2047 then
           (if m = 0 then 255 * 2 ^ 23
            else 255 * 2 ^ 23 + 2 ^ 22 + (m div 2 ^ 29) mod 2 ^ 22)
         else if e \<ge> 896 + 255 then 255 * 2 ^ 23
         else if e > 896 then (e - 897) * 2 ^ 23 + round_shift M 29
         else round_shift M (29 + (897 - max 1 e)))))"

definition GetFloat32 :: "chooser \<Rightarrow> Config \<Rightarrow> string \<Rightarrow> 32 word \<times> Config" where
  "GetFloat32 \<rho> c key =
     (let (val, c') = locked_value \<rho> c key
      in (case val of GFloat v \<Rightarrow> float32_of v | _ \<Rightarrow> 0, c'))"

definition GetSubConfig :: "chooser \<Rightarrow> Config \<Rightarrow> string \<Rightarrow> Config \<times> Config" where
  "GetSubConfig \<rho> c key =
     (let (val, c') = locked_value \<rho> c key
      in (case val of GConf m \<Rightarrow> NewConfigFromMap m | _ \<Rightarrow> NewConfigFromMap [], c'))"

fun createSubConfigForArray_loop ::
    "chooser \<Rightarrow> nat \<Rightarrow> gval list \<Rightarrow> Config list \<Rightarrow> Config list" where
  "createSubConfigForArray_loop \<rho> i [] configs = configs"
| "createSubConfigForArray_loop \<rho> i (value # vals) configs =
     (case value of
        GMapS v \<Rightarrow>
          createSubConfigForArray_loop \<rho> (Suc i) vals (configs @ [NewConfigFromMap v])
      | GMapI v \<Rightarrow>
          (let (s, err) = createStringMap (sub \<rho> i) v
           in if err \<noteq> None then configs
              else createSubConfigForArray_loop \<rho> (Suc i) vals
                     (configs @ [NewConfigFromMap s]))
      | _ \<Rightarrow> configs)"

definition createSubConfigForArray :: "chooser \<Rightarrow> gval list \<Rightarrow> Config list" where
  "createSubConfigForArray \<rho> vals = createSubConfigForArray_loop \<rho> 0 vals []"

text \<open>The only getter that takes the read lock without releasing it.\<close>

definition GetSubConfigArray :: "chooser \<Rightarrow> Config \<Rightarrow> string \<Rightarrow> Config list \<times> Config" where
  "GetSubConfigArray \<rho> c key =
     (let c1 = RLock c;
          subMap = createNewMap (sub \<rho> 0) (config c1);
          keys = split_on CHR ''.'' key;
          val = retrieveValueFromKeys (sub \<rho> 1) keys subMap
      in (case val of GSlice vs \<Rightarrow> createSubConfigForArray (sub \<rho> 2) vs | _ \<Rightarrow> [], c1))"

text \<open>
  The loop over the sub configurations returns in its first iteration, so only the first
  element of the array is read.
\<close>

fun string_entries_loop :: "(string \<times> gval) list \<Rightarrow> strmap \<Rightarrow> strmap" where
  "string_entries_loop [] newMap = newMap"
| "string_entries_loop ((k, v) # kvs) newMap =
     string_entries_loop kvs (case v of GStr s \<Rightarrow> m_put k s newMap | _ \<Rightarrow> newMap)"

definition GetMapOfStrings :: "chooser \<Rightarrow> Config \<Rightarrow> string \<Rightarrow> strmap option \<times> Config" where
  "GetMapOfStrings \<rho> c key =
     (let (subMap, c') = GetSubConfigArray (sub \<rho> 0) c key
      in (case subMap of
            [] \<Rightarrow> None
          | sMap # _ \<Rightarrow> Some (string_entries_loop (range_over (sub \<rho> 1) (config sMap)) []), c'))"

definition ToMap :: "chooser \<Rightarrow> Config \<Rightarrow> gmap \<times> Config" where
  "ToMap \<rho> c =
     (let c1 = RLock c; subMap = createNewMap (sub \<rho> 0) (config c1)
      in (subMap, RUnlock c1))"

subsection \<open>Well-formed values\<close>

text \<open>Every map inside a value is a Go map: its keys are distinct (sorted in the model).\<close>

fun gv_ok :: "gval \<Rightarrow> bool" where
  "gv_ok (GSlice vs) = (\<forall>v \<in> set vs. gv_ok v)"
| "gv_ok (GMapS m) = (m_ok m \<and> (\<forall>p \<in> set m. gv_ok (snd p)))"
| "gv_ok (GMapI m) = (m_ok m \<and> (\<forall>p \<in> set m. gv_ok (snd p)))"
| "gv_ok (GConf m) = (m_ok m \<and> (\<forall>p \<in> set m. gv_ok (snd p)))"
| "gv_ok v = True"

definition gmap_ok :: "gmap \<Rightarrow> bool" where
  "gmap_ok m \<longleftrightarrow> m_ok m \<and> (\<forall>p \<in> set m. gv_ok (snd p))"

lemma gv_ok_maps [simp]: "gv_ok (GMapS m) = gmap_ok m" "gv_ok (GConf m) = gmap_ok m"
  by (simp_all add: gmap_ok_def)

declare gv_ok.simps(2) [simp del] gv_ok.simps(4) [simp del]

lemma gmap_ok_Nil [simp]: "gmap_ok []"
  by (simp add: gmap_ok_def)

lemma gmap_ok_lookup: "gmap_ok m \<Longrightarrow> map_of m k = Some v \<Longrightarrow> gv_ok v"
  by (auto simp: gmap_ok_def dest!: map_of_SomeD)

lemma gv_ok_m_index: "gmap_ok m \<Longrightarrow> gv_ok (m_index m k)"
  by (auto simp: m_index_def dest: gmap_ok_lookup split: option.splits)

lemma set_m_put_subset: "set (m_put k v m) \<subseteq> insert (k, v) (set m)"
  by (induction k v m rule: m_put.induct) auto

lemma gmap_ok_m_put [simp]: "gmap_ok m \<Longrightarrow> gv_ok v \<Longrightarrow> gmap_ok (m_put k v m)"
  using set_m_put_subset [of k v m] by (auto simp: gmap_ok_def gomap_rules)

lemma gmap_ok_m_puts:
  "gmap_ok m \<Longrightarrow> \<forall>p \<in> set kvs. gv_ok (snd p) \<Longrightarrow> gmap_ok (m_puts kvs m)"
  by (induction kvs arbitrary: m) (auto simp: m_puts_def gmap_ok_m_put)

subsection \<open>Iteration order does not matter\<close>

text \<open>
  Order-free counterparts of the conversions. \<open>string_map\<close> is the \<open>map[string]interface{}\<close>
  of a \<open>map[interface{}]interface{}\<close> whose keys are all strings.
\<close>

definition string_map :: "(gkey, gval) gomap \<Rightarrow> gmap option" where
  "string_map m =
     (if \<forall>p \<in> set m. is_KStr (fst p)
      then Some (m_puts (map (\<lambda>(k, v). (the_str k, v)) m) []) else None)"

lemma createNewMap_id [order_rules]: "m_ok m \<Longrightarrow> createNewMap \<rho> m = m"
  by (simp add: createNewMap_def order_rules m_ok_distinct)

lemma createStringMap_loop_strings:
  "\<forall>p \<in> set kvs. is_KStr (fst p) \<Longrightarrow>
   createStringMap_loop kvs acc = (m_puts (map (\<lambda>(k, v). (the_str k, v)) kvs) acc, None)"
  by (induction kvs arbitrary: acc) (auto simp: m_puts_def split: gkey.splits)

lemma createStringMap_loop_error:
  "\<not> (\<forall>p \<in> set kvs. is_KStr (fst p)) \<Longrightarrow>
   snd (createStringMap_loop kvs acc) = Some (Errorf ''Unable to understand non string key'')"
  by (induction kvs acc rule: createStringMap_loop.induct) (fastforce split: gkey.splits)+

lemma createStringMap_Some [order_rules]:
  assumes "m_ok m" and "string_map m = Some s"
  shows "createStringMap \<rho> m = (s, None)"
proof -
  let ?f = "\<lambda>(k, v). (the_str k, v)"
  have str: "\<forall>p \<in> set m. is_KStr (fst p)" and s: "s = m_puts (map ?f m) []"
    using assms(2) by (auto simp: string_map_def split: if_splits)
  have "inj_on the_str (fst ` set m)"
    by (rule inj_on_inverseI [where g = KStr]) (use str in auto)
  then have "distinct (map the_str (map fst m))"
    using m_ok_distinct [OF assms(1)] by (simp only: distinct_map) simp
  moreover have "map fst (map ?f m) = map the_str (map fst m)" by auto
  ultimately have "distinct (map fst (map ?f m))" by (simp only:)
  then have "m_puts (map ?f (range_over \<rho> m)) [] = s"
    unfolding s by (intro m_puts_perm) simp_all
  then show ?thesis using str by (simp add: createStringMap_def createStringMap_loop_strings)
qed

lemma createStringMap_None [order_rules]:
  "string_map m = None \<Longrightarrow>
   snd (createStringMap \<rho> m) = Some (Errorf ''Unable to understand non string key'')"
  by (auto simp: createStringMap_def string_map_def createStringMap_loop_error split: if_splits)

lemma gmap_ok_string_map:
  "string_map m = Some s \<Longrightarrow> m_ok m \<Longrightarrow> \<forall>p \<in> set m. gv_ok (snd p) \<Longrightarrow> gmap_ok s"
  by (fastforce simp: string_map_def intro!: gmap_ok_m_puts split: if_splits)


text \<open>\<open>array_elems\<close> is the order-free \<open>createSubConfigForArray\<close>, \<open>array_map\<close> the order-free
  \<open>createSubMapFromArray\<close>.\<close>

fun array_elems :: "gval list \<Rightarrow> gmap list" where
  "array_elems (GMapS m # vs) = m # array_elems vs"
| "array_elems (GMapI m # vs) =
     (case string_map m of None \<Rightarrow> [] | Some s \<Rightarrow> s # array_elems vs)"
| "array_elems _ = []"

definition elem_key :: "gval \<Rightarrow> gmap \<Rightarrow> string option" where
  "elem_key v m =
     (case map_of m ''name'' of
        Some (GStr n) \<Rightarrow> Some n
      | Some _ \<Rightarrow> None
      | None \<Rightarrow>
          (case v of
             GMapI _ \<Rightarrow> (case map_of m ''type'' of Some (GStr tp) \<Rightarrow> Some tp | _ \<Rightarrow> None)
           | _ \<Rightarrow> None))"

fun array_map :: "gval list \<Rightarrow> gmap \<Rightarrow> gmap" where
  "array_map [] acc = acc"
| "array_map (v # vs) acc =
     (case array_elems [v] of
        [] \<Rightarrow> acc
      | m # _ \<Rightarrow> array_map vs
          (case elem_key v m of None \<Rightarrow> acc | Some k \<Rightarrow> m_put k v acc))"

lemma createSubConfigForArray_loop_eq:
  "\<forall>v \<in> set vs. gv_ok v \<Longrightarrow> createSubConfigForArray_loop \<rho> i vs cs =
   cs @ map NewConfigFromMap (array_elems vs)"
proof (induction \<rho> i vs cs rule: createSubConfigForArray_loop.induct)
  case (2 \<rho> i v vals configs)
  show ?case
  proof (cases v)
    case (GMapI m)
    show ?thesis
    proof (cases "string_map m")
      case None
      then show ?thesis
        using createStringMap_None [of m "sub \<rho> i"] GMapI by (auto split: prod.splits)
    next
      case (Some s)
      then have "createStringMap (sub \<rho> i) m = (s, None)"
        using "2.prems" GMapI by (intro createStringMap_Some) simp_all
      then show ?thesis using "2.IH"(2) [OF GMapI refl] "2.prems" GMapI Some by simp
    qed
  qed (use "2" in simp_all)
qed simp_all

lemma createSubMapFromArray_loop_eq:
  "\<forall>v \<in> set vs. gv_ok v \<Longrightarrow> createSubMapFromArray_loop \<rho> i vs acc = array_map vs acc"
proof (induction vs arbitrary: i acc)
  case (Cons v vs)
  have IH: "createSubMapFromArray_loop \<rho> i vs acc = array_map vs acc" for i acc
    using Cons by simp
  show ?case
  proof (cases v)
    case (GMapS m)
    then show ?thesis by (auto simp: IH elem_key_def split: option.splits gval.splits)
  next
    case (GMapI m)
    show ?thesis
    proof (cases "string_map m")
      case None
      then show ?thesis
        using createStringMap_None [of m "sub \<rho> i"] GMapI by (auto split: prod.splits)
    next
      case (Some s)
      then have "createStringMap (sub \<rho> i) m = (s, None)"
        using Cons.prems GMapI by (intro createStringMap_Some) simp_all
      then show ?thesis
        using GMapI Some by (auto simp: IH elem_key_def split: option.splits gval.splits)
    qed
  qed simp_all
qed simp

lemma createSubMapFromArray_eq [order_rules]:
  "\<forall>v \<in> set vs. gv_ok v \<Longrightarrow> createSubMapFromArray \<rho> vs = array_map vs []"
  by (simp add: createSubMapFromArray_def createSubMapFromArray_loop_eq)

lemma gmap_ok_array_map:
  "\<forall>v \<in> set vs. gv_ok v \<Longrightarrow> gmap_ok acc \<Longrightarrow> gmap_ok (array_map vs acc)"
  by (induction vs acc rule: array_map.induct)
    (auto split: list.splits option.splits)

lemma gmap_ok_array_elems:
  "\<forall>v \<in> set vs. gv_ok v \<Longrightarrow> m \<in> set (array_elems vs) \<Longrightarrow> gmap_ok m"
proof (induction vs rule: array_elems.induct)
  case (2 n vs)
  then obtain s where s: "string_map n = Some s" by (cases "string_map n") auto
  with "2.prems" have "gmap_ok s" by (auto intro: gmap_ok_string_map)
  with s "2" show ?case by auto
qed auto

subsection \<open>The walk as a recursive lookup\<close>

text \<open>
  One step into a value: the map that the next key is looked up in, if the value is one
  (\<open>descend\<close>), and the value the last key gives (\<open>at_leaf\<close>). \<open>walk\<close> is what
  \<open>retrieveValueFromKeys\<close> computes.
\<close>

fun descend :: "gval \<Rightarrow> gmap option" where
  "descend (GMapS m) = Some m"
| "descend (GMapI m) = string_map m"
| "descend (GSlice vs) = Some (array_map vs [])"
| "descend _ = None"

fun at_leaf :: "gval \<Rightarrow> gval" where
  "at_leaf (GMapS m) = GConf m"
| "at_leaf (GMapI m) = GConf (case string_map m of None \<Rightarrow> [] | Some s \<Rightarrow> s)"
| "at_leaf v = v"

fun walk :: "string list \<Rightarrow> gmap \<Rightarrow> gval" where
  "walk [] m = GNil"
| "walk (k # ks) m =
     (if ks = [] then at_leaf (m_index m k)
      else (case descend (m_index m k) of None \<Rightarrow> GConf [] | Some m' \<Rightarrow> walk ks m'))"

lemma gmap_ok_descend: "gv_ok v \<Longrightarrow> descend v = Some m \<Longrightarrow> gmap_ok m"
  by (cases v) (auto intro: gmap_ok_string_map gmap_ok_array_map)

lemma retrieve_loop_walk:
  "gmap_ok m \<Longrightarrow> ks \<noteq> [] \<Longrightarrow> retrieve_loop \<rho> i ks m old = walk ks m"
proof (induction ks arbitrary: i m old)
  case (Cons k ks)
  let ?v = "m_index m k"
  have v: "gv_ok ?v" using Cons.prems(1) by (rule gv_ok_m_index)
  have IH: "retrieve_loop \<rho> i ks m' w = walk ks m'"
    if "descend ?v = Some m'" "ks \<noteq> []" for i m' w
    using Cons.IH that gmap_ok_descend [OF v] by blast
  show ?case
  proof (cases ?v)
    case (GMapI n)
    show ?thesis
    proof (cases "string_map n")
      case None
      then show ?thesis
        using createStringMap_None [of n "sub \<rho> i"] GMapI by (auto split: prod.splits)
    next
      case (Some s)
      then have "createStringMap (sub \<rho> i) n = (s, None)"
        using v GMapI by (intro createStringMap_Some) simp_all
      then show ?thesis using GMapI Some IH by simp
    qed
  next
    case (GSlice vs)
    then show ?thesis using v IH by (simp add: createSubMapFromArray_eq)
  qed (use IH in simp_all)
qed simp

lemma retrieveValueFromKeys_walk [order_rules]:
  "gmap_ok m \<Longrightarrow> retrieveValueFromKeys \<rho> ks m = walk ks m"
  by (cases "ks = []") (simp_all add: retrieveValueFromKeys_def retrieve_loop_walk)


subsection \<open>The contract of the getters\<close>

text \<open>
  What a reader of the configuration relies on: the result is a function of the wrapped map
  and the key alone, and reading leaves the map as it was. \<open>balanced_getter\<close> adds that the
  lock is released.
\<close>

locale config_getter =
  fixes get :: "chooser \<Rightarrow> Config \<Rightarrow> string \<Rightarrow> 'a \<times> Config"
    and val :: "gmap \<Rightarrow> string \<Rightarrow> 'a"
  assumes result: "gmap_ok (config c) \<Longrightarrow> fst (get \<rho> c key) = val (config c) key"
    and keeps: "config (snd (get \<rho> c key)) = config c"
begin

lemma order_free: "gmap_ok (config c) \<Longrightarrow> fst (get \<rho> c key) = fst (get \<rho>' c key)"
  by (simp add: result)

lemma split_result:
  "gmap_ok (config c) \<Longrightarrow>
   \<exists>c'. get \<rho> c key = (val (config c) key, c') \<and> config c' = config c"
  by (rule exI [of _ "snd (get \<rho> c key)"]) (simp add: result keeps prod_eq_iff)

end

locale balanced_getter = config_getter +
  assumes balanced: "snd (get \<rho> c key) = c"
begin

lemma get_eq: "gmap_ok (config c) \<Longrightarrow> get \<rho> c key = (val (config c) key, c)"
  by (simp add: result balanced prod_eq_iff)

end

text \<open>The value each getter reads, as a function of the map.\<close>

definition value_at :: "gmap \<Rightarrow> string \<Rightarrow> gval" where
  "value_at m key = walk (split_on CHR ''.'' key) m"

definition string_at :: "gmap \<Rightarrow> string \<Rightarrow> string" where
  "string_at m key = (case value_at m key of GStr v \<Rightarrow> v | _ \<Rightarrow> [])"

definition strings_at :: "gmap \<Rightarrow> string \<Rightarrow> string list option" where
  "strings_at m key = (case value_at m key of GSlice v \<Rightarrow> strings_loop v None | _ \<Rightarrow> None)"

definition int_at :: "gmap \<Rightarrow> string \<Rightarrow> 64 word" where
  "int_at m key = (case value_at m key of GInt v \<Rightarrow> v | _ \<Rightarrow> 0)"

definition bool_at :: "bool \<Rightarrow> gmap \<Rightarrow> string \<Rightarrow> bool" where
  "bool_at d m key = (case value_at m key of GBool v \<Rightarrow> v | _ \<Rightarrow> d)"

definition float_at :: "gmap \<Rightarrow> string \<Rightarrow> 64 word" where
  "float_at m key = (case value_at m key of GFloat v \<Rightarrow> v | _ \<Rightarrow> 0)"

definition float32_at :: "gmap \<Rightarrow> string \<Rightarrow> 32 word" where
  "float32_at m key = (case value_at m key of GFloat v \<Rightarrow> float32_of v | _ \<Rightarrow> 0)"

definition sub_at :: "gmap \<Rightarrow> string \<Rightarrow> Config" where
  "sub_at m key =
     (case value_at m key of GConf n \<Rightarrow> NewConfigFromMap n | _ \<Rightarrow> NewConfigFromMap [])"

definition subs_at :: "gmap \<Rightarrow> string \<Rightarrow> Config list" where
  "subs_at m key =
     (case value_at m key of GSlice vs \<Rightarrow> map NewConfigFromMap (array_elems vs) | _ \<Rightarrow> [])"

definition string_entries :: "gmap \<Rightarrow> strmap" where
  "string_entries m =
     m_puts (concat (map (\<lambda>(k, v). case v of GStr s \<Rightarrow> [(k, s)] | _ \<Rightarrow> []) m)) []"

definition strmap_at :: "gmap \<Rightarrow> string \<Rightarrow> strmap option" where
  "strmap_at m key =
     (case subs_at m key of [] \<Rightarrow> None | c # _ \<Rightarrow> Some (string_entries (config c)))"

lemmas value_at_defs = string_at_def strings_at_def int_at_def bool_at_def float_at_def
  float32_at_def sub_at_def subs_at_def

lemma NewConfigFromMap_sel [simp]:
  "config (NewConfigFromMap m) = m" "mutex (NewConfigFromMap m) = 0"
  by (simp_all add: NewConfigFromMap_def)

lemma lock_simps [simp]:
  "config (RLock c) = config c" "RUnlock (RLock c) = c" "mutex (RLock c) = Suc (mutex c)"
  by (simp_all add: RLock_def RUnlock_def)

lemma gmap_ok_m_ok [simp]: "gmap_ok m \<Longrightarrow> m_ok m"
  by (simp add: gmap_ok_def)

lemma locked_value_snd [simp]: "snd (locked_value \<rho> c key) = c"
  by (simp add: locked_value_def Let_def)

lemma locked_value_fst [simp]:
  "gmap_ok (config c) \<Longrightarrow> fst (locked_value \<rho> c key) = value_at (config c) key"
  by (simp add: locked_value_def Let_def order_rules value_at_def)

lemma string_entries_loop_puts:
  "string_entries_loop kvs acc =
   m_puts (concat (map (\<lambda>(k, v). case v of GStr s \<Rightarrow> [(k, s)] | _ \<Rightarrow> []) kvs)) acc"
  by (induction kvs acc rule: string_entries_loop.induct)
    (auto simp: m_puts_def split: gval.splits)

lemma distinct_string_pairs:
  "distinct (map fst kvs) \<Longrightarrow>
   distinct (map fst (concat (map (\<lambda>(k, v). case v of GStr s \<Rightarrow> [(k, s)] | _ \<Rightarrow> []) kvs)))"
  by (induction kvs) (auto simp: rev_image_eqI split: gval.splits)

lemma string_entries_loop_order [order_rules]:
  assumes "m_ok m"
  shows "string_entries_loop (range_over \<rho> m) [] = string_entries m"
  unfolding string_entries_loop_puts string_entries_def
proof (rule m_puts_perm)
  let ?f = "\<lambda>(k, v). case v of GStr s \<Rightarrow> [(k, s)] | _ \<Rightarrow> []"
  have "mset (concat (map ?f xs)) = \<Sum>\<^sub># (image_mset (mset \<circ> ?f) (mset xs))"
    for xs :: gmap
    by (induction xs) simp_all
  then show "mset (concat (map ?f (range_over \<rho> m))) = mset (concat (map ?f m))"
    by (simp only: mset_range_over)
  show "distinct (map fst (concat (map ?f m)))"
    using m_ok_distinct [OF assms] by (rule distinct_string_pairs)
qed simp

lemma m_ok_string_entries [gomap_rules]: "m_ok (string_entries m)"
  by (simp add: string_entries_def gomap_rules)

lemma gv_ok_walk: "gmap_ok m \<Longrightarrow> gv_ok (walk ks m)"
proof (induction ks arbitrary: m)
  case (Cons k ks)
  have v: "gv_ok (m_index m k)" using Cons.prems by (rule gv_ok_m_index)
  then have "gv_ok (at_leaf (m_index m k))"
    by (cases "m_index m k") (auto intro: gmap_ok_string_map split: option.splits)
  with Cons v show ?case by (auto dest: gmap_ok_descend split: option.splits)
qed simp

lemma gv_ok_value_at: "gmap_ok m \<Longrightarrow> gv_ok (value_at m key)"
  by (simp add: value_at_def gv_ok_walk)

lemma subs_at_ok: "gmap_ok m \<Longrightarrow> c \<in> set (subs_at m key) \<Longrightarrow> gmap_ok (config c)"
  using gv_ok_value_at [of m key]
  by (cases "value_at m key") (auto simp: subs_at_def intro: gmap_ok_array_elems)

lemma sub_at_ok: "gmap_ok m \<Longrightarrow> gmap_ok (config (sub_at m key))"
  using gv_ok_value_at [of m key] by (auto simp: sub_at_def split: gval.splits)

lemma GetSubConfigArray_eq:
  assumes "gmap_ok (config c)"
  shows "GetSubConfigArray \<rho> c key = (subs_at (config c) key, RLock c)"
proof -
  have "gv_ok (value_at (config c) key)" using assms by (rule gv_ok_value_at)
  then show ?thesis using assms
    by (auto simp: GetSubConfigArray_def subs_at_def Let_def order_rules value_at_def
        createSubConfigForArray_def createSubConfigForArray_loop_eq split: gval.splits)
qed

lemma GetMapOfStrings_eq:
  assumes "gmap_ok (config c)"
  shows "GetMapOfStrings \<rho> c key = (strmap_at (config c) key, RLock c)"
proof (cases "subs_at (config c) key")
  case Nil
  then show ?thesis
    using assms by (simp add: GetMapOfStrings_def GetSubConfigArray_eq strmap_at_def)
next
  case (Cons d ds)
  then have "m_ok (config d)" using subs_at_ok [OF assms, of d key] by simp
  with Cons show ?thesis
    using assms by (simp add: GetMapOfStrings_def GetSubConfigArray_eq strmap_at_def order_rules)
qed

text \<open>Each getter of the code meets the contract.\<close>

interpretation get_string: balanced_getter GetString string_at
  by unfold_locales (simp_all add: GetString_def string_at_def split_beta)

interpretation get_strings: balanced_getter GetSliceOfStrings strings_at
  by unfold_locales (simp_all add: GetSliceOfStrings_def strings_at_def split_beta)

interpretation get_int: balanced_getter GetInt int_at
  by unfold_locales (simp_all add: GetInt_def int_at_def split_beta)

interpretation get_bool: balanced_getter GetBool "bool_at False"
  by unfold_locales (simp_all add: GetBool_def bool_at_def split_beta)

interpretation get_bool_default:
  balanced_getter "\<lambda>\<rho> c key. GetBoolWithDefault \<rho> c key d" "bool_at d" for d
  by unfold_locales (simp_all add: GetBoolWithDefault_def bool_at_def split_beta)

interpretation get_float64: balanced_getter GetFloat64 float_at
  by unfold_locales (simp_all add: GetFloat64_def float_at_def split_beta)

interpretation get_float32: balanced_getter GetFloat32 float32_at
  by unfold_locales (simp_all add: GetFloat32_def float32_at_def split_beta)

interpretation get_sub: balanced_getter GetSubConfig sub_at
  by unfold_locales (simp_all add: GetSubConfig_def sub_at_def split_beta)

interpretation get_subs: config_getter GetSubConfigArray subs_at
  by unfold_locales
    (simp add: GetSubConfigArray_eq, simp add: GetSubConfigArray_def Let_def)

interpretation get_strmap: config_getter GetMapOfStrings strmap_at
  by unfold_locales
    (simp add: GetMapOfStrings_eq, simp add: GetMapOfStrings_def get_subs.keeps split_beta)


subsection \<open>Properties\<close>

text \<open>C37: for maps with distinct keys, the loop of \<open>retrieveValueFromKeys\<close> computes the
  recursive lookup \<open>walk\<close>, whatever order Go ranges over the maps it converts on the way.\<close>

theorem retrieve_refines_walk:
  assumes "gmap_ok m"
  shows "retrieveValueFromKeys \<rho> keys m = walk keys m"
  using assms by (rule retrieveValueFromKeys_walk)

definition sample_map :: gmap where
  "sample_map =
     [(''methods'', GSlice [GMapI [(KStr ''kind'', GStr ''x''), (KStr ''name'', GStr ''echo'')]])]"

lemma sample_map_ok: "gmap_ok sample_map"
  by (simp add: sample_map_def gmap_ok_def m_ok_def less_gkey_def)

theorem retrieve_refines_walk_witness:
  "gmap_ok sample_map \<and>
   retrieveValueFromKeys (\<lambda>p. [1]) [''methods'', ''echo'', ''kind''] sample_map = GStr ''x''"
proof -
  have w: "walk [''methods'', ''echo'', ''kind''] sample_map = GStr ''x''"
    by (simp add: sample_map_def m_index_def string_map_def m_puts_def elem_key_def)
  then show ?thesis
    using sample_map_ok retrieve_refines_walk [OF sample_map_ok, of "\<lambda>p. [1]"] by simp
qed

text \<open>No getter's result depends on the order in which Go ranges over the maps.\<close>

theorem getters_order_free:
  assumes "gmap_ok (config c)"
  shows "fst (GetString \<rho> c key) = fst (GetString \<rho>' c key) \<and>
    fst (GetSliceOfStrings \<rho> c key) = fst (GetSliceOfStrings \<rho>' c key) \<and>
    fst (GetInt \<rho> c key) = fst (GetInt \<rho>' c key) \<and>
    fst (GetBoolWithDefault \<rho> c key d) = fst (GetBoolWithDefault \<rho>' c key d) \<and>
    fst (GetFloat64 \<rho> c key) = fst (GetFloat64 \<rho>' c key) \<and>
    fst (GetSubConfig \<rho> c key) = fst (GetSubConfig \<rho>' c key) \<and>
    fst (GetSubConfigArray \<rho> c key) = fst (GetSubConfigArray \<rho>' c key) \<and>
    fst (GetMapOfStrings \<rho> c key) = fst (GetMapOfStrings \<rho>' c key)"
  using assms
  by (intro conjI get_string.order_free get_strings.order_free get_int.order_free
      get_bool_default.order_free get_float64.order_free get_sub.order_free
      get_subs.order_free get_strmap.order_free)

theorem getters_order_free_witness:
  "gmap_ok (config (NewConfigFromMap sample_map)) \<and>
   fst (GetSubConfigArray (\<lambda>p. [1]) (NewConfigFromMap sample_map) ''methods'') =
   fst (GetSubConfigArray in_order (NewConfigFromMap sample_map) ''methods'')"
  using getters_order_free [of "NewConfigFromMap sample_map"] sample_map_ok by simp

lemma walk_empty_map [simp]: "(case walk ks [] of GStr v \<Rightarrow> v | _ \<Rightarrow> []) = []"
  by (cases ks) (simp_all add: m_index_def)

text \<open>Dotted keys compose: reading \<open>a.b\<close> is reading \<open>b\<close> in the sub configuration \<open>a\<close>,
  unless \<open>a\<close> holds an array (which only the dotted form can enter, by element name) or an
  embedded \<open>*Config\<close> (which only \<open>GetSubConfig\<close> can enter).\<close>

theorem GetString_dotted:
  assumes "gmap_ok (config c)" and "CHR ''.'' \<notin> set a"
    and "\<forall>vs. m_index (config c) a \<noteq> GSlice vs" and "\<forall>n. m_index (config c) a \<noteq> GConf n"
  shows "fst (GetString \<rho> c (a @ ''.'' @ b)) =
    fst (GetString \<rho>' (fst (GetSubConfig \<rho>'' c a)) b)"
proof -
  let ?m = "config c"
  have "string_at ?m (a @ ''.'' @ b) = string_at (config (sub_at ?m a)) b"
    using assms(2-4)
    by (cases "m_index ?m a")
      (auto simp: value_at_defs value_at_def split_on_append split_on_no_sep m_index_def
        split: list.splits option.splits)
  then show ?thesis using assms(1) by (simp add: get_string.result get_sub.result sub_at_ok)
qed

theorem GetString_dotted_witness:
  "m_index [(''a'', GMapS [(''b'', GStr ''v'')])] ''a'' = GMapS [(''b'', GStr ''v'')] \<and>
   fst (GetString in_order (NewConfigFromMap [(''a'', GMapS [(''b'', GStr ''v'')])]) ''a.b'') =
   fst (GetString in_order (fst (GetSubConfig in_order
     (NewConfigFromMap [(''a'', GMapS [(''b'', GStr ''v'')])]) ''a'')) ''b'')"
  using GetString_dotted [of "NewConfigFromMap [(''a'', GMapS [(''b'', GStr ''v'')])]" "''a''"
      in_order "''b''" in_order in_order]
  by (simp add: m_index_def gmap_ok_def m_ok_def)

text \<open>\<open>GetMapOfStrings\<close> on an array of maps reads its first element only, and of that the
  entries whose values are strings; the elements after the first have no influence.\<close>

lemma map_of_string_entries:
  assumes "m_ok m"
  shows "map_of (string_entries m) k = Some s \<longleftrightarrow> map_of m k = Some (GStr s)"
proof -
  let ?f = "\<lambda>(k, v). case v of GStr s \<Rightarrow> [(k, s)] | _ \<Rightarrow> []"
  have d: "distinct (map fst (concat (map ?f m)))"
    using m_ok_distinct [OF assms] by (rule distinct_string_pairs)
  have "map_of (string_entries m) k = Some s \<longleftrightarrow> (k, s) \<in> set (concat (map ?f m))"
    using d by (simp add: string_entries_def map_of_m_puts map_of_eq_Some_iff)
  also have "\<dots> \<longleftrightarrow> (k, GStr s) \<in> set m"
    by (auto split: gval.splits intro!: bexI [of _ "(k, GStr s)"])
  finally show ?thesis using m_ok_distinct [OF assms] by (simp add: map_of_eq_Some_iff)
qed

theorem GetMapOfStrings_first_element_only:
  assumes "gmap_ok (config c)" and "CHR ''.'' \<notin> set key"
    and "m_index (config c) key = GSlice (v # vs)" and "descend v = Some n"
    and "\<forall>xs. v \<noteq> GSlice xs"
  shows "\<exists>r. fst (GetMapOfStrings \<rho> c key) = Some r \<and>
    (\<forall>k s. map_of r k = Some s \<longleftrightarrow> map_of n k = Some (GStr s))"
proof -
  have "gv_ok (GSlice (v # vs))" using gv_ok_m_index [OF assms(1)] assms(3) by metis
  then have n: "m_ok n" using gmap_ok_descend [OF _ assms(4)] by simp
  have "subs_at (config c) key = map NewConfigFromMap (array_elems (v # vs))"
    using assms(2,3) by (simp add: subs_at_def value_at_def split_on_no_sep)
  moreover have "\<exists>ms. array_elems (v # vs) = n # ms" using assms(4,5) by (cases v) auto
  ultimately have "strmap_at (config c) key = Some (string_entries n)"
    by (auto simp: strmap_at_def)
  then show ?thesis using n assms(1) by (simp add: get_strmap.result map_of_string_entries)
qed

definition secrets_map :: gmap where
  "secrets_map = [(''config'', GSlice [GMapI [(KStr ''user'', GStr ''admin'')],
     GMapI [(KStr ''password'', GStr ''letmein'')]])]"

theorem GetMapOfStrings_first_element_only_witness:
  "gmap_ok secrets_map \<and>
   (\<exists>r. fst (GetMapOfStrings in_order (NewConfigFromMap secrets_map) ''config'') = Some r \<and>
     map_of r ''user'' = Some ''admin'' \<and> map_of r ''password'' = None)"
proof -
  have ok: "gmap_ok secrets_map" by (simp add: secrets_map_def gmap_ok_def m_ok_def)
  have "\<exists>r. fst (GetMapOfStrings in_order (NewConfigFromMap secrets_map) ''config'') = Some r \<and>
    (\<forall>k s. map_of r k = Some s \<longleftrightarrow> map_of [(''user'', GStr ''admin'')] k = Some (GStr s))"
    by (rule GetMapOfStrings_first_element_only
        [where v = "GMapI [(KStr ''user'', GStr ''admin'')]"
           and vs = "[GMapI [(KStr ''password'', GStr ''letmein'')]]"])
      (use ok in \<open>simp_all add: secrets_map_def m_index_def string_map_def m_puts_def\<close>)
  then show ?thesis using ok by (auto split: if_splits intro: option.exhaust)
qed

text \<open>Every getter but \<open>GetSubConfigArray\<close> and its caller \<open>GetMapOfStrings\<close> gives back
  the read lock it took; these two return with one more reader than before.\<close>

theorem getters_lock_balance:
  "snd (GetString \<rho> c key) = c \<and> snd (GetSliceOfStrings \<rho> c key) = c \<and>
   snd (GetInt \<rho> c key) = c \<and> snd (GetBool \<rho> c key) = c \<and>
   snd (GetBoolWithDefault \<rho> c key d) = c \<and> snd (GetFloat64 \<rho> c key) = c \<and>
   snd (GetFloat32 \<rho> c key) = c \<and> snd (GetSubConfig \<rho> c key) = c \<and>
   snd (ToMap \<rho> c) = c \<and>
   mutex (snd (GetSubConfigArray \<rho> c key)) = Suc (mutex c) \<and>
   mutex (snd (GetMapOfStrings \<rho> c key)) = Suc (mutex c)"
  by (simp add: get_string.balanced get_strings.balanced get_int.balanced get_bool.balanced
      get_bool_default.balanced get_float64.balanced get_float32.balanced get_sub.balanced)
    (simp add: ToMap_def GetMapOfStrings_def GetSubConfigArray_def Let_def)

end
