(* ===== verification/Types.thy ===== *)
theory Types
  imports Prelude
begin

section \<open>The data of the operator\<close>

text \<open>
  The custom resource types of \<open>pkg/apis/fencing/v1alpha1/types.go\<close> and the parts of the
  Kubernetes objects (nodes, pods, jobs, events, config maps) that the operator reads or
  writes. Field names keep the source's, with a short prefix where two structs share one. A
  pointer that may be \<open>nil\<close> is an \<open>option\<close>, a map that may be \<open>nil\<close> an \<open>option\<close> of a map;
  \<open>nil\<close> and empty slices are not told apart, as the code does not.
\<close>

subsection \<open>Metadata\<close>

record TypeMeta =
  Kind :: string
  APIVersion :: string

record OwnerReference =
  or_APIVersion :: string
  or_Kind :: string
  or_Name :: string
  or_UID :: string
  Controller :: "bool option"
  BlockOwnerDeletion :: "bool option"

record ObjectMeta =
  Name :: string
  GenerateName :: string
  Namespace :: string
  UID :: string
  Labels :: "strmap option"
  OwnerReferences :: "OwnerReference list"

definition empty_meta :: ObjectMeta where
  "empty_meta = \<lparr>Name = [], GenerateName = [], Namespace = [], UID = [],
     Labels = None, OwnerReferences = []\<rparr>"

subsection \<open>Fencing requests\<close>

datatype FencingResult =
    RequestFailedNoConfig
  | RequestFailed
  | MethodFailed
  | MethodComplete
  | MethodProgress

fun result_text :: "FencingResult \<Rightarrow> string" where
  "result_text RequestFailedNoConfig = ''NoConfig''"
| "result_text RequestFailed = ''GivingUp''"
| "result_text MethodFailed = ''MethodFailed''"
| "result_text MethodComplete = ''Complete''"
| "result_text MethodProgress = ''MethodInProgress''"

record FencingRequestSpec =
  Target :: string
  Origin :: string
  Operation :: string
  PodList :: "string list"
  ValidAfter :: "64 word"

record FencingRequestStatusUpdate =
  Timestamp :: string
  Method :: string
  Message :: string
  Output :: string
  Error :: string

record FencingRequestStatus =
  Complete :: bool
  Result :: string
  Config :: "string option"
  ActiveMethod :: "string option"
  ActiveJob :: "string option"
  Updates :: "FencingRequestStatusUpdate list"

record FencingRequest =
  fr_TypeMeta :: TypeMeta
  fr_ObjectMeta :: ObjectMeta
  Spec :: FencingRequestSpec
  Status :: FencingRequestStatus

definition empty_status :: FencingRequestStatus where
  "empty_status = \<lparr>Complete = False, Result = [], Config = None, ActiveMethod = None,
     ActiveJob = None, Updates = []\<rparr>"

subsection \<open>Containers and volumes\<close>

record EnvVar =
  ev_Name :: string
  Value :: string

record VolumeMount =
  vm_Name :: string
  ReadOnly :: bool
  MountPath :: string

text \<open>The fields of \<open>v1.Container\<close> that the operator sets; it leaves the others zero.\<close>

record Container =
  c_Name :: string
  Image :: string
  Command :: "string list"
  Env :: "EnvVar list"
  VolumeMounts :: "VolumeMount list"

datatype VolumeSource = Secret string | PersistentVolumeClaim string | OtherSource

record Volume =
  v_Name :: string
  VolumeSource :: VolumeSource

subsection \<open>Fencing configurations\<close>

record FencingDynamicConfig =
  Field :: string
  Default :: string
  Values :: "strmap option"

record FencingMechanism =
  mech_Container :: "Container option"
  ArgumentFormat :: string
  PassTargetAs :: string
  TimeoutSeconds :: "32 word option"
  mech_Config :: "strmap option"
  DynamicConfig :: "FencingDynamicConfig list"
  Secrets :: "strmap option"

record FencingMethod =
  fm_Name :: string
  StopOnSuccess :: bool
  RequireAfterSeconds :: "32 word option"
  Retries :: "32 word"
  Mechanisms :: "FencingMechanism list"

record FencingConfig =
  cfg_ObjectMeta :: ObjectMeta
  NodeSelector :: "strmap option"
  Methods :: "FencingMethod list"

subsection \<open>Objects of the cluster\<close>

record NodeCondition =
  cond_Type :: string
  cond_Status :: string
  LastHeartbeatTime :: string
  LastTransitionTime :: string
  Reason :: string
  cond_Message :: string

text \<open>\<open>v1.Node\<close>; the two times of a condition are their printed form.\<close>

record Node =
  n_ObjectMeta :: ObjectMeta
  Conditions :: "NodeCondition list"

record Pod =
  p_ObjectMeta :: ObjectMeta
  NodeName :: string
  p_Volumes :: "Volume list"

record Job =
  j_TypeMeta :: TypeMeta
  j_ObjectMeta :: ObjectMeta
  BackoffLimit :: "32 word option"
  Containers :: "Container list"
  RestartPolicy :: string
  j_Volumes :: "Volume list"
  Active :: "32 word"
  Failed :: "32 word"
  Succeeded :: "32 word"

record Event =
  ev_Type :: string
  Component :: string
  Host :: string
  ev_Reason :: string

record ConfigMap =
  cm_Name :: string
  Data :: "strmap option"

end
