(* ===== verification/Mechanism.thy ===== *)
theory Mechanism
  imports Config Types
begin

section \<open>Fencing methods and mechanisms (pkg/apis/fencing/v1alpha1/mechanism.go)\<close>

text \<open>
  How a fencing configuration becomes the internal methods, mechanisms and containers, and
  how a mechanism is instantiated for a target node: the command line (\<open>argumentFormat: cli\<close>)
  or the environment (\<open>argumentFormat: env\<close>) of its container. A function that can
  dereference \<open>nil\<close> returns \<open>panic + _\<close>. The lemmas give the exact command and environment up
  to the order of the maps, and say when instantiation fails.
\<close>

definition quoted :: "string \<Rightarrow> string" where
  "quoted s = CHR 0x27 # s @ [CHR 0x27]"

text \<open>\<open>int32(x)\<close> of a 64-bit integer keeps the low 32 bits.\<close>

definition int32 :: "64 word \<Rightarrow> 32 word" where
  "int32 x = ucast x"

subsection \<open>From configuration to mechanisms\<close>

definition newDynamicAttributeFromConfig ::
    "chooser \<Rightarrow> Config \<Rightarrow> error option \<times> FencingDynamicConfig option" where
  "newDynamicAttributeFromConfig \<rho> cfg =
     (let (field, cfg1) = GetString (sub \<rho> 0) cfg ''field'';
          (default, cfg2) = GetString (sub \<rho> 1) cfg1 ''default'';
          (vals, cfg3) = GetMapOfStrings (sub \<rho> 2) cfg2 ''values''
      in (None, Some \<lparr>Field = field, Default = default, Values = vals\<rparr>))"

fun env_loop :: "chooser \<Rightarrow> nat \<Rightarrow> Config list \<Rightarrow> EnvVar list \<Rightarrow> EnvVar list" where
  "env_loop \<rho> i [] acc = acc"
| "env_loop \<rho> i (env # envs) acc =
     (let (name, env1) = GetString (sub (sub \<rho> i) 0) env ''name'';
          (v, env2) = GetString (sub (sub \<rho> i) 1) env1 ''value''
      in env_loop \<rho> (Suc i) envs (acc @ [\<lparr>ev_Name = name, Value = v\<rparr>]))"

text \<open>
  The source tests an identifier \<open>subcfg\<close> that it does not declare; the test is read as the
  check of the argument against \<open>nil\<close> that its error message speaks of.
\<close>

definition newContainerFromConfig ::
    "chooser \<Rightarrow> Config option \<Rightarrow> error option \<times> Container option" where
  "newContainerFromConfig \<rho> cfg_ptr =
     (case cfg_ptr of
        None \<Rightarrow> (Some (Errorf ''No container specified''), None)
      | Some cfg \<Rightarrow>
          (let (name, cfg1) = GetString (sub \<rho> 0) cfg ''name'';
               (image, cfg2) = GetString (sub \<rho> 1) cfg1 ''image'';
               c = \<lparr>c_Name = name, Image = image, Command = [], Env = [], VolumeMounts = []\<rparr>;
               (cmd, cfg3) = GetSliceOfStrings (sub \<rho> 2) cfg2 ''command'';
               c1 = (case cmd of None \<Rightarrow> c | Some xs \<Rightarrow> c\<lparr>Command := xs\<rparr>);
               (envs, cfg4) = GetSubConfigArray (sub \<rho> 3) cfg3 ''env''
           in (None, Some (c1\<lparr>Env := env_loop (sub \<rho> 4) 0 envs (Env c1)\<rparr>))))"

fun dynamic_loop :: "chooser \<Rightarrow> nat \<Rightarrow> Config list \<Rightarrow> FencingDynamicConfig list \<Rightarrow>
    error option \<times> FencingDynamicConfig list" where
  "dynamic_loop \<rho> i [] dcs = (None, dcs)"
| "dynamic_loop \<rho> i (subcfg # subcfgs) dcs =
     (case newDynamicAttributeFromConfig (sub \<rho> i) subcfg of
        (None, Some d) \<Rightarrow> dynamic_loop \<rho> (Suc i) subcfgs (dcs @ [d])
      | (err, _) \<Rightarrow> (err, dcs))"

definition newFencingMechanismFromConfig ::
    "chooser \<Rightarrow> Config \<Rightarrow> error option \<times> FencingMechanism option" where
  "newFencingMechanismFromConfig \<rho> cfg =
     (let (n, cfg1) = GetInt (sub \<rho> 0) cfg ''timeoutSeconds'';
          seconds = int32 n;
          (subcfgs, cfg2) = GetSubConfigArray (sub \<rho> 1) cfg1 ''dynamicConfig'';
          (err, dcs) = dynamic_loop (sub \<rho> 2) 0 subcfgs []
      in if err \<noteq> None then (err, None)
         else
          (let (ccfg, cfg3) = GetSubConfig (sub \<rho> 3) cfg2 ''container'';
               (err, container) = newContainerFromConfig (sub \<rho> 4) (Some ccfg)
           in if err \<noteq> None
              then (Some (Errorf (''Bad mechanism: '' @ fmt_err err)), None)
              else
               (let (pass, cfg4) = GetString (sub \<rho> 5) cfg3 ''passTargetAs'';
                    (fmt, cfg5) = GetString (sub \<rho> 6) cfg4 ''argumentFormat'';
                    (conf, cfg6) = GetMapOfStrings (sub \<rho> 7) cfg5 ''config'';
                    (secrets, cfg7) = GetMapOfStrings (sub \<rho> 8) cfg6 ''secrets''
                in (None, Some
                     \<lparr>mech_Container = container, ArgumentFormat = fmt, PassTargetAs = pass,
                      TimeoutSeconds = Some seconds, mech_Config = conf,
                      DynamicConfig = dcs, Secrets = secrets\<rparr>))))"

fun mechanism_loop :: "chooser \<Rightarrow> nat \<Rightarrow> Config list \<Rightarrow> FencingMechanism list \<Rightarrow>
    error option \<times> FencingMechanism list" where
  "mechanism_loop \<rho> i [] mechanisms = (None, mechanisms)"
| "mechanism_loop \<rho> i (subcfg # subcfgs) mechanisms =
     (case newFencingMechanismFromConfig (sub \<rho> i) subcfg of
        (None, Some m) \<Rightarrow> mechanism_loop \<rho> (Suc i) subcfgs (mechanisms @ [m])
      | (err, _) \<Rightarrow> (err, mechanisms))"

definition NewFencingMethodFromConfig ::
    "chooser \<Rightarrow> Config \<Rightarrow> error option \<times> FencingMethod option" where
  "NewFencingMethodFromConfig \<rho> cfg =
     (let (n, cfg1) = GetInt (sub \<rho> 0) cfg ''requireAfterSeconds'';
          seconds = int32 n;
          (subcfgs, cfg2) = GetSubConfigArray (sub \<rho> 1) cfg1 ''mechanisms'';
          (err, mechanisms) = mechanism_loop (sub \<rho> 2) 0 subcfgs [];
          (name, cfg3) = GetString (sub \<rho> 3) cfg2 ''name''
      in if err \<noteq> None
         then (Some (Errorf (''Bad method '' @ quoted name @ '': '' @ fmt_err err)), None)
         else
          (let (stop, cfg4) = GetBoolWithDefault (sub \<rho> 4) cfg3 ''stopOnSuccess'' True
           in (None, Some
                \<lparr>fm_Name = name, StopOnSuccess = stop, RequireAfterSeconds = Some seconds,
                 Retries = 1, Mechanisms = mechanisms\<rparr>)))"

subsection \<open>Instantiating a mechanism for a target\<close>

definition Lookup :: "FencingDynamicConfig \<Rightarrow> string \<Rightarrow> string \<times> bool" where
  "Lookup dc key =
     (case map_of (entries (Values dc)) key of
        Some val \<Rightarrow> (val, True)
      | None \<Rightarrow> if 0 < length (Default dc) then (Default dc, True) else ([], False))"

definition no_value :: "FencingDynamicConfig \<Rightarrow> string \<Rightarrow> error" where
  "no_value dc target =
     Errorf (''No value of '' @ quoted (Field dc) @ '' found for '' @ quoted target)"

definition bad_format :: "string \<Rightarrow> error" where
  "bad_format fmt = Errorf (''ArgumentFormat '' @ fmt @ '' not supported'')"

fun config_args :: "(string \<times> string) list \<Rightarrow> string list \<Rightarrow> string list" where
  "config_args [] command = command"
| "config_args ((name, v) # kvs) command =
     (let command1 = command @ [''--'' @ name]; command2 = command1 @ [v]
      in config_args kvs command2)"

fun dynamic_args :: "string \<Rightarrow> FencingDynamicConfig list \<Rightarrow> string list \<Rightarrow>
    error option \<times> string list" where
  "dynamic_args target [] command = (None, command)"
| "dynamic_args target (dc # dcs) command =
     (let command1 = command @ [''--'' @ Field dc]; (v, ok) = Lookup dc target
      in if ok then dynamic_args target dcs (command1 @ [v])
         else (Some (no_value dc target), []))"

definition getContainerCommand ::
    "chooser \<Rightarrow> FencingMechanism \<Rightarrow> string \<Rightarrow> panic + (error option \<times> string list)" where
  "getContainerCommand \<rho> m target =
     (if ArgumentFormat m = ''env'' then
        (case mech_Container m of None \<Rightarrow> Inl NilDeref | Some c \<Rightarrow> Inr (None, Command c))
      else if ArgumentFormat m = ''cli'' then
        (case mech_Container m of
           None \<Rightarrow> Inl NilDeref
         | Some c \<Rightarrow>
             (let command = config_args (range_over \<rho> (entries (mech_Config m))) (Command c);
                  (err, command1) = dynamic_args target (DynamicConfig m) command
              in if err \<noteq> None then Inr (err, [])
                 else
                  (let command2 =
                         (if 0 < length (PassTargetAs m)
                          then command1 @ [''--'' @ PassTargetAs m] else command1)
                   in Inr (None, command2 @ [target]))))
      else Inr (Some (bad_format (ArgumentFormat m)), []))"

fun secret_env :: "string \<Rightarrow> (string \<times> string) list \<Rightarrow> EnvVar list \<Rightarrow> EnvVar list" where
  "secret_env dir [] env = env"
| "secret_env dir ((name, v) # kvs) env =
     secret_env dir kvs
       (env @ [\<lparr>ev_Name = ''SECRETPATH_'' @ name, Value = dir @ ''/'' @ v\<rparr>])"

fun config_env :: "(string \<times> string) list \<Rightarrow> EnvVar list \<Rightarrow> EnvVar list" where
  "config_env [] env = env"
| "config_env ((name, v) # kvs) env = config_env kvs (env @ [\<lparr>ev_Name = name, Value = v\<rparr>])"

fun dynamic_env :: "string \<Rightarrow> FencingDynamicConfig list \<Rightarrow> EnvVar list \<Rightarrow>
    error option \<times> EnvVar list" where
  "dynamic_env target [] env = (None, env)"
| "dynamic_env target (dc # dcs) env =
     (let (v, ok) = Lookup dc target
      in if ok then dynamic_env target dcs (env @ [\<lparr>ev_Name = Field dc, Value = v\<rparr>])
         else (Some (no_value dc target), []))"

definition getContainerEnv ::
    "chooser \<Rightarrow> FencingMechanism \<Rightarrow> string \<Rightarrow> string \<Rightarrow>
     panic + (error option \<times> EnvVar list)" where
  "getContainerEnv \<rho> m target dir =
     (let env = [\<lparr>ev_Name = ''SECRET_FORMAT'', Value = ArgumentFormat m\<rparr>] in
      case mech_Container m of
        None \<Rightarrow> Inl NilDeref
      | Some c \<Rightarrow>
          (let env1 = env @ Env c;
               env2 = secret_env dir (range_over (sub \<rho> 0) (entries (Secrets m))) env1
           in if ArgumentFormat m = ''cli'' then Inr (None, env2)
              else if ArgumentFormat m = ''env'' then
                (let env3 = config_env (range_over (sub \<rho> 1) (entries (mech_Config m))) env2;
                     (err, env4) = dynamic_env target (DynamicConfig m) env3
                 in if err \<noteq> None then Inr (err, [])
                    else Inr (None,
                      if 0 < length (PassTargetAs m)
                      then env4 @ [\<lparr>ev_Name = PassTargetAs m, Value = target\<rparr>] else env4))
              else Inr (Some (bad_format (ArgumentFormat m)), env2)))"

text \<open>\<open>DeepCopy\<close> of a \<open>nil\<close> container is \<open>nil\<close>; a copy of a value is the value.\<close>

definition CreateContainer ::
    "chooser \<Rightarrow> FencingMechanism \<Rightarrow> string \<Rightarrow> string \<Rightarrow>
     panic + (error option \<times> Container option)" where
  "CreateContainer \<rho> m target dir =
     (let container = mech_Container m in
      case getContainerCommand (sub \<rho> 0) m target of
        Inl p \<Rightarrow> Inl p
      | Inr (Some err, _) \<Rightarrow> Inr (Some err, None)
      | Inr (None, cmd) \<Rightarrow>
          (case container of
             None \<Rightarrow> Inl NilDeref
           | Some c \<Rightarrow>
               (let c1 = (if 0 < length cmd then c\<lparr>Command := cmd\<rparr> else c) in
                case getContainerEnv (sub \<rho> 1) m target dir of
                  Inl p \<Rightarrow> Inl p
                | Inr (Some err, _) \<Rightarrow> Inr (Some err, None)
                | Inr (None, env) \<Rightarrow> Inr (None, Some (c1\<lparr>Env := env\<rparr>)))))"

subsection \<open>The two renderings of the parameters\<close>

text \<open>
  The loops over the dynamic parameters, one appending command line arguments and one
  environment variables, share a contract: each parameter's value is looked up for the
  target and appended as \<open>emit\<close> renders it, and the first one without a value ends the loop
  with an error.
\<close>

definition first_missing :: "string \<Rightarrow> FencingDynamicConfig list \<Rightarrow> FencingDynamicConfig option" where
  "first_missing target dcs = find (\<lambda>dc. \<not> snd (Lookup dc target)) dcs"

locale dynamic_renderer =
  fixes loop :: "string \<Rightarrow> FencingDynamicConfig list \<Rightarrow> 'e list \<Rightarrow> error option \<times> 'e list"
    and emit :: "FencingDynamicConfig \<Rightarrow> string \<Rightarrow> 'e list"
  assumes loop_Nil: "loop target [] acc = (None, acc)"
    and loop_Cons: "loop target (dc # dcs) acc =
      (if snd (Lookup dc target) then loop target dcs (acc @ emit dc (fst (Lookup dc target)))
       else (Some (no_value dc target), []))"
begin

lemma loop_eq:
  "loop target dcs acc =
     (case first_missing target dcs of
        None \<Rightarrow> (None, acc @ concat (map (\<lambda>dc. emit dc (fst (Lookup dc target))) dcs))
      | Some dc \<Rightarrow> (Some (no_value dc target), []))"
  by (induction dcs arbitrary: acc) (simp_all add: first_missing_def loop_Nil loop_Cons split: option.split)

end

interpretation args: dynamic_renderer dynamic_args "\<lambda>dc v. [''--'' @ Field dc, v]"
  by unfold_locales (simp_all add: Let_def split_beta)

interpretation envs: dynamic_renderer dynamic_env "\<lambda>dc v. [\<lparr>ev_Name = Field dc, Value = v\<rparr>]"
  by unfold_locales (simp_all add: split_beta)

lemma first_missing_None:
  "first_missing target dcs = None \<longleftrightarrow> (\<forall>dc \<in> set dcs. snd (Lookup dc target))"
  by (auto simp: first_missing_def find_None_iff)

lemma Lookup_ok_iff:
  "snd (Lookup dc target) \<longleftrightarrow>
   \<not> (map_of (entries (Values dc)) target = None \<and> Default dc = [])"
  by (auto simp: Lookup_def split: option.splits)

lemma first_missing_Some_iff:
  "first_missing target dcs \<noteq> None \<longleftrightarrow>
   (\<exists>dc \<in> set dcs. map_of (entries (Values dc)) target = None \<and> Default dc = [])"
  using first_missing_None [of target dcs] by (simp add: Lookup_ok_iff)

lemma wrapped_eq_iff: "0 < m \<Longrightarrow> (n + k) mod m - k = n \<longleftrightarrow> 0 \<le> n + k \<and> n + k < m" for n :: int
  by (metis add_diff_cancel_right' diff_add_cancel mod_pos_pos_trivial pos_mod_bound pos_mod_sign)

lemma sint_int32: "sint (int32 w) = (sint w + 2 ^ 31) mod 2 ^ 32 - 2 ^ 31"
proof -
  have "sint (int32 w) = signed_take_bit 31 (take_bit 64 (sint w))"
    by (simp add: int32_def signed_ucast_eq uint_sint)
  also have "\<dots> = signed_take_bit 31 (sint w)" by (simp add: signed_take_bit_take_bit)
  finally show ?thesis by (simp add: signed_take_bit_eq_take_bit_shift take_bit_eq_mod)
qed

lemma config_args_eq:
  "config_args kvs command = command @ concat (map (\<lambda>(n, v). [''--'' @ n, v]) kvs)"
  by (induction kvs command rule: config_args.induct) simp_all

lemma secret_env_eq:
  "secret_env dir kvs env =
   env @ map (\<lambda>(n, v). \<lparr>ev_Name = ''SECRETPATH_'' @ n, Value = dir @ ''/'' @ v\<rparr>) kvs"
  by (induction dir kvs env rule: secret_env.induct) simp_all

lemma config_env_eq:
  "config_env kvs env = env @ map (\<lambda>(n, v). \<lparr>ev_Name = n, Value = v\<rparr>) kvs"
  by (induction kvs env rule: config_env.induct) simp_all

text \<open>The environment of a successful instantiation: everything behind the secrets.\<close>

definition env_tail :: "chooser \<Rightarrow> FencingMechanism \<Rightarrow> string \<Rightarrow> EnvVar list" where
  "env_tail \<rho> m target =
     (if ArgumentFormat m = ''cli'' then [] else
        map (\<lambda>(n, v). \<lparr>ev_Name = n, Value = v\<rparr>) (range_over (sub \<rho> 1) (entries (mech_Config m))) @
        map (\<lambda>dc. \<lparr>ev_Name = Field dc, Value = fst (Lookup dc target)\<rparr>) (DynamicConfig m) @
        (if PassTargetAs m = [] then [] else [\<lparr>ev_Name = PassTargetAs m, Value = target\<rparr>]))"

lemma getContainerEnv_shape:
  "getContainerEnv \<rho> m target dir = Inr (None, env) \<Longrightarrow> mech_Container m = Some c \<Longrightarrow>
   env = \<lparr>ev_Name = ''SECRET_FORMAT'', Value = ArgumentFormat m\<rparr> # Env c @
     map (\<lambda>(n, v). \<lparr>ev_Name = ''SECRETPATH_'' @ n, Value = dir @ ''/'' @ v\<rparr>)
       (range_over (sub \<rho> 0) (entries (Secrets m))) @ env_tail \<rho> m target"
  by (auto simp: getContainerEnv_def env_tail_def Let_def secret_env_eq config_env_eq
      envs.loop_eq map_concat comp_def split: if_splits option.splits)

lemma CreateContainer_ok:
  "CreateContainer \<rho> m target dir = Inr (None, Some c') \<Longrightarrow>
   \<exists>c env. mech_Container m = Some c \<and> Env c' = env \<and>
     getContainerEnv (sub \<rho> 1) m target dir = Inr (None, env)"
  by (auto simp: CreateContainer_def split: sum.splits prod.splits option.splits)

subsection \<open>Building methods\<close>

text \<open>The attribute, mechanism and method of a configuration, free of iteration order.\<close>

definition dynamic_of :: "gmap \<Rightarrow> FencingDynamicConfig" where
  "dynamic_of m = \<lparr>Field = string_at m ''field'', Default = string_at m ''default'',
     Values = strmap_at m ''values''\<rparr>"

definition container_of :: "gmap \<Rightarrow> Container" where
  "container_of m =
     \<lparr>c_Name = string_at m ''name'', Image = string_at m ''image'',
      Command = (case strings_at m ''command'' of None \<Rightarrow> [] | Some xs \<Rightarrow> xs),
      Env = map (\<lambda>e. \<lparr>ev_Name = string_at (config e) ''name'',
                      Value = string_at (config e) ''value''\<rparr>) (subs_at m ''env''),
      VolumeMounts = []\<rparr>"

definition mechanism_of :: "gmap \<Rightarrow> FencingMechanism" where
  "mechanism_of m =
     \<lparr>mech_Container = Some (container_of (config (sub_at m ''container''))),
      ArgumentFormat = string_at m ''argumentFormat'',
      PassTargetAs = string_at m ''passTargetAs'',
      TimeoutSeconds = Some (int32 (int_at m ''timeoutSeconds'')),
      mech_Config = strmap_at m ''config'',
      DynamicConfig = map (\<lambda>d. dynamic_of (config d)) (subs_at m ''dynamicConfig''),
      Secrets = strmap_at m ''secrets''\<rparr>"

definition method_of :: "gmap \<Rightarrow> FencingMethod" where
  "method_of m =
     \<lparr>fm_Name = string_at m ''name'', StopOnSuccess = bool_at True m ''stopOnSuccess'',
      RequireAfterSeconds = Some (int32 (int_at m ''requireAfterSeconds'')), Retries = 1,
      Mechanisms = map (\<lambda>d. mechanism_of (config d)) (subs_at m ''mechanisms'')\<rparr>"

lemmas getter_eqs = get_string.get_eq get_strings.get_eq get_int.get_eq get_sub.get_eq
  get_bool_default.get_eq GetSubConfigArray_eq GetMapOfStrings_eq

lemma newDynamicAttribute_eq:
  "gmap_ok (config cfg) \<Longrightarrow>
   newDynamicAttributeFromConfig \<rho> cfg = (None, Some (dynamic_of (config cfg)))"
  by (simp add: newDynamicAttributeFromConfig_def getter_eqs dynamic_of_def)

lemma dynamic_loop_eq:
  "\<forall>d \<in> set subcfgs. gmap_ok (config d) \<Longrightarrow>
   dynamic_loop \<rho> i subcfgs dcs = (None, dcs @ map (\<lambda>d. dynamic_of (config d)) subcfgs)"
  by (induction \<rho> i subcfgs dcs rule: dynamic_loop.induct)
    (simp_all add: newDynamicAttribute_eq)

lemma env_loop_eq:
  "\<forall>e \<in> set envs. gmap_ok (config e) \<Longrightarrow>
   env_loop \<rho> i envs acc = acc @ map (\<lambda>e. \<lparr>ev_Name = string_at (config e) ''name'',
     Value = string_at (config e) ''value''\<rparr>) envs"
  by (induction \<rho> i envs acc rule: env_loop.induct) (simp_all add: getter_eqs)

lemma newContainer_eq:
  assumes "gmap_ok (config cfg)"
  shows "newContainerFromConfig \<rho> (Some cfg) = (None, Some (container_of (config cfg)))"
  using assms subs_at_ok [OF assms]
  by (auto simp: newContainerFromConfig_def getter_eqs container_of_def env_loop_eq
      split: option.splits)

lemma newMechanism_eq:
  assumes "gmap_ok (config cfg)"
  shows "newFencingMechanismFromConfig \<rho> cfg = (None, Some (mechanism_of (config cfg)))"
  using assms subs_at_ok [OF assms] sub_at_ok [OF assms]
  by (simp add: newFencingMechanismFromConfig_def getter_eqs dynamic_loop_eq newContainer_eq
      mechanism_of_def)

lemma mechanism_loop_eq:
  "\<forall>d \<in> set subcfgs. gmap_ok (config d) \<Longrightarrow>
   mechanism_loop \<rho> i subcfgs ms = (None, ms @ map (\<lambda>d. mechanism_of (config d)) subcfgs)"
  by (induction \<rho> i subcfgs ms rule: mechanism_loop.induct) (simp_all add: newMechanism_eq)

lemma NewFencingMethod_eq:
  assumes "gmap_ok (config cfg)"
  shows "NewFencingMethodFromConfig \<rho> cfg = (None, Some (method_of (config cfg)))"
  using assms subs_at_ok [OF assms]
  by (simp add: NewFencingMethodFromConfig_def getter_eqs mechanism_loop_eq method_of_def)

subsection \<open>Properties\<close>

text \<open>The arguments of the parameters in \<open>es\<close> and of the dynamic parameters.\<close>

definition cli_args :: "(string \<times> string) list \<Rightarrow> string list" where
  "cli_args es = concat (map (\<lambda>(n, v). [''--'' @ n, v]) es)"

definition dynamic_cli :: "FencingMechanism \<Rightarrow> string \<Rightarrow> string list" where
  "dynamic_cli m target =
     concat (map (\<lambda>dc. [''--'' @ Field dc, fst (Lookup dc target)]) (DynamicConfig m))"

definition target_cli :: "FencingMechanism \<Rightarrow> string \<Rightarrow> string list" where
  "target_cli m target =
     (if PassTargetAs m = [] then [target] else [''--'' @ PassTargetAs m, target])"

text \<open>In \<open>cli\<close> format the command is the container's own command, then one flag and value
  per static parameter in some order of the map, one per dynamic parameter in the given order
  with its value for the target, and last the target, behind its flag if one is named.\<close>

theorem getContainerCommand_cli:
  assumes "ArgumentFormat m = ''cli''" and "mech_Container m = Some c"
    and "\<forall>dc \<in> set (DynamicConfig m). snd (Lookup dc target)"
  shows "\<exists>es. mset es = mset (entries (mech_Config m)) \<and>
    getContainerCommand \<rho> m target =
      Inr (None, Command c @ cli_args es @ dynamic_cli m target @ target_cli m target)"
proof (intro exI conjI)
  show "getContainerCommand \<rho> m target = Inr (None, Command c @
      cli_args (range_over \<rho> (entries (mech_Config m))) @ dynamic_cli m target @
      target_cli m target)"
    using assms
    by (simp add: getContainerCommand_def args.loop_eq config_args_eq cli_args_def
        dynamic_cli_def target_cli_def first_missing_None [THEN iffD2])
qed simp

definition sample_dynamic :: FencingDynamicConfig where
  "sample_dynamic = \<lparr>Field = ''ip'', Default = [], Values = Some [(''somehost'', ''1.2.3.4'')]\<rparr>"

definition sample_mechanism :: "string \<Rightarrow> FencingMechanism" where
  "sample_mechanism fmt =
     \<lparr>mech_Container = Some \<lparr>c_Name = ''baremetal'', Image = ''agents'',
        Command = [''/sbin/fence_ipmilan''], Env = [], VolumeMounts = []\<rparr>,
      ArgumentFormat = fmt, PassTargetAs = ''port'', TimeoutSeconds = Some 0,
      mech_Config = Some [(''user'', ''admin'')], DynamicConfig = [sample_dynamic],
      Secrets = Some [(''password'', ''ipmi-secret'')]\<rparr>"

theorem getContainerCommand_cli_witness:
  "getContainerCommand in_order (sample_mechanism ''cli'') ''somehost'' =
     Inr (None, [''/sbin/fence_ipmilan'', ''--user'', ''admin'', ''--ip'', ''1.2.3.4'',
       ''--port'', ''somehost''])"
proof -
  have "\<exists>es. mset es = mset (entries (mech_Config (sample_mechanism ''cli''))) \<and>
      getContainerCommand in_order (sample_mechanism ''cli'') ''somehost'' =
        Inr (None, [''/sbin/fence_ipmilan''] @ cli_args es @
          dynamic_cli (sample_mechanism ''cli'') ''somehost'' @
          target_cli (sample_mechanism ''cli'') ''somehost'')"
    using getContainerCommand_cli [of "sample_mechanism ''cli''"
        "the (mech_Container (sample_mechanism ''cli''))" "''somehost''" in_order]
    by (simp add: sample_mechanism_def sample_dynamic_def Lookup_def)
  then show ?thesis
    by (auto simp: sample_mechanism_def sample_dynamic_def Lookup_def cli_args_def
        dynamic_cli_def target_cli_def)
qed

text \<open>On success the environment of the container starts with \<open>SECRET_FORMAT\<close> and the
  container's own variables and then names the path of every secret; in \<open>env\<close> format the
  static and dynamic parameters and the target follow, in \<open>cli\<close> format nothing does.\<close>

theorem CreateContainer_env:
  assumes "CreateContainer \<rho> m target dir = Inr (None, Some c')" and "mech_Container m = Some c"
  shows "\<exists>ss es. mset ss = mset (entries (Secrets m)) \<and> mset es = mset (entries (mech_Config m)) \<and>
    Env c' = \<lparr>ev_Name = ''SECRET_FORMAT'', Value = ArgumentFormat m\<rparr> # Env c @
      map (\<lambda>(n, v). \<lparr>ev_Name = ''SECRETPATH_'' @ n, Value = dir @ ''/'' @ v\<rparr>) ss @
      (if ArgumentFormat m = ''cli'' then [] else
         map (\<lambda>(n, v). \<lparr>ev_Name = n, Value = v\<rparr>) es @
         map (\<lambda>dc. \<lparr>ev_Name = Field dc, Value = fst (Lookup dc target)\<rparr>) (DynamicConfig m) @
         (if PassTargetAs m = [] then [] else [\<lparr>ev_Name = PassTargetAs m, Value = target\<rparr>]))"
proof -
  have env: "getContainerEnv (sub \<rho> 1) m target dir = Inr (None, Env c')"
    using CreateContainer_ok [OF assms(1)] by auto
  show ?thesis
    by (rule exI [of _ "range_over (sub (sub \<rho> 1) 0) (entries (Secrets m))"],
        rule exI [of _ "range_over (sub (sub \<rho> 1) 1) (entries (mech_Config m))"])
      (simp add: getContainerEnv_shape [OF env assms(2)] env_tail_def)
qed

theorem CreateContainer_env_witness:
  "\<exists>c'. CreateContainer in_order (sample_mechanism ''env'') ''somehost'' ''/s'' =
      Inr (None, Some c') \<and>
    Env c' = [\<lparr>ev_Name = ''SECRET_FORMAT'', Value = ''env''\<rparr>,
      \<lparr>ev_Name = ''SECRETPATH_password'', Value = ''/s/ipmi-secret''\<rparr>,
      \<lparr>ev_Name = ''user'', Value = ''admin''\<rparr>, \<lparr>ev_Name = ''ip'', Value = ''1.2.3.4''\<rparr>,
      \<lparr>ev_Name = ''port'', Value = ''somehost''\<rparr>]"
proof -
  let ?m = "sample_mechanism ''env''"
  obtain c' where c': "CreateContainer in_order ?m ''somehost'' ''/s'' = Inr (None, Some c')"
    by (simp add: CreateContainer_def getContainerCommand_def getContainerEnv_def
        sample_mechanism_def sample_dynamic_def Lookup_def)
  have "mech_Container ?m = Some (the (mech_Container ?m))" by (simp add: sample_mechanism_def)
  from CreateContainer_env [OF c' this] c' show ?thesis
    by (auto simp: sample_mechanism_def sample_dynamic_def Lookup_def)
qed

text \<open>A mechanism with a container never crashes its instantiation, which fails exactly
  when the format is neither \<open>cli\<close> nor \<open>env\<close> or some dynamic parameter has neither a value
  for the target nor a default.\<close>

theorem CreateContainer_fails_iff:
  assumes "mech_Container m = Some c"
  shows "(\<forall>p. CreateContainer \<rho> m target dir \<noteq> Inl p) \<and>
    ((\<exists>e r. CreateContainer \<rho> m target dir = Inr (Some e, r)) \<longleftrightarrow>
     (ArgumentFormat m \<noteq> ''cli'' \<and> ArgumentFormat m \<noteq> ''env'') \<or>
     (\<exists>dc \<in> set (DynamicConfig m). map_of (entries (Values dc)) target = None \<and> Default dc = []))"
proof -
  show ?thesis
    using assms first_missing_Some_iff [of target "DynamicConfig m"]
    by (auto simp: CreateContainer_def getContainerCommand_def getContainerEnv_def Let_def
        args.loop_eq envs.loop_eq split: option.splits)
qed

theorem CreateContainer_fails_iff_witness:
  "(\<exists>e r. CreateContainer in_order (sample_mechanism ''cli'') ''otherhost'' ''/s'' = Inr (Some e, r)) \<and>
   \<not> (\<exists>e r. CreateContainer in_order (sample_mechanism ''cli'') ''somehost'' ''/s'' = Inr (Some e, r))"
  using CreateContainer_fails_iff [of "sample_mechanism ''cli''"
      "the (mech_Container (sample_mechanism ''cli''))" in_order _ "''/s''"]
  by (auto simp: sample_mechanism_def sample_dynamic_def)

text \<open>Reading a method from a configuration never fails: every element of \<open>mechanisms\<close>
  becomes a mechanism, one without a \<open>container\<close> entry too, which gets a container with no
  name and no image; retries is always 1 and \<open>stopOnSuccess\<close> defaults to true.\<close>

theorem NewFencingMethodFromConfig_total:
  assumes "gmap_ok (config cfg)"
  shows "\<exists>fm. NewFencingMethodFromConfig \<rho> cfg = (None, Some fm) \<and>
    fm_Name fm = string_at (config cfg) ''name'' \<and> Retries fm = 1 \<and>
    StopOnSuccess fm = bool_at True (config cfg) ''stopOnSuccess'' \<and>
    length (Mechanisms fm) = length (subs_at (config cfg) ''mechanisms'') \<and>
    (\<forall>i < length (Mechanisms fm). \<exists>c. mech_Container (Mechanisms fm ! i) = Some c \<and>
       (map_of (config (subs_at (config cfg) ''mechanisms'' ! i)) ''container'' = None \<longrightarrow>
          c_Name c = [] \<and> Image c = [] \<and> Command c = [] \<and> Env c = []))"
proof -
  have empty: "container_of (config (sub_at m ''container'')) =
      \<lparr>c_Name = [], Image = [], Command = [], Env = [], VolumeMounts = []\<rparr>"
    if "map_of m ''container'' = None" for m
    using that by (simp add: container_of_def value_at_defs value_at_def m_index_def)
  show ?thesis
    using NewFencingMethod_eq [OF assms, of \<rho>] by (simp add: method_of_def mechanism_of_def empty)
qed

theorem NewFencingMethodFromConfig_total_witness:
  "\<exists>fm. NewFencingMethodFromConfig in_order
      (NewConfigFromMap [(''mechanisms'', GSlice [GMapS []]), (''name'', GStr ''echo'')]) =
        (None, Some fm) \<and> fm_Name fm = ''echo'' \<and> length (Mechanisms fm) = 1"
  using NewFencingMethodFromConfig_total [of
      "NewConfigFromMap [(''mechanisms'', GSlice [GMapS []]), (''name'', GStr ''echo'')]" in_order]
  by (auto simp: gmap_ok_def m_ok_def string_at_def subs_at_def value_at_def m_index_def)

text \<open>The seconds of a method are the configured integer wrapped to 32 bits: they are
  that integer exactly when it fits.\<close>

theorem requireAfterSeconds_wraps:
  assumes "gmap_ok (config cfg)" and "NewFencingMethodFromConfig \<rho> cfg = (None, Some fm)"
  shows "\<exists>s. RequireAfterSeconds fm = Some s \<and>
    (let n = sint (fst (GetInt \<rho> cfg ''requireAfterSeconds''))
     in sint s = (n + 2 ^ 31) mod 2 ^ 32 - 2 ^ 31 \<and>
        (sint s = n \<longleftrightarrow> - (2 ^ 31) \<le> n \<and> n < 2 ^ 31))"
proof -
  let ?w = "int_at (config cfg) ''requireAfterSeconds''"
  have fm: "RequireAfterSeconds fm = Some (int32 ?w)"
    using assms by (auto simp: NewFencingMethod_eq method_of_def)
  have "(n + 2 ^ 31) mod 2 ^ 32 - 2 ^ 31 = n \<longleftrightarrow> - (2 ^ 31) \<le> n \<and> n < 2 ^ 31" for n :: int
    using wrapped_eq_iff [of "2 ^ 32" n "2 ^ 31"] by auto
  then show ?thesis
    using fm assms(1) by (simp add: get_int.result Let_def sint_int32)
qed

theorem requireAfterSeconds_wraps_witness:
  "\<exists>fm s. NewFencingMethodFromConfig in_order
      (NewConfigFromMap [(''requireAfterSeconds'', GInt 4294967296)]) = (None, Some fm) \<and>
    RequireAfterSeconds fm = Some s \<and> sint s = 0"
proof -
  let ?cfg = "NewConfigFromMap [(''requireAfterSeconds'', GInt 4294967296)]"
  have ok: "gmap_ok (config ?cfg)" by (simp add: gmap_ok_def m_ok_def)
  then obtain fm where fm: "NewFencingMethodFromConfig in_order ?cfg = (None, Some fm)"
    by (simp add: NewFencingMethod_eq)
  from requireAfterSeconds_wraps [OF ok fm] fm ok show ?thesis
    by (auto simp: Let_def get_int.result int_at_def value_at_def m_index_def
        signed_take_bit_eq_take_bit_shift take_bit_eq_mod)
qed


end
