(* ===== verification/Backoff.thy ===== *)
theory Backoff
  imports Complex_Main Prelude
begin

section \<open>Retrying with exponential backoff\<close>

text \<open>
  \<open>wait.ExponentialBackoff\<close> of the vendored API machinery
  (\<open>vendor/k8s.io/apimachinery/pkg/util/wait/wait.go\<close>), the loop around every write of the
  operator. The state \<open>'s\<close> is whatever the condition function reads and changes.
\<close>

text \<open>
  \<open>wait.Backoff\<close>. Durations are nanoseconds; \<open>Factor\<close> and \<open>Jitter\<close> are the decimal values
  written in the source.
\<close>

record Backoff =
  Duration :: int
  Factor :: rat
  Jitter :: rat
  Steps :: int

text \<open>
  What the loop takes from the runtime: \<open>time.Sleep\<close>, the random jitter
  (\<open>wait.Jitter\<close>), and the float64 product \<open>time.Duration(float64(d) * f)\<close>.
\<close>

record 's clock =
  Sleep :: "int \<Rightarrow> 's \<Rightarrow> 's"
  jittered :: "int \<Rightarrow> rat \<Rightarrow> 's \<Rightarrow> int \<times> 's"
  scaled :: "int \<Rightarrow> rat \<Rightarrow> int"

definition ErrWaitTimeout :: error where
  "ErrWaitTimeout = Errorf ''timed out waiting for the condition''"

definition backoff_wait :: "'s clock \<Rightarrow> Backoff \<Rightarrow> nat \<Rightarrow> int \<Rightarrow> 's \<Rightarrow> int \<times> 's" where
  "backoff_wait clk b i duration s =
     (if i \<noteq> 0 then
        (let (adjusted, s') =
               (if Jitter b > 0 then jittered clk duration (Jitter b) s else (duration, s))
         in (scaled clk duration (Factor b), Sleep clk adjusted s'))
      else (duration, s))"

fun backoff_loop :: "'s clock \<Rightarrow> Backoff \<Rightarrow> ('s \<Rightarrow> (bool \<times> error option) \<times> 's) \<Rightarrow>
    nat \<Rightarrow> nat \<Rightarrow> int \<Rightarrow> 's \<Rightarrow> error option \<times> 's" where
  "backoff_loop clk b condition i 0 duration s = (Some ErrWaitTimeout, s)"
| "backoff_loop clk b condition i (Suc n) duration s =
     (let (duration', s1) = backoff_wait clk b i duration s;
          ((ok, err), s2) = condition s1
      in if err \<noteq> None \<or> ok then (err, s2)
         else backoff_loop clk b condition (Suc i) n duration' s2)"

definition ExponentialBackoff :: "'s clock \<Rightarrow> Backoff \<Rightarrow>
    ('s \<Rightarrow> (bool \<times> error option) \<times> 's) \<Rightarrow> 's \<Rightarrow> error option \<times> 's" where
  "ExponentialBackoff clk b condition s =
     backoff_loop clk b condition 0 (nat (Steps b)) (Duration b) s"

text \<open>
  The parameters every caller of the operator uses (\<open>defaultBackoff\<close> of \<open>k8sutil.go\<close> and the
  local \<open>backoff\<close> variables of \<open>request.go\<close>, \<open>fencing.go\<close> and \<open>handler.go\<close>).
\<close>

definition defaultBackoff :: Backoff where
  "defaultBackoff =
     \<lparr>Duration = 1000000000, Factor = 6 / 5, Jitter = 0, Steps = 5\<rparr>"

subsection \<open>What the loop keeps\<close>

lemma backoff_wait_first [simp]: "backoff_wait clk b 0 d s = (d, s)"
  by (simp add: backoff_wait_def)

lemma backoff_loop_invariant:
  assumes cond: "\<And>s. Q s \<Longrightarrow> Q (snd (condition s))"
    and sleep: "\<And>d s. Q s \<Longrightarrow> Q (Sleep clk d s)"
    and jit: "\<And>d j s. Q s \<Longrightarrow> Q (snd (jittered clk d j s))"
  shows "Q s \<Longrightarrow> Q (snd (backoff_loop clk b condition i n d s))"
proof (induction n arbitrary: i d s)
  case 0
  then show ?case by simp
next
  case (Suc n)
  have "Q (snd (backoff_wait clk b i d s))"
    using Suc.prems jit [of s d "Jitter b"] sleep
    by (auto simp: backoff_wait_def split_beta Let_def)
  then have "Q (snd (condition (snd (backoff_wait clk b i d s))))" by (rule cond)
  then show ?case using Suc.IH by (simp add: split_beta Let_def)
qed

text \<open>A loop that returns no error ends with a run of the condition that reported success.\<close>

lemma backoff_loop_None:
  "backoff_loop clk b condition i n d s = (None, t) \<Longrightarrow>
   \<exists>u. condition u = ((True, None), t)"
proof (induction n arbitrary: i d s)
  case (Suc n)
  obtain d' s1 where 1: "backoff_wait clk b i d s = (d', s1)" by (metis surj_pair)
  obtain ok err s2 where 2: "condition s1 = ((ok, err), s2)" by (metis surj_pair)
  show ?case
  proof (cases "err \<noteq> None \<or> ok")
    case True
    with Suc.prems 1 2 show ?thesis by (auto split: if_splits)
  next
    case False
    with Suc.prems have "backoff_loop clk b condition (Suc i) n d' s2 = (None, t)"
      by (simp add: 1 2)
    then show ?thesis by (rule Suc.IH)
  qed
qed simp

subsection \<open>Conditions that decide at once\<close>

text \<open>
  The contract of the closures that wrap a write to the API server: each run either reports
  success or returns an error, it never asks for another attempt.
\<close>

locale one_shot =
  fixes condition :: "'s \<Rightarrow> (bool \<times> error option) \<times> 's"
  assumes decides: "condition s = ((ok, err), t) \<Longrightarrow> ok \<or> err \<noteq> None"
begin

lemma backoff_runs_once:
  assumes "0 < Steps b"
  shows "ExponentialBackoff clk b condition s =
    (snd (fst (condition s)), snd (condition s))"
proof -
  obtain n where n: "nat (Steps b) = Suc n" using assms by (cases "nat (Steps b)") auto
  obtain ok err t where c: "condition s = ((ok, err), t)" by (metis surj_pair)
  with decides [OF c] show ?thesis by (auto simp: ExponentialBackoff_def n)
qed

end

end
