(* ===== verification/Cluster.thy ===== *)
theory Cluster
  imports Backoff Types
begin

section \<open>The cluster as the operator sees it\<close>

text \<open>
  The operator talks to the API server through the vendored operator SDK
  (\<open>query.Get\<close>, \<open>query.List\<close>, \<open>action.Create\<close>, \<open>action.Update\<close>, \<open>action.Delete\<close>). The
  server and the runtime (\<open>time.Now\<close>, \<open>time.Sleep\<close>, the log) are outside the repository: a
  value \<open>K\<close> of type \<open>'w api\<close>, with a world \<open>'w\<close> of any type, is an argument of every
  operation. Nothing is assumed about it: a reply may be any value or error and the world may
  change in between. Each call is also recorded in the ghost field \<open>calls\<close>, so that
  properties can speak of what the operator asked for.
\<close>

subsection \<open>The server's operations\<close>

text \<open>
  \<open>list_*\<close> take the namespace and the label or field selector. \<open>create_*\<close> and \<open>update_*\<close>
  return the object as the SDK leaves it: overwritten with the server's answer.
  \<open>slice_capacity n\<close> is the capacity that the runtime gives to the slice of a configured command
  of length \<open>n\<close>.
\<close>

record 'w api =
  list_nodes :: "string \<Rightarrow> string \<Rightarrow> 'w \<Rightarrow> (error option \<times> Node list) \<times> 'w"
  list_jobs :: "string \<Rightarrow> string \<Rightarrow> 'w \<Rightarrow> (error option \<times> Job list) \<times> 'w"
  list_pods :: "string \<Rightarrow> string \<Rightarrow> 'w \<Rightarrow> (error option \<times> Pod list) \<times> 'w"
  list_requests :: "string \<Rightarrow> string \<Rightarrow> 'w \<Rightarrow> (error option \<times> FencingRequest list) \<times> 'w"
  get_node :: "string \<Rightarrow> 'w \<Rightarrow> (error option \<times> Node) \<times> 'w"
  get_pvc :: "string \<Rightarrow> 'w \<Rightarrow> error option \<times> 'w"
  create_job :: "Job \<Rightarrow> 'w \<Rightarrow> (error option \<times> Job) \<times> 'w"
  create_request :: "FencingRequest \<Rightarrow> 'w \<Rightarrow> (error option \<times> FencingRequest) \<times> 'w"
  update_request :: "FencingRequest \<Rightarrow> 'w \<Rightarrow> (error option \<times> FencingRequest) \<times> 'w"
  delete_request :: "FencingRequest \<Rightarrow> 'w \<Rightarrow> error option \<times> 'w"
  time_now :: "'w \<Rightarrow> string \<times> 'w"
  time_sleep :: "int \<Rightarrow> 'w \<Rightarrow> 'w"
  backoff_jitter :: "int \<Rightarrow> rat \<Rightarrow> 'w \<Rightarrow> int \<times> 'w"
  float_scale :: "int \<Rightarrow> rat \<Rightarrow> int"
  slice_capacity :: "nat \<Rightarrow> nat"

datatype call =
    QueryNodes string
  | QueryJobs string string
  | QueryPods string
  | QueryRequests string
  | GetNode string
  | GetPVC string
  | CreateJob Job
  | CreateRequest FencingRequest
  | UpdateRequest FencingRequest
  | DeleteRequest FencingRequest
  | Slept int

subsection \<open>The state of the operator\<close>

text \<open>
  \<open>fencingConfigs\<close> is the package variable of \<open>pkg/stub/fencing.go\<close>: a map from the name of
  a ConfigMap to a \<open>*FencingConfig\<close> that may be \<open>nil\<close> (\<open>None\<close>).
\<close>

record 'w opstate =
  world :: 'w
  fencingConfigs :: "(string, FencingConfig option) gomap"
  calls :: "call list"

definition note_call :: "call \<Rightarrow> 'w opstate \<Rightarrow> 'w opstate" where
  "note_call c s = s\<lparr>calls := calls s @ [c]\<rparr>"

definition perform :: "call \<Rightarrow> ('w \<Rightarrow> 'a \<times> 'w) \<Rightarrow> 'w opstate \<Rightarrow> 'a \<times> 'w opstate" where
  "perform c f s = (let (r, w') = f (world s) in (r, note_call c (s\<lparr>world := w'\<rparr>)))"

definition all_namespaces :: string where
  "all_namespaces = ''--all-namespaces''"

definition query_List_nodes ::
    "'w api \<Rightarrow> string \<Rightarrow> 'w opstate \<Rightarrow> (error option \<times> Node list) \<times> 'w opstate" where
  "query_List_nodes K sel = perform (QueryNodes sel) (list_nodes K all_namespaces sel)"

definition query_List_jobs ::
    "'w api \<Rightarrow> string \<Rightarrow> string \<Rightarrow> 'w opstate \<Rightarrow> (error option \<times> Job list) \<times> 'w opstate" where
  "query_List_jobs K ns sel = perform (QueryJobs ns sel) (list_jobs K ns sel)"

definition query_List_pods ::
    "'w api \<Rightarrow> string \<Rightarrow> 'w opstate \<Rightarrow> (error option \<times> Pod list) \<times> 'w opstate" where
  "query_List_pods K sel = perform (QueryPods sel) (list_pods K all_namespaces sel)"

definition query_List_requests ::
    "'w api \<Rightarrow> string \<Rightarrow> 'w opstate \<Rightarrow> (error option \<times> FencingRequest list) \<times> 'w opstate" where
  "query_List_requests K sel = perform (QueryRequests sel) (list_requests K all_namespaces sel)"

definition query_Get_node ::
    "'w api \<Rightarrow> string \<Rightarrow> 'w opstate \<Rightarrow> (error option \<times> Node) \<times> 'w opstate" where
  "query_Get_node K name = perform (GetNode name) (get_node K name)"

definition query_Get_pvc :: "'w api \<Rightarrow> string \<Rightarrow> 'w opstate \<Rightarrow> error option \<times> 'w opstate" where
  "query_Get_pvc K name = perform (GetPVC name) (get_pvc K name)"

subsection \<open>Memory shared with the cache\<close>

text \<open>
  \<open>action.Create\<close> and \<open>action.Update\<close> decode the server's answer into the object they were given,
  and the decoder reuses the memory that the object's pointers and slices refer to
  (\<open>reflect_optional.go\<close>, \<open>reflect_slice.go\<close>). Two pieces of that memory can belong to a cached
  configuration. \<open>Status.Config\<close> of a request can point to the \<open>Name\<close> of the configuration
  with the key \<open>key\<close> (\<open>req.Status.Config = &chosen.Name\<close>); such a request is passed along with
  \<open>Some key\<close>, and with \<open>None\<close> when the pointer is \<open>nil\<close> or its target is the request's own.
  The \<open>Command\<close> of a container in a job can be the slice in the configuration
  (\<open>getContainerCommand\<close>).
\<close>

definition m_modify :: "'k \<Rightarrow> ('v \<Rightarrow> 'v) \<Rightarrow> ('k, 'v option) gomap \<Rightarrow> ('k, 'v option) gomap" where
  "m_modify key f m = map (\<lambda>(k, v). (k, if k = key then map_option f v else v)) m"

definition set_config_name :: "string \<Rightarrow> FencingConfig \<Rightarrow> FencingConfig" where
  "set_config_name n c = c\<lparr>cfg_ObjectMeta := (cfg_ObjectMeta c)\<lparr>Name := n\<rparr>\<rparr>"

text \<open>
  The decoder writes the \<open>config\<close> of an answer through the pointer, so that afterwards the string
  of the request and the name of the configuration are still one; a \<open>null\<close> sets the pointer to
  \<open>nil\<close> and leaves its old target alone.
\<close>

fun through_pointer :: "string option \<Rightarrow> string option \<Rightarrow> 'w opstate \<Rightarrow> 'w opstate" where
  "through_pointer (Some key) (Some n) s =
     s\<lparr>fencingConfigs := m_modify key (set_config_name n) (fencingConfigs s)\<rparr>"
| "through_pointer _ _ s = s"

text \<open>
  A slice of the cache that shares its array with the slice \<open>new\<close> that an answer was decoded into
  keeps its length and shows the new elements. \<open>write_commands\<close> goes over the mechanisms of the
  method a job was built from, its containers as they were sent and as the answer left them:
  \<open>getContainerCommand\<close> returns the configured slice itself for the format \<open>env\<close>, and for \<open>cli\<close>
  \<open>append\<close> stays in its array while the capacity lasts.
\<close>

definition overwritten :: "'a list \<Rightarrow> 'a list \<Rightarrow> 'a list" where
  "overwritten old new = take (length old) new @ drop (length new) old"

definition shares_command :: "'w api \<Rightarrow> FencingMechanism \<Rightarrow> Container \<Rightarrow> Container \<Rightarrow> bool" where
  "shares_command K mech configured sent \<longleftrightarrow>
     ArgumentFormat mech = ''env'' \<or>
     length (Command sent) \<le> slice_capacity K (length (Command configured))"

definition write_command ::
    "'w api \<Rightarrow> FencingMechanism \<Rightarrow> Container \<Rightarrow> Container \<Rightarrow> FencingMechanism" where
  "write_command K mech sent answered =
     mech\<lparr>mech_Container := map_option (\<lambda>c.
       if shares_command K mech c sent
       then c\<lparr>Command := overwritten (Command c) (Command answered)\<rparr> else c) (mech_Container mech)\<rparr>"

fun write_commands ::
    "'w api \<Rightarrow> FencingMechanism list \<Rightarrow> Container list \<Rightarrow> Container list \<Rightarrow> FencingMechanism list" where
  "write_commands K (mech # mechs) (sent # sents) (answered # answers) =
     write_command K mech sent answered # write_commands K mechs sents answers"
| "write_commands K mechs _ _ = mechs"

definition write_method ::
    "'w api \<Rightarrow> nat \<Rightarrow> Job \<Rightarrow> Job \<Rightarrow> FencingConfig \<Rightarrow> FencingConfig" where
  "write_method K i sent answered c =
     c\<lparr>Methods := (Methods c)[i := (Methods c ! i)
         \<lparr>Mechanisms := write_commands K (Mechanisms (Methods c ! i))
            (Containers sent) (Containers answered)\<rparr>]\<rparr>"

text \<open>\<open>i\<close> is the index of the method in the configuration with the key \<open>key\<close>.\<close>

definition through_slices ::
    "'w api \<Rightarrow> string \<Rightarrow> nat \<Rightarrow> Job \<Rightarrow> Job \<Rightarrow> 'w opstate \<Rightarrow> 'w opstate" where
  "through_slices K key i sent answered s =
     s\<lparr>fencingConfigs := m_modify key (write_method K i sent answered) (fencingConfigs s)\<rparr>"

subsection \<open>Writing objects\<close>

text \<open>
  \<open>action_Create_job K (key, i) job\<close> creates a job that was built from the method \<open>i\<close> of the
  configuration \<open>key\<close>; \<open>action_Update K p req\<close> updates a request whose \<open>Status.Config\<close> points into
  the cache as \<open>p\<close> says.
\<close>

definition action_Create_job ::
    "'w api \<Rightarrow> string \<times> nat \<Rightarrow> Job \<Rightarrow> 'w opstate \<Rightarrow> (error option \<times> Job) \<times> 'w opstate" where
  "action_Create_job K built_from job s =
     (let ((err, job'), s') = perform (CreateJob job) (create_job K job) s
      in ((err, job'), through_slices K (fst built_from) (snd built_from) job job' s'))"

definition action_Create_request ::
    "'w api \<Rightarrow> FencingRequest \<Rightarrow> 'w opstate \<Rightarrow> (error option \<times> FencingRequest) \<times> 'w opstate" where
  "action_Create_request K req = perform (CreateRequest req) (create_request K req)"

definition action_Update ::
    "'w api \<Rightarrow> string option \<Rightarrow> FencingRequest \<Rightarrow> 'w opstate \<Rightarrow>
     (error option \<times> FencingRequest) \<times> 'w opstate" where
  "action_Update K p req s =
     (let ((err, req'), s') = perform (UpdateRequest req) (update_request K req) s
      in ((err, req'), through_pointer p (FencingRequestStatus.Config (Status req')) s'))"

definition action_Delete ::
    "'w api \<Rightarrow> FencingRequest \<Rightarrow> 'w opstate \<Rightarrow> error option \<times> 'w opstate" where
  "action_Delete K req = perform (DeleteRequest req) (delete_request K req)"

definition now :: "'w api \<Rightarrow> 'w opstate \<Rightarrow> string \<times> 'w opstate" where
  "now K s = (let (t, w') = time_now K (world s) in (t, s\<lparr>world := w'\<rparr>))"

text \<open>
  The clock of the retry loop, over the operator's state together with the object \<open>'x\<close> that
  the loop's closure captures and overwrites.
\<close>

definition api_clock :: "'w api \<Rightarrow> ('x \<times> 'w opstate) clock" where
  "api_clock K =
     \<lparr>Sleep = (\<lambda>d (x, s). (x, note_call (Slept d) (s\<lparr>world := time_sleep K d (world s)\<rparr>))),
      jittered = (\<lambda>d j (x, s). let (d', w') = backoff_jitter K d j (world s)
                               in (d', (x, s\<lparr>world := w'\<rparr>))),
      scaled = float_scale K\<rparr>"

subsection \<open>Frame facts\<close>

text \<open>
  \<open>ext s s'\<close>: \<open>s'\<close> comes from \<open>s\<close> by calls alone: the configurations are the same and the
  log has grown. \<open>new_calls s s'\<close> are the calls in between.
\<close>

definition new_calls :: "'w opstate \<Rightarrow> 'w opstate \<Rightarrow> call list" where
  "new_calls s s' = drop (length (calls s)) (calls s')"

definition ext :: "'w opstate \<Rightarrow> 'w opstate \<Rightarrow> bool" where
  "ext s s' \<longleftrightarrow> fencingConfigs s' = fencingConfigs s \<and> (\<exists>cs. calls s' = calls s @ cs)"

named_theorems api_defs "definitions of the SDK calls"

declare query_List_nodes_def [api_defs] query_List_jobs_def [api_defs]
  query_List_pods_def [api_defs] query_List_requests_def [api_defs]
  query_Get_node_def [api_defs] query_Get_pvc_def [api_defs]
  action_Create_job_def [api_defs] action_Create_request_def [api_defs]
  action_Update_def [api_defs] action_Delete_def [api_defs]

lemma ext_refl [simp]: "ext s s"
  by (simp add: ext_def)

lemma ext_trans [trans]: "ext s t \<Longrightarrow> ext t u \<Longrightarrow> ext s u"
  by (auto simp: ext_def)

lemma new_calls_self [simp]: "new_calls s s = []"
  by (simp add: new_calls_def)

lemma calls_ext: "ext s t \<Longrightarrow> calls t = calls s @ new_calls s t"
  by (auto simp: ext_def new_calls_def)

lemma new_calls_trans:
  "ext s t \<Longrightarrow> ext t u \<Longrightarrow> new_calls s u = new_calls s t @ new_calls t u"
  by (auto simp: ext_def new_calls_def)

lemma new_calls_append:
  "calls t = calls s @ cs \<Longrightarrow> calls u = calls t @ cs' \<Longrightarrow> new_calls s u = cs @ cs'"
  by (simp add: new_calls_def)

lemma ext_perform [simp]: "ext s (snd (perform c f s))"
  by (simp add: perform_def note_call_def ext_def split_beta Let_def)

lemma new_calls_perform [simp]: "new_calls s (snd (perform c f s)) = [c]"
  by (simp add: perform_def note_call_def new_calls_def split_beta Let_def)

lemma performed: "perform c f s = (r, s') \<Longrightarrow> ext s s' \<and> new_calls s s' = [c]"
  by (metis ext_perform new_calls_perform snd_conv)

lemma ext_now [simp]: "ext s (snd (now K s))"
  by (simp add: now_def ext_def split_beta Let_def)

lemma new_calls_now [simp]: "new_calls s (snd (now K s)) = []"
  by (simp add: now_def new_calls_def split_beta Let_def)

lemma fencingConfigs_ext: "ext s t \<Longrightarrow> fencingConfigs t = fencingConfigs s"
  by (simp add: ext_def)

text \<open>\<open>only P s s'\<close>: every call between the two states satisfies \<open>P\<close>.\<close>

definition only :: "(call \<Rightarrow> bool) \<Rightarrow> 'w opstate \<Rightarrow> 'w opstate \<Rightarrow> bool" where
  "only P s s' \<longleftrightarrow> ext s s' \<and> list_all P (new_calls s s')"

fun is_read :: "call \<Rightarrow> bool" where
  "is_read (QueryNodes sel) = True"
| "is_read (QueryJobs ns sel) = True"
| "is_read (QueryPods sel) = True"
| "is_read (QueryRequests sel) = True"
| "is_read (GetNode name) = True"
| "is_read (GetPVC name) = True"
| "is_read _ = False"

abbreviation reads :: "'w opstate \<Rightarrow> 'w opstate \<Rightarrow> bool" where
  "reads \<equiv> only is_read"

lemma only_refl [simp]: "only P s s"
  by (simp add: only_def)

lemma only_trans [trans]: "only P s t \<Longrightarrow> only P t u \<Longrightarrow> only P s u"
  unfolding only_def by (metis ext_trans list_all_append new_calls_trans)

lemma only_ext: "only P s t \<Longrightarrow> ext s t"
  by (simp add: only_def)

lemma only_perform: "P c \<Longrightarrow> only P s (snd (perform c f s))"
  by (simp add: only_def)

lemma only_and_then:
  assumes "only P s (final_state m)"
    and "\<And>a t. m = Returned a t \<Longrightarrow> only P t (final_state (f a t))"
  shows "only P s (final_state (and_then m f))"
  using assms by (cases m) (simp_all, blast intro: only_trans)

end
