(* ===== verification/Shared_Memory.thy ===== *)
theory Shared_Memory
  imports Cluster
begin

section \<open>What writes through shared memory leave of the cache\<close>

text \<open>
  The answers to an update and to the creation of a job are decoded into memory that can belong
  to a cached configuration (\<open>action_Update\<close>, \<open>action_Create_job\<close>). What such writes cannot
  change, and what the server has to answer so that they change nothing.
\<close>

subsection \<open>The outline of a cache\<close>

text \<open>
  The outline of a cache: all but the names in its configurations and the elements of their
  commands. No write through shared memory changes it.
\<close>

definition mechanism_outline :: "FencingMechanism \<Rightarrow> FencingMechanism" where
  "mechanism_outline k = k\<lparr>mech_Container :=
     map_option (\<lambda>c. c\<lparr>Command := replicate (length (Command c)) []\<rparr>) (mech_Container k)\<rparr>"

definition method_outline :: "FencingMethod \<Rightarrow> FencingMethod" where
  "method_outline m = m\<lparr>Mechanisms := map mechanism_outline (Mechanisms m)\<rparr>"

definition config_outline :: "FencingConfig \<Rightarrow> FencingConfig" where
  "config_outline c = (set_config_name [] c)\<lparr>Methods := map method_outline (Methods c)\<rparr>"

definition cache_outline ::
    "(string, FencingConfig option) gomap \<Rightarrow> (string, FencingConfig option) gomap" where
  "cache_outline cfgs = map (\<lambda>(n, p). (n, map_option config_outline p)) cfgs"

lemma outline_keys: "map fst (cache_outline cfgs) = map fst cfgs"
  by (simp add: cache_outline_def comp_def split_beta)

lemma m_ok_outline: "cache_outline cfgs = cache_outline cfgs' \<Longrightarrow> m_ok cfgs \<longleftrightarrow> m_ok cfgs'"
  unfolding m_ok_def by (metis outline_keys)

text \<open>
  A server that gives back what it was sent, as far as the memory shared with the cache goes: the
  configuration's name of an updated request, or none, and the commands of a new job's
  containers, or none.
\<close>

definition echoes :: "'w api \<Rightarrow> bool" where
  "echoes K \<longleftrightarrow>
     (\<forall>r w. FencingRequestStatus.Config (Status (snd (fst (update_request K r w)))) \<in>
        {None, FencingRequestStatus.Config (Status r)}) \<and>
     (\<forall>j w. list_all (\<lambda>(sent, answered). Command answered \<in> {[], Command sent})
        (zip (Containers j) (Containers (snd (fst (create_job K j w))))))"

text \<open>
  \<open>evolves K s s'\<close> is \<open>ext\<close> with writes through shared memory: the outline of the cache is the
  same, and with a server that echoes so is the cache.
\<close>

definition evolves :: "'w api \<Rightarrow> 'w opstate \<Rightarrow> 'w opstate \<Rightarrow> bool" where
  "evolves K s s' \<longleftrightarrow>
     cache_outline (fencingConfigs s') = cache_outline (fencingConfigs s) \<and>
     (echoes K \<and> m_ok (fencingConfigs s) \<longrightarrow> fencingConfigs s' = fencingConfigs s) \<and>
     (\<exists>cs. calls s' = calls s @ cs)"

text \<open>The part of it about the cache.\<close>

definition kept ::
    "'w api \<Rightarrow> (string, FencingConfig option) gomap \<Rightarrow> (string, FencingConfig option) gomap \<Rightarrow>
     bool" where
  "kept K cfgs cfgs' \<longleftrightarrow>
     (if echoes K \<and> m_ok cfgs then cfgs' = cfgs else cache_outline cfgs' = cache_outline cfgs)"

lemma evolves_kept: "evolves K s t \<Longrightarrow> kept K (fencingConfigs s) (fencingConfigs t)"
  by (simp add: evolves_def kept_def)

lemma ext_evolves: "ext s t \<Longrightarrow> evolves K s t"
  by (simp add: ext_def evolves_def)

lemma evolves_refl [simp]: "evolves K s s"
  by (simp add: evolves_def)

lemma evolves_trans [trans]: "evolves K s t \<Longrightarrow> evolves K t u \<Longrightarrow> evolves K s u"
  by (auto simp: evolves_def)

lemma calls_evolves: "evolves K s t \<Longrightarrow> calls t = calls s @ new_calls s t"
  by (auto simp: evolves_def new_calls_def)

lemma new_calls_evolves_trans:
  "evolves K s t \<Longrightarrow> evolves K t u \<Longrightarrow> new_calls s u = new_calls s t @ new_calls t u"
  by (auto simp: evolves_def new_calls_def)

text \<open>\<open>does K P s s'\<close> is \<open>only P s s'\<close> with writes through shared memory.\<close>

definition does :: "'w api \<Rightarrow> (call \<Rightarrow> bool) \<Rightarrow> 'w opstate \<Rightarrow> 'w opstate \<Rightarrow> bool" where
  "does K P s s' \<longleftrightarrow> evolves K s s' \<and> list_all P (new_calls s s')"

lemma only_does: "only P s t \<Longrightarrow> does K P s t"
  by (simp add: only_def does_def ext_evolves)

lemma does_refl [simp]: "does K P s s"
  by (simp add: does_def)

lemma does_trans [trans]: "does K P s t \<Longrightarrow> does K P t u \<Longrightarrow> does K P s u"
  unfolding does_def by (metis evolves_trans list_all_append new_calls_evolves_trans)

lemma does_evolves: "does K P s t \<Longrightarrow> evolves K s t"
  by (simp add: does_def)

lemma does_mono: "does K P s t \<Longrightarrow> (\<And>c. P c \<Longrightarrow> Q c) \<Longrightarrow> does K Q s t"
  by (simp add: does_def list_all_iff)

lemma does_and_then:
  assumes "does K P s (final_state m)"
    and "\<And>a t. m = Returned a t \<Longrightarrow> does K P t (final_state (f a t))"
  shows "does K P s (final_state (and_then m f))"
  using assms by (cases m) (simp_all, blast intro: does_trans)

text \<open>\<open>logs P s s'\<close> says the same of the calls alone.\<close>

definition logs :: "(call \<Rightarrow> bool) \<Rightarrow> 'w opstate \<Rightarrow> 'w opstate \<Rightarrow> bool" where
  "logs P s s' \<longleftrightarrow> (\<exists>cs. calls s' = calls s @ cs \<and> list_all P cs)"

lemma logs_refl [simp]: "logs P s s"
  by (simp add: logs_def)

lemma logs_trans [trans]: "logs P s t \<Longrightarrow> logs P t u \<Longrightarrow> logs P s u"
  by (auto simp: logs_def)

lemma only_logs: "only P s t \<Longrightarrow> logs P s t"
  unfolding logs_def only_def using calls_ext by blast

lemma does_logs: "does K P s t \<Longrightarrow> logs P s t"
  unfolding logs_def does_def using calls_evolves by blast

lemma logs_new_calls: "logs P s t \<Longrightarrow> list_all P (new_calls s t)"
  by (auto simp: logs_def new_calls_def)

lemma logs_mono: "logs P s t \<Longrightarrow> (\<And>c. P c \<Longrightarrow> Q c) \<Longrightarrow> logs Q s t"
  by (auto simp: logs_def list_all_iff)

lemma logs_and_then:
  assumes "logs P s (final_state m)"
    and "\<And>a t. m = Returned a t \<Longrightarrow> logs P t (final_state (f a t))"
  shows "logs P s (final_state (and_then m f))"
  using assms by (cases m) (simp_all, blast intro: logs_trans)

subsection \<open>Writes through shared memory\<close>

lemma m_modify_keys [simp]: "map fst (m_modify key f m) = map fst m"
  by (simp add: m_modify_def comp_def split_beta)

lemma m_ok_m_modify [gomap_rules]: "m_ok (m_modify key f m) \<longleftrightarrow> m_ok m"
  by (simp add: m_ok_def)

lemma map_of_m_modify:
  "map_of (m_modify key f m) =
   (case map_of m key of None \<Rightarrow> map_of m | Some v \<Rightarrow> (map_of m)(key \<mapsto> map_option f v))"
  by (induction m) (auto simp: m_modify_def fun_eq_iff split: option.splits)

lemma m_modify_outline:
  "(\<And>c. config_outline (f c) = config_outline c) \<Longrightarrow>
   cache_outline (m_modify key f cfgs) = cache_outline cfgs"
  by (simp add: m_modify_def cache_outline_def split_beta option.map_comp comp_def)

lemma m_modify_same:
  assumes "m_ok m" and "(key, Some c) \<in> set m" and "f c = c"
  shows "m_modify key f m = m"
proof -
  have "v = Some c" if "(key, v) \<in> set m" for v
    using assms(1,2) that by (metis m_ok_distinct map_of_is_SomeI option.inject)
  then have "(k, if k = key then map_option f v else v) = (k, v)" if "(k, v) \<in> set m" for k v
    using that assms(3) by auto
  then show ?thesis unfolding m_modify_def by (intro map_idI) auto
qed

lemma set_config_name_outline [simp]: "config_outline (set_config_name n c) = config_outline c"
  by (simp add: config_outline_def set_config_name_def)

lemma length_overwritten [simp]: "length (overwritten old new) = length old"
  by (auto simp: overwritten_def)

lemma overwritten_prefix: "overwritten old (old @ rest) = old"
  by (simp add: overwritten_def)

lemma overwritten_Nil [simp]: "overwritten old [] = old"
  by (simp add: overwritten_def)

lemma write_command_outline [simp]:
  "mechanism_outline (write_command K mech sent answered) = mechanism_outline mech"
  by (cases "mech_Container mech") (simp_all add: mechanism_outline_def write_command_def)

lemma write_commands_outline [simp]:
  "map mechanism_outline (write_commands K mechs sents answers) = map mechanism_outline mechs"
  by (induction K mechs sents answers rule: write_commands.induct) simp_all

lemma write_method_outline [simp]:
  "config_outline (write_method K i sent answered c) = config_outline c"
proof (cases "i < length (Methods c)")
  case True
  then have "map method_outline (Methods (write_method K i sent answered c)) =
      (map method_outline (Methods c))[i := map method_outline (Methods c) ! i]"
    by (simp add: write_method_def map_update method_outline_def)
  then have "map method_outline (Methods (write_method K i sent answered c)) =
      map method_outline (Methods c)" by (simp only: list_update_id)
  then show ?thesis
    by (simp add: config_outline_def set_config_name_def) (simp add: write_method_def)
qed (simp add: write_method_def list_update_beyond)

text \<open>Only the cache is written.\<close>

lemma through_pointer_only_cache [simp]:
  "calls (through_pointer p n s) = calls s" "world (through_pointer p n s) = world s"
  by (cases "(p, n, s)" rule: through_pointer.cases; simp)+

lemma through_slices_only_cache [simp]:
  "calls (through_slices K key i j j' s) = calls s" "world (through_slices K key i j j' s) = world s"
  by (simp_all add: through_slices_def)

lemma through_pointer_cache:
  "fencingConfigs s = fencingConfigs t \<Longrightarrow>
   fencingConfigs (through_pointer p n s) = fencingConfigs (through_pointer p n t)"
  by (cases p; cases n) simp_all

lemma through_pointer_outline [simp]:
  "cache_outline (fencingConfigs (through_pointer p n s)) = cache_outline (fencingConfigs s)"
  by (cases "(p, n, s)" rule: through_pointer.cases) (simp_all add: m_modify_outline)

lemma through_slices_outline [simp]:
  "cache_outline (fencingConfigs (through_slices K key i j j' s)) = cache_outline (fencingConfigs s)"
  by (simp add: through_slices_def m_modify_outline)

text \<open>\<open>points_into p req cfgs\<close>: \<open>Status.Config\<close> is the name of the configuration it points to.\<close>

definition points_into ::
    "string option \<Rightarrow> FencingRequest \<Rightarrow> (string, FencingConfig option) gomap \<Rightarrow> bool" where
  "points_into p req cfgs \<longleftrightarrow> (\<forall>key. p = Some key \<longrightarrow> (\<exists>c. (key, Some c) \<in> set cfgs \<and>
     FencingRequestStatus.Config (Status req) = Some (Name (cfg_ObjectMeta c))))"

lemma points_into_None [simp]: "points_into None req cfgs"
  by (simp add: points_into_def)

lemma through_pointer_same:
  assumes "points_into p req (fencingConfigs s)" and "m_ok (fencingConfigs s)"
    and "n \<in> {None, FencingRequestStatus.Config (Status req)}"
  shows "through_pointer p n s = s"
proof (cases "\<exists>key x. p = Some key \<and> n = Some x")
  case True
  then obtain key x c where p: "p = Some key" "n = Some x" "(key, Some c) \<in> set (fencingConfigs s)"
    "x = Name (cfg_ObjectMeta c)" using assms(1,3) by (auto simp: points_into_def)
  have "m_modify key (set_config_name x) (fencingConfigs s) = fencingConfigs s"
    by (rule m_modify_same [OF assms(2) p(3)]) (simp add: set_config_name_def p(4))
  then show ?thesis by (simp add: p(1,2))
next
  case False
  then show ?thesis by (cases p; cases n) auto
qed

lemma calls_action_Update [simp]:
  "calls (snd (action_Update K p req s)) = calls s @ [UpdateRequest req]"
  by (simp add: action_Update_def perform_def note_call_def split_beta Let_def)

lemma action_Update_own [simp]:
  "action_Update K None req s = perform (UpdateRequest req) (update_request K req) s"
  by (simp add: action_Update_def split_beta Let_def)

lemma evolves_action_Update:
  assumes "echoes K \<Longrightarrow> m_ok (fencingConfigs s) \<Longrightarrow> points_into p req (fencingConfigs s)"
  shows "evolves K s (snd (action_Update K p req s))"
proof -
  let ?t = "snd (perform (UpdateRequest req) (update_request K req) s)"
  let ?n = "FencingRequestStatus.Config (Status (snd (fst (update_request K req (world s)))))"
  have t: "snd (action_Update K p req s) = through_pointer p ?n ?t"
    by (simp add: action_Update_def perform_def note_call_def split_beta Let_def)
  have c: "fencingConfigs ?t = fencingConfigs s" by (rule fencingConfigs_ext) simp
  have "fencingConfigs (through_pointer p ?n ?t) = fencingConfigs s"
    if "echoes K" "m_ok (fencingConfigs s)"
  proof -
    have "through_pointer p ?n ?t = ?t"
    proof (rule through_pointer_same)
      show "points_into p req (fencingConfigs ?t)" unfolding c using that by (rule assms)
    qed (use that in \<open>auto simp: c echoes_def\<close>)
    then show ?thesis by (simp add: c)
  qed
  moreover have "calls (through_pointer p ?n ?t) = calls s @ [UpdateRequest req]"
    by (simp add: perform_def note_call_def split_beta Let_def)
  ultimately show ?thesis unfolding t evolves_def by (simp add: c)
qed

text \<open>
  \<open>extends mechs cs\<close>: the containers are as many as the mechanisms, and each command starts with
  the one that its mechanism is configured with.
\<close>

definition extends :: "FencingMechanism list \<Rightarrow> Container list \<Rightarrow> bool" where
  "extends mechs cs \<longleftrightarrow> list_all2 (\<lambda>mech c. \<forall>c0. mech_Container mech = Some c0 \<longrightarrow>
     (\<exists>rest. Command c = Command c0 @ rest)) mechs cs"

lemma write_commands_same:
  "extends mechs sents \<Longrightarrow>
   list_all (\<lambda>(sent, answered). Command answered \<in> {[], Command sent}) (zip sents answers) \<Longrightarrow>
   write_commands K mechs sents answers = mechs"
proof (induction K mechs sents answers rule: write_commands.induct)
  case (1 K mech mechs sent sents answered answers)
  then have "write_commands K mechs sents answers = mechs" by (simp add: extends_def)
  moreover have "overwritten (Command c) (Command answered) = Command c"
    if "mech_Container mech = Some c" for c
    using 1(2,3) that by (auto simp: extends_def overwritten_prefix)
  then have "write_command K mech sent answered = mech"
    by (cases "mech_Container mech") (simp_all add: write_command_def)
  ultimately show ?case by simp
qed simp_all

lemma calls_action_Create_job [simp]:
  "calls (snd (action_Create_job K b job s)) = calls s @ [CreateJob job]"
  by (simp add: action_Create_job_def perform_def note_call_def split_beta Let_def)

lemma evolves_action_Create_job:
  assumes "echoes K \<Longrightarrow> m_ok (fencingConfigs s) \<Longrightarrow> (\<exists>c. (key, Some c) \<in> set (fencingConfigs s) \<and>
      i < length (Methods c) \<and> extends (Mechanisms (Methods c ! i)) (Containers job))"
  shows "evolves K s (snd (action_Create_job K (key, i) job s))"
proof -
  let ?t = "snd (perform (CreateJob job) (create_job K job) s)"
  let ?j = "snd (fst (create_job K job (world s)))"
  have t: "snd (action_Create_job K (key, i) job s) = through_slices K key i job ?j ?t"
    by (simp add: action_Create_job_def perform_def note_call_def split_beta Let_def)
  have c: "fencingConfigs ?t = fencingConfigs s" by (rule fencingConfigs_ext) simp
  have "fencingConfigs (through_slices K key i job ?j ?t) = fencingConfigs s"
    if k: "echoes K" "m_ok (fencingConfigs s)"
  proof -
    obtain cfg where cfg: "(key, Some cfg) \<in> set (fencingConfigs s)" "i < length (Methods cfg)"
      "extends (Mechanisms (Methods cfg ! i)) (Containers job)" using assms [OF k] by blast
    have "write_commands K (Mechanisms (Methods cfg ! i)) (Containers job) (Containers ?j) =
        Mechanisms (Methods cfg ! i)"
      using write_commands_same [OF cfg(3)] k(1) unfolding echoes_def by blast
    then have "write_method K i job ?j cfg = cfg" by (simp add: write_method_def)
    from m_modify_same [OF k(2) cfg(1), where f = "write_method K i job ?j", OF this]
    show ?thesis by (simp add: through_slices_def c)
  qed
  moreover have "calls (through_slices K key i job ?j ?t) = calls s @ [CreateJob job]"
    by (simp add: perform_def note_call_def split_beta Let_def)
  ultimately show ?thesis unfolding t evolves_def by (simp add: c)
qed

end
