(* ===== verification/Labels.thy ===== *)
theory Labels
  imports Prelude
begin

section \<open>Label selectors\<close>

text \<open>
  The vendored \<open>labels.SelectorFromSet\<close> and \<open>String\<close>
  (\<open>vendor/k8s.io/apimachinery/pkg/labels/selector.go\<close>) with the validation they use
  (\<open>pkg/util/validation/validation.go\<close>): the operator turns the node selector of a fencing
  configuration and the labels of a job into the text of a list query with them. A set with
  one invalid label becomes the empty selector, which selects everything.
\<close>

subsection \<open>Validation\<close>

text \<open>The regular expressions of the validators, as predicates on the characters.\<close>

definition char_in :: "nat \<Rightarrow> nat \<Rightarrow> char \<Rightarrow> bool" where
  "char_in lo hi c \<longleftrightarrow> lo \<le> of_char c \<and> of_char c \<le> hi"

definition qnameChar :: "char \<Rightarrow> bool" where
  "qnameChar c \<longleftrightarrow> char_in 65 90 c \<or> char_in 97 122 c \<or> char_in 48 57 c"

definition qnameExtChar :: "char \<Rightarrow> bool" where
  "qnameExtChar c \<longleftrightarrow> qnameChar c \<or> c = CHR ''-'' \<or> c = CHR ''_'' \<or> c = CHR ''.''"

definition dnsChar :: "char \<Rightarrow> bool" where
  "dnsChar c \<longleftrightarrow> char_in 97 122 c \<or> char_in 48 57 c"

definition qualifiedNameRegexp :: "string \<Rightarrow> bool" where
  "qualifiedNameRegexp s \<longleftrightarrow>
     s \<noteq> [] \<and> qnameChar (hd s) \<and> qnameChar (last s) \<and> list_all qnameExtChar s"

definition dns1123LabelRegexp :: "string \<Rightarrow> bool" where
  "dns1123LabelRegexp s \<longleftrightarrow>
     s \<noteq> [] \<and> dnsChar (hd s) \<and> dnsChar (last s) \<and>
     list_all (\<lambda>c. dnsChar c \<or> c = CHR ''-'') s"

definition IsDNS1123Subdomain :: "string \<Rightarrow> bool" where
  "IsDNS1123Subdomain s \<longleftrightarrow>
     length s \<le> 253 \<and> list_all dns1123LabelRegexp (split_on CHR ''.'' s)"

definition valid_name :: "string \<Rightarrow> bool" where
  "valid_name name \<longleftrightarrow> name \<noteq> [] \<and> length name \<le> 63 \<and> qualifiedNameRegexp name"

definition IsQualifiedName :: "string \<Rightarrow> bool" where
  "IsQualifiedName s =
     (case split_on CHR ''/'' s of
        [name] \<Rightarrow> valid_name name
      | [prefix, name] \<Rightarrow> prefix \<noteq> [] \<and> IsDNS1123Subdomain prefix \<and> valid_name name
      | _ \<Rightarrow> False)"

definition IsValidLabelValue :: "string \<Rightarrow> bool" where
  "IsValidLabelValue s \<longleftrightarrow> length s \<le> 63 \<and> (s = [] \<or> qualifiedNameRegexp s)"

subsection \<open>Selectors\<close>

text \<open>
  A requirement \<open>key = value\<close> is the pair; \<open>NewRequirement\<close> succeeds when key and value are
  valid. The selector is the list of its requirements; its order is made canonical by the
  sort.
\<close>

definition NewRequirement_ok :: "string \<Rightarrow> string \<Rightarrow> bool" where
  "NewRequirement_ok key v \<longleftrightarrow> IsQualifiedName key \<and> IsValidLabelValue v"

fun selector_loop :: "(string \<times> string) list \<Rightarrow> (string \<times> string) list \<Rightarrow>
    (string \<times> string) list" where
  "selector_loop [] requirements = requirements"
| "selector_loop ((label, v) # kvs) requirements =
     (if NewRequirement_ok label v then selector_loop kvs (requirements @ [(label, v)])
      else [])"

definition SelectorFromSet :: "chooser \<Rightarrow> strmap option \<Rightarrow> (string \<times> string) list" where
  "SelectorFromSet \<rho> ls =
     (if length (entries ls) = 0 then []
      else sort_key fst (selector_loop (range_over \<rho> (entries ls)) []))"

definition selector_String :: "(string \<times> string) list \<Rightarrow> string" where
  "selector_String reqs = join_with '','' (map (\<lambda>(k, v). k @ ''='' @ v) reqs)"

text \<open>The empty selector and the server's reading of a requirement list against labels.\<close>

definition selects :: "(string \<times> string) list \<Rightarrow> strmap \<Rightarrow> bool" where
  "selects reqs ls \<longleftrightarrow> list_all (\<lambda>(k, v). map_of ls k = Some v) reqs"

subsection \<open>What a set of labels selects\<close>

definition labels_valid :: "strmap \<Rightarrow> bool" where
  "labels_valid m \<longleftrightarrow> list_all (\<lambda>(k, v). NewRequirement_ok k v) m"

lemma selector_loop_eq:
  "selector_loop kvs reqs = (if labels_valid kvs then reqs @ kvs else [])"
  by (induction kvs reqs rule: selector_loop.induct) (auto simp: labels_valid_def)

lemma labels_valid_range_over [order_rules]: "labels_valid (range_over \<rho> m) = labels_valid m"
  by (simp add: labels_valid_def list_all_iff)

lemma sort_key_range_over [order_rules]:
  assumes "m_ok m"
  shows "sort_key fst (range_over \<rho> m) = m"
proof (rule properties_for_sort_key)
  show "mset m = mset (range_over \<rho> m)" by simp
  have d: "distinct (map fst m)" using assms by (rule m_ok_distinct)
  show "filter (\<lambda>x. fst k = fst x) m = filter (\<lambda>x. fst k = fst x) (range_over \<rho> m)"
    if "k \<in> set m" for k
  proof -
    have one: "filter (\<lambda>x. fst k = fst x) xs = [k]"
      if "distinct (map fst xs)" "k \<in> set xs" for xs :: "('a \<times> 'b) list"
      using that by (induction xs) (auto simp: filter_empty_conv rev_image_eqI)
    show ?thesis
      using one [OF d that] one [OF distinct_keys_range_over [OF d]] that by simp
  qed
  show "sorted (map fst m)"
    using assms by (simp add: m_ok_def strict_sorted_imp_sorted)
qed

lemma SelectorFromSet_eq:
  assumes "m_ok (entries ls)"
  shows "SelectorFromSet \<rho> ls = (if labels_valid (entries ls) then entries ls else [])"
  using assms by (auto simp: SelectorFromSet_def selector_loop_eq order_rules)

subsection \<open>Properties\<close>

text \<open>The selector made of a set of labels selects, whatever the map order, the objects that
  carry all of them when every key and value is a valid label, and every object as soon as one
  of them is not.\<close>

theorem SelectorFromSet_selects:
  assumes "m_ok ls"
  shows "selects (SelectorFromSet \<rho> (Some ls)) obj \<longleftrightarrow>
    (\<forall>k v. map_of ls k = Some v \<longrightarrow> map_of obj k = Some v) \<or>
    (\<exists>k v. map_of ls k = Some v \<and> \<not> (IsQualifiedName k \<and> IsValidLabelValue v))"
proof -
  have d: "(k, v) \<in> set ls \<longleftrightarrow> map_of ls k = Some v" for k v
    using m_ok_distinct [OF assms] by simp
  have valid: "labels_valid ls \<longleftrightarrow>
      (\<forall>k v. map_of ls k = Some v \<longrightarrow> IsQualifiedName k \<and> IsValidLabelValue v)"
    by (auto simp: labels_valid_def list_all_iff NewRequirement_ok_def d)
  show ?thesis
  proof (cases "labels_valid ls")
    case True
    then have "selects (SelectorFromSet \<rho> (Some ls)) obj \<longleftrightarrow>
        (\<forall>k v. map_of ls k = Some v \<longrightarrow> map_of obj k = Some v)"
      using assms by (auto simp: SelectorFromSet_eq selects_def list_all_iff d)
    with True show ?thesis unfolding valid by blast
  next
    case False
    then have "selects (SelectorFromSet \<rho> (Some ls)) obj"
      using assms by (simp add: SelectorFromSet_eq selects_def)
    with False show ?thesis unfolding valid by blast
  qed
qed

theorem SelectorFromSet_selects_witness:
  "\<not> selects (SelectorFromSet in_order (Some [(''app'', ''web'')])) [(''app'', ''db'')] \<and>
   selects (SelectorFromSet in_order (Some [(''app'', ''we b'')])) [(''app'', ''db'')]"
proof -
  have ok: "m_ok [(''app'', ''web'')]" "m_ok [(''app'', ''we b'')]" by (simp_all add: m_ok_def)
  show ?thesis
    unfolding SelectorFromSet_selects [OF ok(1)] SelectorFromSet_selects [OF ok(2)]
    by (simp add: IsQualifiedName_def IsValidLabelValue_def valid_name_def qualifiedNameRegexp_def
        qnameExtChar_def qnameChar_def char_in_def)
qed

end
