(* ===== verification/Requests.thy ===== *)
theory Requests
  imports Shared_Memory Labels
begin

section \<open>Recording results in a fencing request (pkg/apis/fencing/v1alpha1/request.go)\<close>

text \<open>
  The methods of \<open>FencingRequest\<close> that append to its history, mark it complete and write it
  back. A method on the pointer takes the request and returns it as the call leaves it.
\<close>

definition JobLabels :: "FencingRequest \<Rightarrow> string \<Rightarrow> strmap" where
  "JobLabels fr method =
     (let labels = m_put ''request'' (Name (fr_ObjectMeta fr))
                     (m_put ''target'' (Target (Spec fr))
                       (m_put ''app'' ''fencing-operator'' []));
          labels1 = (case FencingRequestStatus.Config (Status fr) of
                       None \<Rightarrow> labels | Some c \<Rightarrow> m_put ''config'' c labels)
      in if 0 < length method then m_put ''method'' method labels1 else labels1)"

text \<open>
  The closure that \<open>Update\<close> retries; the pair is the request and the operator's state. \<open>p\<close> says
  what \<open>Status.Config\<close> of the request points to, as for \<open>action_Update\<close>; the closure never runs
  twice (\<open>one_shot\<close>), so it is the same pointer throughout.
\<close>

definition update_closure ::
    "'w api \<Rightarrow> string option \<Rightarrow> FencingRequest \<times> 'w opstate \<Rightarrow>
     (bool \<times> error option) \<times> FencingRequest \<times> 'w opstate" where
  "update_closure K p st =
     (let (fr, s) = st; ((err, fr'), s') = action_Update K p fr s
      in if err \<noteq> None \<and> \<not> IsAlreadyExists err then ((False, err), (fr', s'))
         else ((True, None), (fr', s')))"

definition Update ::
    "'w api \<Rightarrow> string option \<Rightarrow> FencingRequest \<Rightarrow> 'w opstate \<Rightarrow>
     error option \<times> FencingRequest \<times> 'w opstate" where
  "Update K p fr s =
     ExponentialBackoff (api_clock K) defaultBackoff (update_closure K p) (fr, s)"

definition AddResult ::
    "'w api \<Rightarrow> string option \<Rightarrow> FencingRequest \<Rightarrow> string \<Rightarrow> FencingResult \<Rightarrow> error option \<Rightarrow>
     'w opstate \<Rightarrow> FencingRequest \<times> 'w opstate" where
  "AddResult K p fr method result err s =
     (let (t, s1) = now K s;
          u = \<lparr>Timestamp = t, Method = method, Message = result_text result, Output = [],
               Error = fmt_err err\<rparr>;
          fr1 = fr\<lparr>Status := (Status fr)\<lparr>Updates := Updates (Status fr) @ [u]\<rparr>\<rparr>;
          (_, fr2, s2) = Update K p fr1 s1
      in (fr2, s2))"

definition SetFinalResult ::
    "'w api \<Rightarrow> string option \<Rightarrow> FencingRequest \<Rightarrow> FencingResult \<Rightarrow> error option \<Rightarrow>
     'w opstate \<Rightarrow> FencingRequest \<times> 'w opstate" where
  "SetFinalResult K p fr result err s =
     AddResult K p
       (fr\<lparr>Status := (Status fr)\<lparr>Complete := True, Result := result_text result\<rparr>\<rparr>)
       [] result err s"

subsection \<open>The retry around the update\<close>

interpretation update_once: one_shot "update_closure K p" for K :: "'w api" and p
  by unfold_locales (auto simp: update_closure_def split_beta Let_def split: if_splits)

lemma Update_eq:
  "Update K p fr s =
     (let ((err, fr'), s') = action_Update K p fr s
      in (if err \<noteq> None \<and> \<not> IsAlreadyExists err then err else None, fr', s'))"
  by (simp add: Update_def update_once.backoff_runs_once defaultBackoff_def
      update_closure_def split_beta Let_def)

text \<open>The entry that \<open>AddResult\<close> appends and the request that it writes back.\<close>

definition update_entry ::
    "string \<Rightarrow> string \<Rightarrow> FencingResult \<Rightarrow> error option \<Rightarrow> FencingRequestStatusUpdate" where
  "update_entry t method result err =
     \<lparr>Timestamp = t, Method = method, Message = result_text result, Output = [],
      Error = fmt_err err\<rparr>"

definition with_update :: "FencingRequest \<Rightarrow> FencingRequestStatusUpdate \<Rightarrow> FencingRequest" where
  "with_update fr u = fr\<lparr>Status := (Status fr)\<lparr>Updates := Updates (Status fr) @ [u]\<rparr>\<rparr>"

definition completed :: "FencingRequest \<Rightarrow> FencingResult \<Rightarrow> FencingRequest" where
  "completed fr result =
     fr\<lparr>Status := (Status fr)\<lparr>Complete := True, Result := result_text result\<rparr>\<rparr>"

lemma SetFinalResult_eq: "SetFinalResult K p fr result err s = AddResult K p (completed fr result) [] result err s"
  by (simp add: SetFinalResult_def completed_def)

lemma AddResult_eq:
  "AddResult K p fr method result err s =
     (let (t, s1) = now K s;
          ((_, fr'), s2) = action_Update K p (with_update fr (update_entry t method result err)) s1
      in (fr', s2))"
  by (simp add: AddResult_def Update_eq with_update_def update_entry_def Let_def split_beta)

lemma AddResult_calls [simp]:
  "calls (snd (AddResult K p fr method result err s)) =
     calls s @ [UpdateRequest (with_update fr (update_entry (fst (now K s)) method result err))]"
  by (simp add: AddResult_eq now_def split_beta Let_def)

lemma AddResult_new_calls [simp]:
  "new_calls s (snd (AddResult K p fr method result err s)) =
     [UpdateRequest (with_update fr (update_entry (fst (now K s)) method result err))]"
  by (simp add: new_calls_def)

lemma evolves_AddResult:
  assumes "echoes K \<Longrightarrow> m_ok (fencingConfigs s) \<Longrightarrow> points_into p fr (fencingConfigs s)"
  shows "evolves K s (snd (AddResult K p fr method result err s))"
proof -
  obtain t s1 where now: "now K s = (t, s1)" by (metis surj_pair)
  have e: "ext s s1" using ext_now [of s K] by (simp add: now)
  have "points_into p (with_update fr u) (fencingConfigs s1)"
    if "echoes K" "m_ok (fencingConfigs s1)" for u
    using assms that by (simp add: fencingConfigs_ext [OF e] points_into_def with_update_def)
  from evolves_trans [OF ext_evolves [OF e] evolves_action_Update [OF this]]
  show ?thesis by (simp add: AddResult_eq now split_beta)
qed

lemma AddResult_own_ext [simp]: "ext s (snd (AddResult K None fr method result err s))"
proof -
  obtain t s1 where now: "now K s = (t, s1)" by (metis surj_pair)
  have "ext s s1" using ext_now [of s K] by (simp add: now)
  from ext_trans [OF this ext_perform] show ?thesis by (simp add: AddResult_eq now split_beta)
qed

lemma SetFinalResult_calls [simp]:
  "calls (snd (SetFinalResult K p fr result err s)) = calls s @ [UpdateRequest
     (with_update (completed fr result) (update_entry (fst (now K s)) [] result err))]"
  "new_calls s (snd (SetFinalResult K p fr result err s)) = [UpdateRequest
     (with_update (completed fr result) (update_entry (fst (now K s)) [] result err))]"
  by (simp_all add: SetFinalResult_eq)

lemma evolves_SetFinalResult:
  assumes "echoes K \<Longrightarrow> m_ok (fencingConfigs s) \<Longrightarrow> points_into p fr (fencingConfigs s)"
  shows "evolves K s (snd (SetFinalResult K p fr result err s))"
  unfolding SetFinalResult_eq using assms
  by (intro evolves_AddResult) (simp add: points_into_def completed_def)

lemma SetFinalResult_own_ext [simp]: "ext s (snd (SetFinalResult K None fr result err s))"
  by (simp add: SetFinalResult_eq)

lemma m_ok_JobLabels [gomap_rules]: "m_ok (JobLabels fr method)"
  by (auto simp: JobLabels_def Let_def gomap_rules simp del: m_put.simps split: option.split)

end
