(* ===== verification/Queries.thy ===== *)
theory Queries
  imports Requests
begin

section \<open>Queries of the operator (pkg/stub)\<close>

text \<open>
  The helpers of \<open>pkg/stub/handler.go\<close> and \<open>pkg/stub/fencing.go\<close> that read from the
  cluster: one node by name, the fencing requests of a node, pods by node, nodes and jobs by
  label. Errors are returned next to the items, as in the code.
\<close>

definition getNode ::
    "'w api \<Rightarrow> string \<Rightarrow> 'w opstate \<Rightarrow> (Node option \<times> error option) \<times> 'w opstate" where
  "getNode K name s =
     (let ((err, node), s1) = query_Get_node K name s
      in if err \<noteq> None then ((None, err), s1) else ((Some node, None), s1))"

definition listFencingRequests ::
    "'w api \<Rightarrow> Node \<Rightarrow> string \<Rightarrow> 'w opstate \<Rightarrow>
     (error option \<times> FencingRequest list) \<times> 'w opstate" where
  "listFencingRequests K node name s =
     (let sel = (if 0 < length name
                 then ''target='' @ Name (n_ObjectMeta node) @ '',metadata.name='' @ name
                 else ''target='' @ Name (n_ObjectMeta node))
      in query_List_requests K sel s)"

definition listPods ::
    "'w api \<Rightarrow> Node \<Rightarrow> 'w opstate \<Rightarrow> (error option \<times> Pod list) \<times> 'w opstate" where
  "listPods K node s = query_List_pods K (''spec.nodeName='' @ Name (n_ObjectMeta node)) s"

definition ListNodes ::
    "'w api \<Rightarrow> chooser \<Rightarrow> strmap option \<Rightarrow> 'w opstate \<Rightarrow>
     (error option \<times> Node list) \<times> 'w opstate" where
  "ListNodes K \<rho> selector s =
     query_List_nodes K (selector_String (SelectorFromSet \<rho> selector)) s"

definition ListJobs ::
    "'w api \<Rightarrow> chooser \<Rightarrow> FencingRequest \<Rightarrow> string \<Rightarrow> 'w opstate \<Rightarrow>
     (error option \<times> Job list) \<times> 'w opstate" where
  "ListJobs K \<rho> req method s =
     query_List_jobs K (Namespace (fr_ObjectMeta req))
       (selector_String (SelectorFromSet \<rho> (Some (JobLabels req method)))) s"

lemmas query_defs = getNode_def listFencingRequests_def listPods_def ListNodes_def ListJobs_def

lemma reads_queries [simp]:
  "reads s (snd (getNode K name s))" "reads s (snd (listFencingRequests K node name s))"
  "reads s (snd (listPods K node s))" "reads s (snd (ListNodes K \<rho> sel s))"
  "reads s (snd (ListJobs K \<rho> req m s))"
  by (simp_all add: query_defs api_defs only_perform Let_def split_beta)

end
