(* ===== verification/Fencing.thy ===== *)
theory Fencing
  imports Queries Mechanism
begin

section \<open>Carrying out fencing requests (pkg/stub/fencing.go)\<close>

text \<open>
  The choice of a configuration and of a method for a request, the construction of the Job
  that runs the method's mechanisms, and the handlers for requests, jobs and ConfigMaps. A
  handler returns the error of the source, the request it was given as it leaves it, and the
  operator's state, or it panics.
\<close>

definition secretsDir :: string where
  "secretsDir = ''/etc/fencing/secrets/''"

subsection \<open>Choosing a configuration\<close>

definition nodeInList :: "string \<Rightarrow> Node list \<Rightarrow> bool" where
  "nodeInList name nodes = list_ex (\<lambda>node. Name (n_ObjectMeta node) = name) nodes"

text \<open>
  The loop over \<open>fencingConfigs\<close>: \<open>i\<close> counts the iterations, \<open>threshold\<close> and \<open>chosen\<close> are the
  variables of the source. Reading the selector of a \<open>nil\<close> entry panics. A pointer to a cached
  configuration is its key with its value.
\<close>

fun config_loop ::
    "'w api \<Rightarrow> chooser \<Rightarrow> string \<Rightarrow> nat \<Rightarrow> (string \<times> FencingConfig option) list \<Rightarrow>
     int \<Rightarrow> (string \<times> FencingConfig) option \<Rightarrow> 'w opstate \<Rightarrow>
     ('w opstate, (string \<times> FencingConfig) option) outcome" where
  "config_loop K \<rho> target i [] threshold chosen s = Returned chosen s"
| "config_loop K \<rho> target i ((name, None) # cfgs) threshold chosen s = Panicked NilDeref s"
| "config_loop K \<rho> target i ((name, Some cfg) # cfgs) threshold chosen s =
     (if int (length (entries (NodeSelector cfg))) > threshold then
        (let ((err, nodes), s1) = ListNodes K (sub \<rho> i) (NodeSelector cfg) s
         in if err = None \<and> nodeInList target nodes
            then config_loop K \<rho> target (Suc i) cfgs
                   (int (length (entries (NodeSelector cfg)))) (Some (name, cfg)) s1
            else config_loop K \<rho> target (Suc i) cfgs threshold chosen s1)
      else config_loop K \<rho> target (Suc i) cfgs threshold chosen s)"

text \<open>
  The result holds the request as the call leaves it and what its \<open>Status.Config\<close> points to
  afterwards: the name in the cached configuration if the loop chose one
  (\<open>req.Status.Config = &chosen.Name\<close>), memory of its own or nothing otherwise.
\<close>

definition chooseFencingConfig ::
    "'w api \<Rightarrow> chooser \<Rightarrow> FencingRequest \<Rightarrow> 'w opstate \<Rightarrow>
     ('w opstate, (error option \<times> (string \<times> FencingConfig) option) \<times>
        FencingRequest \<times> string option) outcome" where
  "chooseFencingConfig K \<rho> req s =
     (case Option.bind (FencingRequestStatus.Config (Status req))
             (\<lambda>n. map_option (Pair n) (Option.bind (map_of (fencingConfigs s) n) (\<lambda>p. p))) of
        Some chosen \<Rightarrow> Returned ((None, Some chosen), req, None) s
      | None \<Rightarrow>
          (let req1 = req\<lparr>Status := (Status req)\<lparr>Config := None\<rparr>\<rparr> in
           and_then
             (config_loop K (sub \<rho> 1) (Target (Spec req)) 0
               (range_over (sub \<rho> 0) (fencingConfigs s)) (- 1) None s)
             (\<lambda>chosen s1.
               case chosen of
                 Some (key, cfg) \<Rightarrow>
                   Returned ((None, Some (key, cfg)),
                     req1\<lparr>Status := (Status req1)
                       \<lparr>Config := Some (Name (cfg_ObjectMeta cfg))\<rparr>\<rparr>, Some key) s1
               | None \<Rightarrow>
                   Returned ((Some (Errorf (''No valid config for '' @ Target (Spec req))), None),
                     req1, None) s1)))"

subsection \<open>Choosing a method\<close>

definition isFencingMethodActive ::
    "'w api \<Rightarrow> chooser \<Rightarrow> FencingRequest \<Rightarrow> FencingMethod \<Rightarrow> 'w opstate \<Rightarrow>
     bool \<times> 'w opstate" where
  "isFencingMethodActive K \<rho> req method s =
     (let ((err, jobs), s1) = ListJobs K \<rho> req (fm_Name method) s
      in if err \<noteq> None then (False, s1)
         else (list_ex (\<lambda>job. 0 < sint (Active job)) jobs, s1))"

text \<open>The chosen method comes with its index.\<close>

fun method_loop ::
    "'w api \<Rightarrow> chooser \<Rightarrow> FencingRequest \<Rightarrow> nat \<Rightarrow> nat \<Rightarrow> bool \<Rightarrow> FencingMethod list \<Rightarrow>
     'w opstate \<Rightarrow> (error option \<times> (nat \<times> FencingMethod) option \<times> bool) \<times> 'w opstate" where
  "method_loop K \<rho> req n lpc next_one [] s =
     ((Some (Errorf ''No remaining methods available''), None, True), s)"
| "method_loop K \<rho> req n lpc next_one (method # ms) s =
     (let final = (lpc + 1 = n) in
      case ActiveMethod (Status req) of
        None \<Rightarrow> ((None, Some (lpc, method), final), s)
      | Some active \<Rightarrow>
          if active = fm_Name method then
            (let (running, s1) = isFencingMethodActive K (sub \<rho> lpc) req method s
             in if running then ((None, Some (lpc, method), final), s1)
                else method_loop K \<rho> req n (Suc lpc) True ms s1)
          else if next_one then ((None, Some (lpc, method), final), s)
          else method_loop K \<rho> req n (Suc lpc) next_one ms s)"

definition chooseFencingMethod ::
    "'w api \<Rightarrow> chooser \<Rightarrow> FencingRequest \<Rightarrow> FencingConfig \<Rightarrow> 'w opstate \<Rightarrow>
     (error option \<times> (nat \<times> FencingMethod) option \<times> bool) \<times> 'w opstate" where
  "chooseFencingMethod K \<rho> req cfg s =
     method_loop K \<rho> req (length (Methods cfg)) 0 False (Methods cfg) s"

subsection \<open>Building the job\<close>

fun secrets_loop ::
    "(string \<times> string) list \<Rightarrow> Volume list \<Rightarrow> Container \<Rightarrow> Volume list \<times> Container" where
  "secrets_loop [] volumes c = (volumes, c)"
| "secrets_loop ((key, v) # kvs) volumes c =
     (let volumes1 = volumes @ [\<lparr>v_Name = ''secret-'' @ key, VolumeSource = Secret v\<rparr>];
          c1 = c\<lparr>Env := Env c @ [\<lparr>ev_Name = ''SECRETPATH_'' @ key,
                                    Value = secretsDir @ ''/'' @ v\<rparr>]\<rparr>;
          c2 = c1\<lparr>VolumeMounts := VolumeMounts c1 @
                 [\<lparr>vm_Name = ''secret-'' @ key, ReadOnly = True, MountPath = secretsDir @ v\<rparr>]\<rparr>
      in secrets_loop kvs volumes1 c2)"

definition processSecrets ::
    "chooser \<Rightarrow> FencingMechanism \<Rightarrow> Container \<Rightarrow> Volume list \<times> Container" where
  "processSecrets \<rho> mech c = secrets_loop (range_over \<rho> (entries (Secrets mech))) [] c"

fun job_loop ::
    "chooser \<Rightarrow> string \<Rightarrow> string \<Rightarrow> nat \<Rightarrow> FencingMechanism list \<Rightarrow> Volume list \<Rightarrow>
     Container list \<Rightarrow> panic + (error option \<times> Volume list \<times> Container list)" where
  "job_loop \<rho> target name i [] volumes containers = Inr (None, volumes, containers)"
| "job_loop \<rho> target name i (mech # mechs) volumes containers =
     (case CreateContainer (sub (sub \<rho> i) 0) mech target secretsDir of
        Inl p \<Rightarrow> Inl p
      | Inr (Some err, _) \<Rightarrow>
          Inr (Some (Errorf (''Method '' @ name @ '' aborted: '' @ err_text err)), [], [])
      | Inr (None, None) \<Rightarrow> Inl NilDeref
      | Inr (None, Some c) \<Rightarrow>
          (let (vs, c') = processSecrets (sub (sub \<rho> i) 1) mech c
           in job_loop \<rho> target name (Suc i) mechs (volumes @ vs) (containers @ [c'])))"

definition NewControllerRef :: "FencingRequest \<Rightarrow> OwnerReference" where
  "NewControllerRef req =
     \<lparr>or_APIVersion = ''fencing.clusterlabs.org/v1alpha1'', or_Kind = ''FencingRequest'',
      or_Name = Name (fr_ObjectMeta req), or_UID = UID (fr_ObjectMeta req),
      Controller = Some True, BlockOwnerDeletion = Some True\<rparr>"

definition createFencingJob ::
    "chooser \<Rightarrow> FencingRequest \<Rightarrow> FencingConfig \<Rightarrow> FencingMethod \<Rightarrow>
     panic + (error option \<times> Job option)" where
  "createFencingJob \<rho> req cfg method =
     (case job_loop \<rho> (Target (Spec req)) (fm_Name method) 0 (Mechanisms method) [] [] of
        Inl p \<Rightarrow> Inl p
      | Inr (Some err, _) \<Rightarrow> Inr (Some err, None)
      | Inr (None, volumes, containers) \<Rightarrow>
          Inr (None, Some
            \<lparr>j_TypeMeta = \<lparr>Kind = ''Job'', APIVersion = ''batch/v1''\<rparr>,
             j_ObjectMeta =
               \<lparr>Name = [], GenerateName = Name (fr_ObjectMeta req) @ ''-job-'',
                Namespace = Namespace (fr_ObjectMeta req), UID = [],
                Labels = Some (JobLabels req (fm_Name method)),
                OwnerReferences = [NewControllerRef req]\<rparr>,
             BackoffLimit = Some (Retries method), Containers = containers,
             RestartPolicy = ''OnFailure'', j_Volumes = volumes,
             Active = 0, Failed = 0, Succeeded = 0\<rparr>))"

subsection \<open>Reading only\<close>

lemma reads_isFencingMethodActive [simp]: "reads s (snd (isFencingMethodActive K \<rho> req m s))"
  using reads_queries(5) [of s K \<rho> req "fm_Name m"]
  by (auto simp: isFencingMethodActive_def split_beta Let_def)

text \<open>One iteration of the loop only reads and goes on with some values of its variables.\<close>

lemma config_loop_step:
  "\<exists>threshold' chosen' s1. reads s s1 \<and> chosen' \<in> {chosen, Some (n, cfg)} \<and>
     config_loop K \<rho> target i ((n, Some cfg) # cfgs) threshold chosen s =
     config_loop K \<rho> target (Suc i) cfgs threshold' chosen' s1"
proof -
  obtain err nodes s1 where q: "ListNodes K (sub \<rho> i) (NodeSelector cfg) s = ((err, nodes), s1)"
    by (metis surj_pair)
  have r: "reads s s1" using reads_queries(4) [of s K "sub \<rho> i" "NodeSelector cfg"] q by simp
  show ?thesis
  proof (cases "int (length (entries (NodeSelector cfg))) > threshold")
    case heavy: True
    show ?thesis
    proof (cases "err = None \<and> nodeInList target nodes")
      case True
      with heavy r show ?thesis
        by (intro exI [of _ "int (length (entries (NodeSelector cfg)))"] exI [of _ "Some (n, cfg)"] exI [of _ s1])
          (simp add: q)
    next
      case False
      with heavy r show ?thesis
        by (intro exI [of _ threshold] exI [of _ chosen] exI [of _ s1]) (auto simp: q)
    qed
  next
    case False
    then show ?thesis
      by (intro exI [of _ threshold] exI [of _ chosen] exI [of _ s]) simp
  qed
qed

lemma config_loop_frame:
  "reads s (final_state (config_loop K \<rho> target i cfgs threshold chosen s)) \<and>
   (panics (config_loop K \<rho> target i cfgs threshold chosen s) \<longleftrightarrow> None \<in> snd ` set cfgs)"
proof (induction cfgs arbitrary: i threshold chosen s)
  case (Cons nc cfgs)
  obtain n cp where nc: "nc = (n, cp)" by (cases nc)
  show ?case
  proof (cases cp)
    case (Some cfg)
    obtain th ch s1 where r: "reads s s1" and
      eq: "config_loop K \<rho> target i (nc # cfgs) threshold chosen s =
        config_loop K \<rho> target (Suc i) cfgs th ch s1"
      unfolding nc Some using config_loop_step by metis
    then show ?thesis
      using Cons.IH [of s1 "Suc i" th ch] only_trans [OF r] by (simp add: eq) (auto simp: nc Some)
  qed (simp add: nc)
qed simp

lemma reads_chooseFencingConfig:
  "reads s (final_state (chooseFencingConfig K \<rho> req s))"
  unfolding chooseFencingConfig_def Let_def
  by (auto intro!: only_and_then config_loop_frame [THEN conjunct1] split: option.split)

lemma reads_method_loop:
  "reads s (snd (method_loop K \<rho> req n lpc nx ms s))"
proof (induction ms arbitrary: lpc nx s)
  case (Cons m ms)
  note trans = only_trans [OF reads_isFencingMethodActive [of s K "sub \<rho> lpc" req m]]
  show ?case using Cons.IH
    by (auto simp: split_beta Let_def intro!: trans split: option.split)
qed simp

lemma reads_chooseFencingMethod [simp]:
  "reads s (snd (chooseFencingMethod K \<rho> req cfg s))"
  by (simp add: chooseFencingMethod_def reads_method_loop)

subsection \<open>The choice of a configuration\<close>

text \<open>The configuration a request already names, if it is still there.\<close>

definition assigned_config :: "FencingRequest \<Rightarrow> 'w opstate \<Rightarrow> FencingConfig option" where
  "assigned_config req s =
     Option.bind (FencingRequestStatus.Config (Status req))
       (\<lambda>n. Option.bind (map_of (fencingConfigs s) n) (\<lambda>p. p))"

lemma assigned_pointer:
  "Option.bind (FencingRequestStatus.Config (Status req))
     (\<lambda>n. map_option (Pair n) (Option.bind (map_of (fencingConfigs s) n) (\<lambda>p. p))) =
   map_option (Pair (the (FencingRequestStatus.Config (Status req)))) (assigned_config req s)"
  by (cases "FencingRequestStatus.Config (Status req)") (simp_all add: assigned_config_def)

lemma chooseFencingConfig_assigned:
  "assigned_config req s = Some c \<Longrightarrow> chooseFencingConfig K \<rho> req s =
     Returned ((None, Some (the (FencingRequestStatus.Config (Status req)), c)), req, None) s"
  by (simp add: chooseFencingConfig_def assigned_pointer)

lemma chooseFencingConfig_open:
  "assigned_config req s = None \<Longrightarrow> chooseFencingConfig K \<rho> req s =
     and_then (config_loop K (sub \<rho> 1) (Target (Spec req)) 0
         (range_over (sub \<rho> 0) (fencingConfigs s)) (- 1) None s)
       (\<lambda>chosen s1. case chosen of
           Some (key, cfg) \<Rightarrow> Returned ((None, Some (key, cfg)),
             req\<lparr>Status := (Status req)\<lparr>Config := Some (Name (cfg_ObjectMeta cfg))\<rparr>\<rparr>, Some key) s1
         | None \<Rightarrow> Returned ((Some (Errorf (''No valid config for '' @ Target (Spec req))), None),
             req\<lparr>Status := (Status req)\<lparr>Config := None\<rparr>\<rparr>, None) s1)"
  by (cases "config_loop K (sub \<rho> 1) (Target (Spec req)) 0
      (range_over (sub \<rho> 0) (fencingConfigs s)) (- 1) None s")
    (simp_all add: chooseFencingConfig_def assigned_pointer Let_def split: option.split)

text \<open>
  Whether a configuration applies to a node, when the server answers the node query for a
  selector always with \<open>reply\<close>.
\<close>

definition applies ::
    "(string \<Rightarrow> error option \<times> Node list) \<Rightarrow> string \<Rightarrow> FencingConfig \<Rightarrow> bool" where
  "applies reply target cfg =
     (let (err, nodes) = reply (selector_String (SelectorFromSet in_order (NodeSelector cfg)))
      in err = None \<and> nodeInList target nodes)"

definition steady_nodes :: "'w api \<Rightarrow> (string \<Rightarrow> error option \<times> Node list) \<Rightarrow> bool" where
  "steady_nodes K reply \<longleftrightarrow> (\<forall>sel w. fst (list_nodes K all_namespaces sel w) = reply sel)"

abbreviation weight :: "FencingConfig \<Rightarrow> nat" where
  "weight cfg \<equiv> length (entries (NodeSelector cfg))"

definition selectors_ok :: "(string \<times> FencingConfig option) list \<Rightarrow> bool" where
  "selectors_ok cfgs \<longleftrightarrow> (\<forall>n cfg. (n, Some cfg) \<in> set cfgs \<longrightarrow> m_ok (entries (NodeSelector cfg)))"

text \<open>When the choice crashes.\<close>

lemma choice_panics:
  "panics (chooseFencingConfig K \<rho> req s) \<longleftrightarrow>
   assigned_config req s = None \<and> None \<in> snd ` set (fencingConfigs s)"
proof (cases "assigned_config req s")
  case None
  let ?o = "config_loop K (sub \<rho> 1) (Target (Spec req)) 0
    (range_over (sub \<rho> 0) (fencingConfigs s)) (- 1) None s"
  have "panics ?o \<longleftrightarrow> None \<in> snd ` set (fencingConfigs s)"
    using config_loop_frame [of s K "sub \<rho> 1"] by simp
  then show ?thesis
    using None by (cases ?o) (auto simp: chooseFencingConfig_open split: option.splits)
qed (simp add: chooseFencingConfig_assigned)

lemma ListNodes_steady:
  assumes "steady_nodes K reply" and "m_ok (entries (NodeSelector cfg))"
  shows "\<exists>s1. ListNodes K \<rho> (NodeSelector cfg) s =
    (reply (selector_String (SelectorFromSet in_order (NodeSelector cfg))), s1)"
  using assms by (auto simp: ListNodes_def api_defs perform_def steady_nodes_def
      SelectorFromSet_eq Let_def split_beta prod_eq_iff)

text \<open>
  What the loop makes of its variables: the chosen configuration applies and weighs the
  threshold, and in the end no configuration that applies weighs more.
\<close>

lemma config_loop_best:
  assumes "steady_nodes K reply" and "selectors_ok cfgs"
    and "config_loop K \<rho> target i cfgs threshold chosen s = Returned r t"
    and "case chosen of None \<Rightarrow> threshold = - 1 | Some (k, c) \<Rightarrow> threshold = int (weight c)"
  shows "(r = chosen \<or> (\<exists>n c. r = Some (n, c) \<and> (n, Some c) \<in> set cfgs \<and> applies reply target c)) \<and>
    (case r of None \<Rightarrow> chosen = None | Some (k, c) \<Rightarrow> threshold \<le> int (weight c)) \<and>
    (\<forall>n c. (n, Some c) \<in> set cfgs \<and> applies reply target c \<longrightarrow>
       (\<exists>k b. r = Some (k, b) \<and> weight c \<le> weight b))"
  using assms
proof (induction cfgs arbitrary: i threshold chosen s)
  case Nil
  then show ?case by (auto split: option.splits)
next
  case (Cons nc cfgs)
  obtain n cp where nc: "nc = (n, cp)" by (cases nc)
  with Cons.prems(3) obtain c where c: "cp = Some c" by (cases cp) auto
  have ok: "m_ok (entries (NodeSelector c))" and oks: "selectors_ok cfgs"
    using Cons.prems(2) by (auto simp: selectors_ok_def nc c)
  obtain s1 where q: "ListNodes K (sub \<rho> i) (NodeSelector c) s =
      (reply (selector_String (SelectorFromSet in_order (NodeSelector c))), s1)"
    using ListNodes_steady [OF Cons.prems(1) ok] by blast
  have step: "config_loop K \<rho> target i (nc # cfgs) threshold chosen s =
      (if int (weight c) > threshold then
         if applies reply target c
         then config_loop K \<rho> target (Suc i) cfgs (int (weight c)) (Some (n, c)) s1
         else config_loop K \<rho> target (Suc i) cfgs threshold chosen s1
       else config_loop K \<rho> target (Suc i) cfgs threshold chosen s)"
    by (simp add: nc c q applies_def split_beta Let_def)
  note run = Cons.prems(3) [unfolded step]
  note IH = Cons.IH [OF Cons.prems(1) oks]
  show ?case
  proof (cases "int (weight c) > threshold")
    case True
    show ?thesis
    proof (cases "applies reply target c")
      case app: True
      have "config_loop K \<rho> target (Suc i) cfgs (int (weight c)) (Some (n, c)) s1 = Returned r t"
        using run True app by simp
      from IH [OF this] True app show ?thesis
        by (auto simp: nc c split: option.splits)
    next
      case app: False
      have "config_loop K \<rho> target (Suc i) cfgs threshold chosen s1 = Returned r t"
        using run True app by simp
      from IH [OF this Cons.prems(4)] app show ?thesis by (auto simp: nc c)
    qed
  next
    case False
    then have "config_loop K \<rho> target (Suc i) cfgs threshold chosen s = Returned r t"
      using run by simp
    note rest = IH [OF this Cons.prems(4)]
    from False have "\<exists>k b. chosen = Some (k, b) \<and> weight c \<le> weight b \<and> threshold = int (weight b)"
      using Cons.prems(4) by (cases chosen) auto
    with rest show ?thesis
      by (fastforce simp: nc c split: option.splits)
  qed
qed


subsection \<open>The choice of a method\<close>

lemma method_loop_skip:
  "ActiveMethod (Status req) = Some a \<Longrightarrow> a \<notin> fm_Name ` set ms1 \<Longrightarrow>
   method_loop K \<rho> req n lpc False (ms1 @ ms2) s =
   method_loop K \<rho> req n (lpc + length ms1) False ms2 s"
  by (induction ms1 arbitrary: lpc) auto

subsection \<open>The job of a method\<close>

lemma secrets_loop_eq:
  "secrets_loop kvs volumes c =
     (volumes @ map (\<lambda>(k, v). \<lparr>v_Name = ''secret-'' @ k, VolumeSource = Secret v\<rparr>) kvs,
      c\<lparr>Env := Env c @ map (\<lambda>(k, v). \<lparr>ev_Name = ''SECRETPATH_'' @ k,
                                    Value = secretsDir @ ''/'' @ v\<rparr>) kvs,
        VolumeMounts := VolumeMounts c @ map (\<lambda>(k, v). \<lparr>vm_Name = ''secret-'' @ k,
                                    ReadOnly = True, MountPath = secretsDir @ v\<rparr>) kvs\<rparr>)"
  by (induction kvs volumes c rule: secrets_loop.induct) simp_all

text \<open>
  \<open>built target mech c\<close>: \<open>c\<close> is a container the loop makes of \<open>mech\<close> for \<open>target\<close>.
\<close>

definition built :: "string \<Rightarrow> FencingMechanism \<Rightarrow> Container \<Rightarrow> bool" where
  "built target mech c \<longleftrightarrow>
     (\<exists>\<rho> \<rho>' c0. CreateContainer \<rho> mech target secretsDir = Inr (None, Some c0) \<and>
        c = snd (processSecrets \<rho>' mech c0))"

lemma job_loop_success:
  "job_loop \<rho> target name i mechs vs cs = Inr (None, volumes, containers) \<Longrightarrow>
   \<exists>cs'. containers = cs @ cs' \<and> list_all2 (built target) mechs cs'"
proof (induction mechs arbitrary: i vs cs)
  case (Cons mech mechs)
  obtain c0 where c0: "CreateContainer (sub (sub \<rho> i) 0) mech target secretsDir =
      Inr (None, Some c0)"
    using Cons.prems by (auto split: sum.splits prod.splits option.splits)
  obtain ws c where pc: "processSecrets (sub (sub \<rho> i) 1) mech c0 = (ws, c)"
    by (metis surj_pair)
  have "built target mech c" using c0 pc unfolding built_def by (metis snd_conv)
  moreover obtain cs' where "containers = (cs @ [c]) @ cs'" "list_all2 (built target) mechs cs'"
    using Cons.IH [of "Suc i" "vs @ ws" "cs @ [c]"] Cons.prems by (auto simp: c0 pc simp del: One_nat_def)
  ultimately show ?case by auto
qed simp

text \<open>The command of a container starts with the configured one.\<close>

lemma built_command:
  assumes "built target mech c" and "mech_Container mech = Some c0"
  shows "\<exists>rest. Command c = Command c0 @ rest"
proof -
  obtain \<rho> \<rho>' d where d: "CreateContainer \<rho> mech target secretsDir = Inr (None, Some d)"
    and c: "c = snd (processSecrets \<rho>' mech d)"
    using assms(1) by (auto simp: built_def)
  have "Command c = Command d" by (simp add: c processSecrets_def secrets_loop_eq)
  moreover have "\<exists>rest. Command d = Command c0 @ rest"
    using d assms(2)
    by (auto simp: CreateContainer_def getContainerCommand_def Let_def config_args_eq args.loop_eq
        split: if_splits sum.splits prod.splits option.splits)
  ultimately show ?thesis by simp
qed

lemma built_env_command:
  assumes "built target mech c" and "mech_Container mech = Some c0" and "ArgumentFormat mech = ''env''"
  shows "Command c = Command c0"
proof -
  obtain \<rho> \<rho>' d where d: "CreateContainer \<rho> mech target secretsDir = Inr (None, Some d)"
    and c: "c = snd (processSecrets \<rho>' mech d)"
    using assms(1) by (auto simp: built_def)
  have "Command d = Command c0"
    using d assms(2,3)
    by (auto simp: CreateContainer_def getContainerCommand_def Let_def
        split: if_splits sum.splits prod.splits option.splits)
  then show ?thesis by (simp add: c processSecrets_def secrets_loop_eq)
qed

lemma createFencingJob_built:
  assumes "createFencingJob \<rho> req cfg m = Inr (None, Some j)"
  shows "list_all2 (built (Target (Spec req))) (Mechanisms m) (Containers j)"
proof -
  obtain vs where "job_loop \<rho> (Target (Spec req)) (fm_Name m) 0 (Mechanisms m) [] [] =
      Inr (None, vs, Containers j)"
    using assms by (auto simp: createFencingJob_def split: sum.splits prod.splits option.splits)
  from job_loop_success [OF this] show ?thesis by auto
qed

lemma createFencingJob_extends:
  "createFencingJob \<rho> req cfg m = Inr (None, Some j) \<Longrightarrow> extends (Mechanisms m) (Containers j)"
  unfolding extends_def
  by (rule list.rel_mono_strong [OF createFencingJob_built]) (assumption, blast intro: built_command)

lemma job_loop_no_panic:
  "\<forall>mech \<in> set mechs. mech_Container mech \<noteq> None \<Longrightarrow>
   (\<exists>r. job_loop \<rho> target name i mechs vs cs = Inr r)"
proof (induction mechs arbitrary: i vs cs)
  case (Cons mech mechs)
  have "CreateContainer (sub (sub \<rho> i) 0) mech target secretsDir \<noteq> Inl p" for p
    using Cons.prems
    by (auto simp: CreateContainer_def getContainerCommand_def getContainerEnv_def Let_def
        args.loop_eq envs.loop_eq split: option.splits)
  moreover have "CreateContainer (sub (sub \<rho> i) 0) mech target secretsDir \<noteq> Inr (None, None)"
    by (auto simp: CreateContainer_def split: sum.splits prod.splits option.splits)
  ultimately show ?case using Cons
    by (auto split: sum.splits prod.splits option.splits)
qed simp

text \<open>The environment of a container the loop makes holds every secret's path twice.\<close>

lemma built_env_secrets:
  assumes "built target mech c" and "(k, v) \<in> set (entries (Secrets mech))"
  shows "2 \<le> count_list (Env c)
    \<lparr>ev_Name = ''SECRETPATH_'' @ k, Value = secretsDir @ ''/'' @ v\<rparr>" (is "_ \<le> count_list _ ?e")
proof -
  let ?f = "\<lambda>(n, v). \<lparr>ev_Name = ''SECRETPATH_'' @ n, Value = secretsDir @ ''/'' @ v\<rparr>"
  obtain \<rho> \<rho>' c0 where c0: "CreateContainer \<rho> mech target secretsDir = Inr (None, Some c0)"
    and c: "c = snd (processSecrets \<rho>' mech c0)"
    using assms(1) by (auto simp: built_def)
  obtain d where d: "mech_Container mech = Some d"
    and env: "getContainerEnv (sub \<rho> 1) mech target secretsDir = Inr (None, Env c0)"
    using CreateContainer_ok [OF c0] by auto
  have "Env c = \<lparr>ev_Name = ''SECRET_FORMAT'', Value = ArgumentFormat mech\<rparr> # Env d @
      map ?f (range_over (sub (sub \<rho> 1) 0) (entries (Secrets mech))) @
      env_tail (sub \<rho> 1) mech target @ map ?f (range_over \<rho>' (entries (Secrets mech)))"
    using getContainerEnv_shape [OF env d] by (simp add: c processSecrets_def secrets_loop_eq)
  then obtain pre mid where "Env c =
      pre @ map ?f (range_over (sub (sub \<rho> 1) 0) (entries (Secrets mech))) @ mid @
      map ?f (range_over \<rho>' (entries (Secrets mech)))"
    by (metis append_Cons)
  moreover have "1 \<le> count_list (map ?f (range_over \<sigma> (entries (Secrets mech)))) ?e" for \<sigma>
  proof -
    have "?e \<in> set (map ?f (range_over \<sigma> (entries (Secrets mech))))"
      using assms(2) by (force simp: image_iff)
    then have "count_list (map ?f (range_over \<sigma> (entries (Secrets mech)))) ?e \<noteq> 0"
      by (simp only: count_list_0_iff) simp
    then show ?thesis by linarith
  qed
  note this [of \<rho>'] this [of "sub (sub \<rho> 1) 0"]
  ultimately show ?thesis by (simp only: count_list_append)
qed

subsection \<open>Selecting jobs\<close>

lemma JobLabels_target: "map_of (JobLabels req m) ''target'' = Some (Target (Spec req))"
  by (auto simp: JobLabels_def Let_def simp del: m_put.simps split: option.split)

lemma long_target_selects_all:
  assumes "63 < length (Target (Spec req))"
  shows "SelectorFromSet \<rho> (Some (JobLabels req m)) = []"
proof -
  have mem: "(''target'', Target (Spec req)) \<in> set (JobLabels req m)"
    using JobLabels_target by (rule map_of_SomeD)
  have "\<not> NewRequirement_ok ''target'' (Target (Spec req))"
    using assms by (simp add: NewRequirement_ok_def IsValidLabelValue_def)
  then have "\<not> labels_valid (JobLabels req m)"
    unfolding labels_valid_def list_all_iff using bspec [OF _ mem] by blast
  then show ?thesis by (simp add: SelectorFromSet_eq gomap_rules)
qed


end
