(* ===== verification/Samples.thy ===== *)
theory Samples
  imports Fencing
begin

section \<open>A concrete server and concrete objects\<close>

text \<open>
  Values at which the properties with hypotheses are instantiated: a server without state
  that answers every node query with the nodes given, every job query with the jobs given and
  every write with success and the object as it was sent, and small nodes, methods,
  configurations and requests.
\<close>

definition quiet_api :: "Node list \<Rightarrow> Job list \<Rightarrow> FencingRequest list \<Rightarrow> Pod list \<Rightarrow> unit api" where
  "quiet_api nodes jobs reqs pods =
     \<lparr>list_nodes = (\<lambda>ns sel w. ((None, nodes), w)),
      list_jobs = (\<lambda>ns sel w. ((None, jobs), w)),
      list_pods = (\<lambda>ns sel w. ((None, pods), w)),
      list_requests = (\<lambda>ns sel w. ((None, reqs), w)),
      get_node = (\<lambda>name w.
        ((None, \<lparr>n_ObjectMeta = empty_meta\<lparr>Name := name\<rparr>, Conditions = []\<rparr>), w)),
      get_pvc = (\<lambda>name w. (None, w)),
      create_job = (\<lambda>job w. ((None, job), w)),
      create_request = (\<lambda>req w. ((None, req), w)),
      update_request = (\<lambda>req w. ((None, req), w)),
      delete_request = (\<lambda>req w. (None, w)),
      time_now = (\<lambda>w. (''now'', w)),
      time_sleep = (\<lambda>d w. w),
      backoff_jitter = (\<lambda>d j w. (d, w)),
      float_scale = (\<lambda>d f. \<lfloor>of_int d * f\<rfloor>),
      slice_capacity = (\<lambda>n. n)\<rparr>"

definition sample_node :: "string \<Rightarrow> Node" where
  "sample_node name = \<lparr>n_ObjectMeta = empty_meta\<lparr>Name := name\<rparr>, Conditions = []\<rparr>"

definition sample_method :: "string \<Rightarrow> FencingMethod" where
  "sample_method name =
     \<lparr>fm_Name = name, StopOnSuccess = True, RequireAfterSeconds = Some 0, Retries = 1,
      Mechanisms = [sample_mechanism ''cli'']\<rparr>"

definition sample_config :: "string \<Rightarrow> strmap option \<Rightarrow> FencingMethod list \<Rightarrow> FencingConfig" where
  "sample_config name sel ms =
     \<lparr>cfg_ObjectMeta = empty_meta\<lparr>Name := name\<rparr>, NodeSelector = sel, Methods = ms\<rparr>"

definition sample_request :: "string option \<Rightarrow> FencingRequest" where
  "sample_request active =
     \<lparr>fr_TypeMeta = \<lparr>Kind = ''FencingRequest'',
        APIVersion = ''fencing.clusterlabs.org/v1alpha1''\<rparr>,
      fr_ObjectMeta = empty_meta\<lparr>Name := ''req-1'', Namespace := ''test''\<rparr>,
      Spec = \<lparr>Target = ''somehost'', Origin = ''lost'', Operation = ''Off'', PodList = [],
        ValidAfter = 0\<rparr>,
      Status = empty_status\<lparr>ActiveMethod := active\<rparr>\<rparr>"

definition sample_state :: "(string, FencingConfig option) gomap \<Rightarrow> unit opstate" where
  "sample_state cfgs = \<lparr>world = (), fencingConfigs = cfgs, calls = []\<rparr>"

lemmas sample_defs = quiet_api_def sample_node_def sample_method_def sample_config_def
  sample_request_def sample_state_def empty_meta_def empty_status_def

end
