(* ===== verification/Fencing_Props.thy ===== *)
theory Fencing_Props
  imports Samples
begin

section \<open>Properties of choosing a configuration and a method and of building the job\<close>

text \<open>
  What \<open>chooseFencingConfig\<close>, \<open>chooseFencingMethod\<close>, \<open>createFencingJob\<close> and
  \<open>isFencingMethodActive\<close> of \<open>pkg/stub/fencing.go\<close> compute, for any server.
\<close>

subsection \<open>Properties of the choice of configuration and method\<close>

text \<open>Choosing a configuration crashes exactly when the request does not name a loaded
  one and some entry of the cache is \<open>nil\<close>, which is what a deleted or invalid ConfigMap
  leaves behind.\<close>

theorem chooseFencingConfig_panics_iff:
  "panics (chooseFencingConfig K \<rho> req s) \<longleftrightarrow>
   assigned_config req s = None \<and> None \<in> snd ` set (fencingConfigs s)"
  by (rule choice_panics)

text \<open>C18: a configuration chosen for a request without one applies to the target, no loaded
  configuration that applies has more labels in its selector, and the request names it
  afterwards, by a pointer to its name in the cache; if none applies the request fails. This holds whatever order the cache is
  ranged over, for a server that answers a node query the same way throughout.\<close>

theorem chooseFencingConfig_most_specific:
  assumes "steady_nodes K reply" and "selectors_ok (fencingConfigs s)"
    and "assigned_config req s = None"
    and "chooseFencingConfig K \<rho> req s = Returned ((err, cfg_ptr), req', p) t"
  shows "case cfg_ptr of
      Some (key, c) \<Rightarrow> err = None \<and> (key, Some c) \<in> set (fencingConfigs s) \<and> p = Some key \<and>
        applies reply (Target (Spec req)) c \<and>
        (\<forall>n c'. (n, Some c') \<in> set (fencingConfigs s) \<and> applies reply (Target (Spec req)) c' \<longrightarrow>
           weight c' \<le> weight c) \<and>
        FencingRequestStatus.Config (Status req') = Some (Name (cfg_ObjectMeta c))
    | None \<Rightarrow> err = Some (Errorf (''No valid config for '' @ Target (Spec req))) \<and> p = None \<and>
        FencingRequestStatus.Config (Status req') = None \<and>
        (\<forall>n c'. (n, Some c') \<in> set (fencingConfigs s) \<longrightarrow> \<not> applies reply (Target (Spec req)) c')"
proof -
  let ?cfgs = "range_over (sub \<rho> 0) (fencingConfigs s)"
  obtain r where
    loop: "config_loop K (sub \<rho> 1) (Target (Spec req)) 0 ?cfgs (- 1) None s = Returned r t"
    and res: "(err, cfg_ptr) = (case r of
       Some kc \<Rightarrow> (None, Some kc)
     | None \<Rightarrow> (Some (Errorf (''No valid config for '' @ Target (Spec req))), None))"
    and req': "FencingRequestStatus.Config (Status req') =
       map_option (\<lambda>(k, c). Name (cfg_ObjectMeta c)) r" "p = map_option fst r"
    using assms(4) unfolding chooseFencingConfig_open [OF assms(3)]
    by (cases "config_loop K (sub \<rho> 1) (Target (Spec req)) 0 ?cfgs (- 1) None s")
      (auto split: option.splits)
  have "selectors_ok ?cfgs" using assms(2) by (simp add: selectors_ok_def)
  from config_loop_best [OF assms(1) this loop] res req' show ?thesis
    by (auto split: option.splits)
qed

definition two_configs :: "(string, FencingConfig option) gomap" where
  "two_configs =
     [(''all'', Some (sample_config ''all'' None [sample_method ''m1''])),
      (''one'', Some (sample_config ''one'' (Some [(''host'', ''somehost'')]) [sample_method ''m2'']))]"

theorem chooseFencingConfig_most_specific_witness:
  "\<exists>req' t. chooseFencingConfig (quiet_api [sample_node ''somehost''] [] [] []) in_order
      (sample_request None) (sample_state two_configs) =
        Returned ((None, Some (''one'', sample_config ''one'' (Some [(''host'', ''somehost'')])
          [sample_method ''m2''])), req', Some ''one'') t \<and>
      FencingRequestStatus.Config (Status req') = Some ''one''"
proof -
  let ?K = "quiet_api [sample_node ''somehost''] [] [] []" and ?s = "sample_state two_configs"
  let ?c = "sample_config ''one'' (Some [(''host'', ''somehost'')]) [sample_method ''m2'']"
  have K: "steady_nodes ?K (\<lambda>sel. (None, [sample_node ''somehost'']))"
    by (simp add: steady_nodes_def quiet_api_def)
  have sel: "selectors_ok (fencingConfigs ?s)"
    by (auto simp: selectors_ok_def two_configs_def sample_defs m_ok_def)
  have un: "assigned_config (sample_request None) ?s = None"
    by (simp add: assigned_config_def sample_defs)
  obtain req' t where run: "chooseFencingConfig ?K in_order (sample_request None) ?s =
      Returned ((None, Some (''one'', ?c)), req', Some ''one'') t"
    by (simp add: chooseFencingConfig_def two_configs_def sample_defs ListNodes_def api_defs
        perform_def note_call_def nodeInList_def)
  from chooseFencingConfig_most_specific [OF K sel un run] run show ?thesis
    by (simp add: sample_defs)
qed

text \<open>With a method active, the choice is that method while one of its jobs runs and
  otherwise the one listed after it; after the last one there is none. Method names are
  assumed to be distinct from the active one's elsewhere in the list.\<close>

theorem chooseFencingMethod_next:
  assumes "Methods cfg = ms1 @ m # ms2" and "ActiveMethod (Status req) = Some (fm_Name m)"
    and "fm_Name m \<notin> fm_Name ` set ms1" and "fm_Name m \<notin> fm_Name ` set ms2"
  shows "fst (chooseFencingMethod K \<rho> req cfg s) =
    (if fst (isFencingMethodActive K (sub \<rho> (length ms1)) req m s) then (None, Some (length ms1, m), ms2 = [])
     else case ms2 of
       [] \<Rightarrow> (Some (Errorf ''No remaining methods available''), None, True)
     | m' # rest \<Rightarrow> (None, Some (Suc (length ms1), m'), rest = []))"
  using assms method_loop_skip [OF assms(2,3), of K \<rho> "length (Methods cfg)" 0 "m # ms2" s]
  by (auto simp: chooseFencingMethod_def split_beta Let_def split: list.splits)

theorem chooseFencingMethod_next_witness:
  "fst (chooseFencingMethod (quiet_api [] [] [] []) in_order (sample_request (Some ''m1''))
     (sample_config ''c'' None [sample_method ''m1'', sample_method ''m2'']) (sample_state [])) =
   (None, Some (1, sample_method ''m2''), True)"
proof -
  have "fst (isFencingMethodActive (quiet_api [] [] [] []) in_order (sample_request (Some ''m1''))
      (sample_method ''m1'') (sample_state [])) = False"
    by (simp add: isFencingMethodActive_def ListJobs_def api_defs perform_def quiet_api_def Let_def)
  then show ?thesis
    using chooseFencingMethod_next [of "sample_config ''c'' None [sample_method ''m1'', sample_method ''m2'']"
        "[]" "sample_method ''m1''" "[sample_method ''m2'']" "sample_request (Some ''m1'')"
        "quiet_api [] [] [] []" in_order "sample_state []"]
    by (simp add: sample_method_def sample_config_def sample_request_def)
qed

subsection \<open>Properties of the job\<close>

text \<open>C36: a job built for a request runs one container per mechanism of the method, in order,
  each made of its mechanism for the request's target; it retries as often as the method says,
  is owned by the request and carries the labels its method's jobs are found by. Building it
  never crashes when every mechanism has a container.\<close>

theorem createFencingJob_shape:
  assumes "\<forall>mech \<in> set (Mechanisms method). mech_Container mech \<noteq> None"
  shows "(\<exists>e. createFencingJob \<rho> req cfg method = Inr (Some e, None)) \<or>
    (\<exists>job. createFencingJob \<rho> req cfg method = Inr (None, Some job) \<and>
      list_all2 (built (Target (Spec req))) (Mechanisms method) (Containers job) \<and>
      BackoffLimit job = Some (Retries method) \<and>
      Labels (j_ObjectMeta job) = Some (JobLabels req (fm_Name method)) \<and>
      OwnerReferences (j_ObjectMeta job) = [NewControllerRef req] \<and>
      Namespace (j_ObjectMeta job) = Namespace (fr_ObjectMeta req))"
proof -
  obtain e vs cs where r:
    "job_loop \<rho> (Target (Spec req)) (fm_Name method) 0 (Mechanisms method) [] [] = Inr (e, vs, cs)"
    using job_loop_no_panic [OF assms] by (metis surj_pair)
  show ?thesis
  proof (cases e)
    case None
    with r show ?thesis using job_loop_success [OF r [unfolded None]]
      by (simp add: createFencingJob_def)
  qed (simp add: createFencingJob_def r)
qed

theorem createFencingJob_shape_witness:
  "\<exists>job. createFencingJob in_order (sample_request None) (sample_config ''c'' None [])
      (sample_method ''m1'') = Inr (None, Some job) \<and> length (Containers job) = 1"
proof -
  have ok: "\<forall>mech \<in> set (Mechanisms (sample_method ''m1'')). mech_Container mech \<noteq> None"
    by (simp add: sample_method_def sample_mechanism_def)
  have no: "\<nexists>e. createFencingJob in_order (sample_request None) (sample_config ''c'' None [])
      (sample_method ''m1'') = Inr (Some e, None)"
    by (simp add: createFencingJob_def CreateContainer_def getContainerCommand_def
        getContainerEnv_def sample_defs sample_mechanism_def sample_dynamic_def Lookup_def
        processSecrets_def)
  show ?thesis
    using createFencingJob_shape [OF ok, of in_order "sample_request None" "sample_config ''c'' None []"]
      no by (auto simp: sample_method_def dest: list_all2_lengthD)
qed

text \<open>Every secret of a mechanism ends up twice in the environment of its container, once
  from \<open>getContainerEnv\<close> and once from \<open>processSecrets\<close>.\<close>

theorem createFencingJob_secret_twice:
  assumes "createFencingJob \<rho> req cfg method = Inr (None, Some job)"
    and "i < length (Mechanisms method)"
    and "(k, v) \<in> set (entries (Secrets (Mechanisms method ! i)))"
  shows "i < length (Containers job) \<and> 2 \<le> count_list (Env (Containers job ! i))
    \<lparr>ev_Name = ''SECRETPATH_'' @ k, Value = secretsDir @ ''/'' @ v\<rparr>"
proof -
  obtain vs cs where r: "job_loop \<rho> (Target (Spec req)) (fm_Name method) 0 (Mechanisms method) [] [] =
      Inr (None, vs, cs)" and cs: "Containers job = cs"
    using assms(1) by (auto simp: createFencingJob_def split: sum.splits prod.splits option.splits)
  have "list_all2 (built (Target (Spec req))) (Mechanisms method) cs"
    using job_loop_success [OF r] by simp
  then show ?thesis
    using assms(2,3) built_env_secrets by (auto simp: cs list_all2_conv_all_nth)
qed

theorem createFencingJob_secret_twice_witness:
  "\<exists>job. createFencingJob in_order (sample_request None) (sample_config ''c'' None [])
      (sample_method ''m1'') = Inr (None, Some job) \<and>
    2 \<le> count_list (Env (Containers job ! 0))
      \<lparr>ev_Name = ''SECRETPATH_password'', Value = secretsDir @ ''/ipmi-secret''\<rparr>"
proof -
  obtain job where job: "createFencingJob in_order (sample_request None)
      (sample_config ''c'' None []) (sample_method ''m1'') = Inr (None, Some job)"
    by (simp add: createFencingJob_def CreateContainer_def getContainerCommand_def
        getContainerEnv_def sample_defs sample_mechanism_def sample_dynamic_def Lookup_def
        processSecrets_def)
  from createFencingJob_secret_twice [OF job, of 0 "''password''" "''ipmi-secret''"] job show ?thesis
    by (simp add: sample_method_def sample_mechanism_def)
qed

text \<open>C40: for a target whose name has more than 63 characters the query for the jobs of a
  method has an empty selector, so any active job in the namespace counts as one of them.\<close>

theorem long_target_sees_every_job:
  assumes "63 < length (Target (Spec req))"
  shows "new_calls s (snd (isFencingMethodActive K \<rho> req method s)) =
      [QueryJobs (Namespace (fr_ObjectMeta req)) []] \<and>
    (fst (isFencingMethodActive K \<rho> req method s) \<longleftrightarrow>
       (let (err, jobs) = fst (list_jobs K (Namespace (fr_ObjectMeta req)) [] (world s))
        in err = None \<and> (\<exists>job \<in> set jobs. 0 < sint (Active job))))"
proof -
  have q: "ListJobs K \<rho> req (fm_Name method) s = query_List_jobs K (Namespace (fr_ObjectMeta req)) [] s"
    by (simp add: ListJobs_def long_target_selects_all [OF assms] selector_String_def)
  show ?thesis
    by (simp add: isFencingMethodActive_def q query_List_jobs_def split_beta Let_def)
      (auto simp: perform_def split_beta Let_def list_ex_iff)
qed

theorem long_target_sees_every_job_witness:
  "fst (isFencingMethodActive
     (quiet_api [] [\<lparr>j_TypeMeta = \<lparr>Kind = [], APIVersion = []\<rparr>, j_ObjectMeta = empty_meta,
        BackoffLimit = None, Containers = [], RestartPolicy = [], j_Volumes = [],
        Active = 1, Failed = 0, Succeeded = 0\<rparr>] [] [])
     in_order
     ((sample_request None)\<lparr>Spec := (Spec (sample_request None))\<lparr>Target := replicate 64 CHR ''a''\<rparr>\<rparr>)
     (sample_method ''m1'') (sample_state []))"
  using long_target_sees_every_job [of
      "(sample_request None)\<lparr>Spec := (Spec (sample_request None))\<lparr>Target := replicate 64 CHR ''a''\<rparr>\<rparr>"
      "sample_state []" "quiet_api [] [\<lparr>j_TypeMeta = \<lparr>Kind = [], APIVersion = []\<rparr>,
        j_ObjectMeta = empty_meta, BackoffLimit = None, Containers = [], RestartPolicy = [],
        j_Volumes = [], Active = 1, Failed = 0, Succeeded = 0\<rparr>] [] []"
      in_order "sample_method ''m1''"]
  by (simp add: quiet_api_def)

end
