(* ===== verification/Fencing_Handlers.thy ===== *)
theory Fencing_Handlers
  imports Fencing
begin

section \<open>The handlers for requests, jobs and ConfigMaps (pkg/stub/fencing.go)\<close>

text \<open>
  Each handler is the whole Go function: its guards in order, every call that reaches the
  cluster, every write to the request and to \<open>fencingConfigs\<close>. Log lines are left out unless
  forming their arguments can panic.
\<close>

subsection \<open>HandleFencingRequest\<close>

text \<open>
  \<open>p\<close> says what \<open>Status.Config\<close> of the request points to (\<open>chooseFencingConfig\<close>). The log line of
  both branches reads \<open>method.Name\<close>, so a \<open>nil\<close> method panics
  there.
\<close>

definition HandleFencingRequestError ::
    "'w api \<Rightarrow> string option \<Rightarrow> FencingRequest \<Rightarrow> FencingMethod option \<Rightarrow> error option \<Rightarrow> bool \<Rightarrow>
     'w opstate \<Rightarrow> ('w opstate, bool \<times> FencingRequest) outcome" where
  "HandleFencingRequestError K p req method err final s =
     (if err \<noteq> None \<and> final then
        (case method of
           None \<Rightarrow> Panicked NilDeref s
         | Some m \<Rightarrow>
             (let (req1, s1) = SetFinalResult K p req RequestFailed err s
              in Returned (True, req1) s1))
      else if err \<noteq> None then
        (case method of
           None \<Rightarrow> Panicked NilDeref s
         | Some m \<Rightarrow>
             (let (req1, s1) = AddResult K p req (fm_Name m) RequestFailed err s
              in Returned (True, req1) s1))
      else Returned (False, req) s)"

text \<open>
  The closure around \<open>action.Create(job)\<close>; on success it points \<open>req.Status.ActiveJob\<close> to the
  name in the job, which the server may have filled in. \<open>b\<close> is the key of the configuration and
  the index of the method that the job was built from.
\<close>

definition create_job_closure ::
    "'w api \<Rightarrow> string \<times> nat \<Rightarrow> (Job \<times> FencingRequest) \<times> 'w opstate \<Rightarrow>
     (bool \<times> error option) \<times> (Job \<times> FencingRequest) \<times> 'w opstate" where
  "create_job_closure K b st =
     (let ((job, req), s) = st; ((err, job'), s') = action_Create_job K b job s
      in if err \<noteq> None \<and> \<not> IsAlreadyExists err then ((False, err), ((job', req), s'))
         else ((True, None),
           ((job', req\<lparr>Status := (Status req)
                        \<lparr>ActiveJob := Some (Name (j_ObjectMeta job'))\<rparr>\<rparr>), s')))"

text \<open>
  The part of \<open>HandleFencingRequest\<close> after a method has been chosen: \<open>key\<close> and \<open>i\<close> are the places
  of the configuration in the cache and of the method in the configuration.
\<close>

definition schedule_job ::
    "'w api \<Rightarrow> chooser \<Rightarrow> string option \<Rightarrow> FencingRequest \<Rightarrow> string \<Rightarrow> FencingConfig \<Rightarrow> nat \<Rightarrow>
     FencingMethod \<Rightarrow> bool \<Rightarrow> 'w opstate \<Rightarrow> ('w opstate, error option \<times> FencingRequest) outcome" where
  "schedule_job K \<rho> p req key cfg i method final s =
     (let (running, s1) = isFencingMethodActive K (sub \<rho> 2) req method s in
      if running then Returned (None, req) s1
      else
       (case createFencingJob (sub \<rho> 3) req cfg method of
          Inl e \<Rightarrow> Panicked e s1
        | Inr (err, job_ptr) \<Rightarrow>
            and_then (HandleFencingRequestError K p req (Some method) err final s1)
             (\<lambda>(handled, req1) s2.
               if handled then Returned (err, req1) s2
               else
                (case job_ptr of
                   None \<Rightarrow> Panicked NilDeref s2
                 | Some job \<Rightarrow>
                     (let (err2, (job', req2), s3) =
                            ExponentialBackoff (api_clock K) defaultBackoff
                              (create_job_closure K (key, i)) ((job, req1), s2)
                      in and_then
                           (HandleFencingRequestError K p req2 (Some method) err2 final s3)
                           (\<lambda>(handled2, req3) s4.
                             if handled2 then Returned (err2, req3) s4
                             else
                              (let (req4, s5) = AddResult K p req3 (fm_Name method)
                                     MethodProgress
                                     (Some (Errorf (fm_Name method @ '' initiated as '' @
                                        Name (j_ObjectMeta job')))) s4
                               in Returned (None, req4) s5)))))))"

definition HandleFencingRequest ::
    "'w api \<Rightarrow> chooser \<Rightarrow> FencingRequest \<Rightarrow> bool \<Rightarrow> 'w opstate \<Rightarrow>
     ('w opstate, error option \<times> FencingRequest) outcome" where
  "HandleFencingRequest K \<rho> req deleted s =
     (if deleted then Returned (None, req) s
      else if Complete (Status req) then Returned (None, req) s
      else
        and_then (chooseFencingConfig K (sub \<rho> 0) req s)
         (\<lambda>((err, cfg_ptr), req1, p) s1.
           if err \<noteq> None then
             (let (req2, s2) = SetFinalResult K p req1 RequestFailedNoConfig err s1
              in Returned (err, req2) s2)
           else
            (case cfg_ptr of
               None \<Rightarrow> Panicked NilDeref s1
             | Some (key, cfg) \<Rightarrow>
                 (let ((err2, method, final), s2) =
                        chooseFencingMethod K (sub \<rho> 1) req1 cfg s1
                  in and_then (HandleFencingRequestError K p req1 (map_option snd method) err2 final s2)
                      (\<lambda>(handled, req2) s3.
                        if handled then Returned (err2, req2) s3
                        else
                         (case method of
                            None \<Rightarrow> Panicked NilDeref s3
                          | Some (i, m) \<Rightarrow> schedule_job K \<rho> p req2 key cfg i m final s3))))))"

subsection \<open>HandleFencingJob and HandleJob\<close>

definition job_complete :: "Job \<Rightarrow> error" where
  "job_complete job = Errorf (Name (j_ObjectMeta job) @ '' complete'')"

definition HandleFencingJob ::
    "'w api \<Rightarrow> chooser \<Rightarrow> FencingRequest \<Rightarrow> Job \<Rightarrow> bool \<Rightarrow> 'w opstate \<Rightarrow>
     ('w opstate, error option \<times> FencingRequest) outcome" where
  "HandleFencingJob K \<rho> req job deleted s =
     (if Active job = 0 \<and> Failed job = 0 \<and> Succeeded job = 0 then Returned (None, req) s
      else if Complete (Status req) then Returned (None, req) s
      else if ActiveJob (Status req) \<noteq> None \<and>
              ActiveJob (Status req) \<noteq> Some (Name (j_ObjectMeta job))
      then Returned (None, req) s
      else
        and_then
          (if Active job = 0 \<and> Failed job \<noteq> 0 \<and> Succeeded job \<noteq> 0 then
             (case ActiveMethod (Status req) of
                None \<Rightarrow> Panicked NilDeref s
              | Some active \<Rightarrow>
                  (let (req1, s1) = AddResult K None req active MethodProgress
                         (Some (job_complete job)) s
                   in Returned req1 s1))
           else Returned req s)
          (\<lambda>req1 s1.
            let (req2, s2) =
                  (if Active job = 0 \<and> Failed job = 0
                   then SetFinalResult K None req1 MethodComplete (Some (job_complete job)) s1
                   else (req1, s1))
            in HandleFencingRequest K \<rho> req2 False s2))"

text \<open>
  \<open>owner := job.OwnerReferences[0].Name\<close> panics for a job without an owner. The loop over
  the requests returns in its first iteration; \<open>request\<close> is a copy, so the result is the
  error and the new state.
\<close>

definition HandleJob ::
    "'w api \<Rightarrow> chooser \<Rightarrow> Job \<Rightarrow> bool \<Rightarrow> 'w opstate \<Rightarrow>
     ('w opstate, error option) outcome" where
  "HandleJob K \<rho> job deleted s =
     (let target = (case map_of (entries (Labels (j_ObjectMeta job))) ''target'' of
                      None \<Rightarrow> [] | Some t \<Rightarrow> t) in
      case OwnerReferences (j_ObjectMeta job) of
        [] \<Rightarrow> Panicked IndexOutOfRange s
      | owner_ref # _ \<Rightarrow>
          (let ((node_ptr, err), s1) = getNode K target s in
           case node_ptr of
             None \<Rightarrow> Returned err s1
           | Some node \<Rightarrow>
               (let ((_, requests), s2) = listFencingRequests K node (or_Name owner_ref) s1 in
                case requests of
                  [] \<Rightarrow> Returned None s2
                | request # _ \<Rightarrow>
                    and_then (HandleFencingJob K \<rho> request job deleted s2)
                      (\<lambda>(err, _) s3. Returned err s3))))"

subsection \<open>HandleConfigMap\<close>

text \<open>\<open>yaml\<close> is the YAML decoder, as for \<open>NewConfigFromString\<close>.\<close>

fun methods_loop :: "chooser \<Rightarrow> nat \<Rightarrow> Config list \<Rightarrow> FencingMethod list \<Rightarrow>
    error option \<times> FencingMethod list" where
  "methods_loop \<rho> i [] methods = (None, methods)"
| "methods_loop \<rho> i (subcfg # subcfgs) methods =
     (case NewFencingMethodFromConfig (sub \<rho> i) subcfg of
        (None, Some m) \<Rightarrow> methods_loop \<rho> (Suc i) subcfgs (methods @ [m])
      | (err, _) \<Rightarrow> (err, methods))"

definition HandleConfigMap ::
    "(string \<Rightarrow> gmap \<times> error option) \<Rightarrow> chooser \<Rightarrow> ConfigMap \<Rightarrow> bool \<Rightarrow> 'w opstate \<Rightarrow>
     error option \<times> 'w opstate" where
  "HandleConfigMap yaml \<rho> configmap deleted s =
     (case map_of (entries (Data configmap)) ''fencing-config'' of
        None \<Rightarrow> (None, s)
      | Some text \<Rightarrow>
          if deleted then
            (None, s\<lparr>fencingConfigs := m_put (cm_Name configmap) None (fencingConfigs s)\<rparr>)
          else
           (let s1 = (if map_of (fencingConfigs s) (cm_Name configmap) \<noteq> None
                      then s\<lparr>fencingConfigs :=
                             m_put (cm_Name configmap) None (fencingConfigs s)\<rparr>
                      else s);
                (cfg, err) = NewConfigFromString yaml text
            in if err \<noteq> None then (err, s1)
               else
                (let (subcfgs, cfg1) = GetSubConfigArray (sub \<rho> 0) cfg ''methods'';
                     (err2, methods) = methods_loop (sub \<rho> 1) 0 subcfgs []
                 in if err2 \<noteq> None then (err2, s1)
                    else
                     (let (selector, cfg2) = GetMapOfStrings (sub \<rho> 2) cfg1 ''nodeSelector'';
                          fc = \<lparr>cfg_ObjectMeta = empty_meta\<lparr>Name := cm_Name configmap\<rparr>,
                                NodeSelector = selector, Methods = methods\<rparr>
                      in (None, s1\<lparr>fencingConfigs :=
                                m_put (cm_Name configmap) (Some fc) (fencingConfigs s1)\<rparr>)))))"

subsection \<open>The shape of the calls\<close>

text \<open>
  What handling a request may ask of the server: reads, then nothing, one update of the
  request, or the creation of one job (with the property \<open>P\<close>) followed by one update.
\<close>

definition request_calls :: "(Job \<Rightarrow> bool) \<Rightarrow> call list \<Rightarrow> bool" where
  "request_calls P cs \<longleftrightarrow> (\<exists>rs ws. cs = rs @ ws \<and> list_all is_read rs \<and>
     (ws = [] \<or> (\<exists>r. ws = [UpdateRequest r]) \<or>
      (\<exists>j r. ws = [CreateJob j, UpdateRequest r] \<and> P j)))"

definition handles :: "'w api \<Rightarrow> (Job \<Rightarrow> bool) \<Rightarrow> 'w opstate \<Rightarrow> 'w opstate \<Rightarrow> bool" where
  "handles K P s s' \<longleftrightarrow> evolves K s s' \<and> request_calls P (new_calls s s')"

lemma request_callsI:
  "request_calls P []" "request_calls P [UpdateRequest r]"
  "P j \<Longrightarrow> request_calls P [CreateJob j, UpdateRequest r]"
  unfolding request_calls_def by (rule exI [of _ "[]"], simp)+

lemma reads_handles:
  assumes "reads s t" and "handles K P t u"
  shows "handles K P s u"
proof -
  have e: "evolves K s t" "evolves K t u" and r: "list_all is_read (new_calls s t)"
    using assms by (auto simp: only_def handles_def ext_evolves)
  obtain rs ws where w: "new_calls t u = rs @ ws" "list_all is_read rs"
    "ws = [] \<or> (\<exists>r. ws = [UpdateRequest r]) \<or> (\<exists>j r. ws = [CreateJob j, UpdateRequest r] \<and> P j)"
    using assms(2) by (auto simp: handles_def request_calls_def)
  have "new_calls s u = (new_calls s t @ rs) @ ws" using new_calls_evolves_trans [OF e] w(1) by simp
  then have "request_calls P (new_calls s u)"
    unfolding request_calls_def using r w(2,3) by (metis list_all_append)
  then show ?thesis using evolves_trans [OF e] by (simp add: handles_def)
qed

lemma handles_refl [simp]: "handles K P s s"
  by (simp add: handles_def request_callsI)

lemma reads_is_handles: "reads s t \<Longrightarrow> handles K P s t"
  using reads_handles [OF _ handles_refl] .

lemma handles_mono: "handles K P s t \<Longrightarrow> (\<And>j. P j \<Longrightarrow> Q j) \<Longrightarrow> handles K Q s t"
  unfolding handles_def request_calls_def by blast

text \<open>
  \<open>refers p req key cfg s\<close>: the cache holds \<open>cfg\<close> with the key \<open>key\<close>, and \<open>p\<close> says rightly what the
  request points to.
\<close>

definition refers ::
    "string option \<Rightarrow> FencingRequest \<Rightarrow> string \<Rightarrow> FencingConfig \<Rightarrow> 'w opstate \<Rightarrow> bool" where
  "refers p req key cfg s \<longleftrightarrow>
     (key, Some cfg) \<in> set (fencingConfigs s) \<and> points_into p req (fencingConfigs s)"

lemma refers_cong: "fencingConfigs t = fencingConfigs s \<Longrightarrow> refers p req key cfg t = refers p req key cfg s"
  by (simp add: refers_def)

lemma refers_active_job [simp]:
  "refers p (req\<lparr>Status := (Status req)\<lparr>ActiveJob := n\<rparr>\<rparr>) key cfg s = refers p req key cfg s"
  by (simp add: refers_def points_into_def)

subsection \<open>Error reports\<close>

text \<open>
  What \<open>HandleFencingRequestError\<close> does with a method: nothing without an error, else one
  update of the request, final or not.
\<close>

definition report :: "'w api \<Rightarrow> string option \<Rightarrow> FencingRequest \<Rightarrow> FencingMethod \<Rightarrow> error \<Rightarrow> bool \<Rightarrow>
    'w opstate \<Rightarrow> FencingRequest \<times> 'w opstate" where
  "report K p req m e final s =
     (if final then SetFinalResult K p req RequestFailed (Some e) s
      else AddResult K p req (fm_Name m) RequestFailed (Some e) s)"

lemma HandleFencingRequestError_eq:
  "HandleFencingRequestError K p req (Some m) err final s =
     (case err of
        None \<Rightarrow> Returned (False, req) s
      | Some e \<Rightarrow> (let (req1, s1) = report K p req m e final s in Returned (True, req1) s1))"
  by (simp add: HandleFencingRequestError_def report_def split: option.split)

lemma HandleFencingRequestError_nil:
  "HandleFencingRequestError K p req None err final s =
     (if err = None then Returned (False, req) s else Panicked NilDeref s)"
  by (simp add: HandleFencingRequestError_def)

lemma report_calls:
  "\<exists>r. new_calls s (snd (report K p req m e final s)) = [UpdateRequest r]"
  by (simp add: report_def)

lemma evolves_report:
  assumes "echoes K \<Longrightarrow> m_ok (fencingConfigs s) \<Longrightarrow> points_into p req (fencingConfigs s)"
  shows "evolves K s (snd (report K p req m e final s))"
  using evolves_SetFinalResult evolves_AddResult assms unfolding report_def by metis

lemma handles_report:
  assumes "points_into p req (fencingConfigs s)"
  shows "handles K P s (snd (report K p req m e final s))"
  using report_calls [of s K p req m e final] evolves_report [OF assms]
  by (auto simp: handles_def request_callsI)

lemma handles_SetFinalResult:
  "points_into p req (fencingConfigs s) \<Longrightarrow> handles K P s (snd (SetFinalResult K p req r e s))"
  by (simp add: handles_def request_callsI evolves_SetFinalResult)

subsection \<open>Creating the job once\<close>

interpretation create_job_once: one_shot "create_job_closure K b" for K :: "'w api" and b
  by unfold_locales (auto simp: create_job_closure_def split_beta Let_def split: if_splits)

lemma create_job_step:
  "\<exists>err job' req' s'.
     ExponentialBackoff (api_clock K) defaultBackoff (create_job_closure K b) ((job, req), s) =
       (err, (job', req'), s') \<and>
     s' = snd (action_Create_job K b job s) \<and>
     (req' = req \<or> (\<exists>n. req' = req\<lparr>Status := (Status req)\<lparr>ActiveJob := n\<rparr>\<rparr>))"
proof -
  obtain err job' s' where a: "action_Create_job K b job s = ((err, job'), s')"
    by (metis surj_pair)
  then show ?thesis
    by (auto simp: create_job_once.backoff_runs_once defaultBackoff_def create_job_closure_def a)
qed

lemma handles_schedule_job:
  assumes "refers p req key cfg s" and "i < length (Methods cfg)" "Methods cfg ! i = m"
  shows "handles K (\<lambda>j. \<exists>\<rho>'. createFencingJob \<rho>' req cfg m = Inr (None, Some j)) s
     (final_state (schedule_job K \<rho> p req key cfg i m final s))"
proof -
  let ?P = "\<lambda>j. \<exists>\<rho>'. createFencingJob \<rho>' req cfg m = Inr (None, Some j)"
  obtain running s1 where act: "isFencingMethodActive K (sub \<rho> 2) req m s = (running, s1)"
    by (metis surj_pair)
  have r: "reads s s1" using reads_isFencingMethodActive [of s K "sub \<rho> 2" req m] act by simp
  have ref: "refers p req key cfg s1"
    using assms(1) refers_cong [OF fencingConfigs_ext [OF only_ext [OF r]]] by metis
  then have pt: "points_into p req (fencingConfigs s1)" by (simp add: refers_def)
  have "handles K ?P s1 (final_state (schedule_job K \<rho> p req key cfg i m final s))"
  proof (cases "running \<or> (\<exists>e. createFencingJob (sub \<rho> 3) req cfg m = Inl e)")
    case True
    then show ?thesis by (auto simp: schedule_job_def act)
  next
    case False
    then obtain err jp where job: "createFencingJob (sub \<rho> 3) req cfg m = Inr (err, jp)"
      and run: "\<not> running" by (cases "createFencingJob (sub \<rho> 3) req cfg m") auto
    show ?thesis
    proof (cases err)
      case (Some e)
      then show ?thesis using run handles_report [OF pt, of K ?P m e final]
        by (simp add: schedule_job_def act job HandleFencingRequestError_eq split_beta Let_def)
    next
      case None
      show ?thesis
      proof (cases jp)
        case None
        then show ?thesis using run \<open>err = None\<close>
          by (simp add: schedule_job_def act job HandleFencingRequestError_eq)
      next
        case (Some j)
        obtain err2 job' req' s2 where
          step: "ExponentialBackoff (api_clock K) defaultBackoff (create_job_closure K (key, i))
            ((j, req), s1) = (err2, (job', req'), s2)"
          and s2: "s2 = snd (action_Create_job K (key, i) j s1)"
          and req': "req' = req \<or> (\<exists>n. req' = req\<lparr>Status := (Status req)\<lparr>ActiveJob := n\<rparr>\<rparr>)"
          using create_job_step by blast
        have "extends (Mechanisms (Methods cfg ! i)) (Containers j)"
          using job None Some assms(3) createFencingJob_extends by blast
        then have e: "evolves K s1 s2" unfolding s2
          using ref assms(2) by (intro evolves_action_Create_job) (auto simp: refers_def)
        have c: "new_calls s1 s2 = [CreateJob j]" by (simp add: s2 new_calls_def)
        have P: "?P j" using job None Some by blast
        have pt2: "points_into p req' (fencingConfigs s2)"
          if "echoes K" "m_ok (fencingConfigs s2)"
        proof -
          have "fencingConfigs s2 = fencingConfigs s1"
            using e that m_ok_outline [of "fencingConfigs s2" "fencingConfigs s1"]
            by (simp add: evolves_def)
          then show ?thesis using pt req' by (auto simp: points_into_def)
        qed
        have upd: "handles K ?P s1 s3" if "evolves K s2 s3" "new_calls s2 s3 = [UpdateRequest q]" for s3 q
          using that evolves_trans [OF e that(1)] new_calls_evolves_trans [OF e that(1)] c P
          by (auto simp: handles_def intro: request_callsI)
        have rep: "handles K ?P s1 (snd (report K p req' m err final s2))" for err
          using upd evolves_report [OF pt2] report_calls by blast
        have add: "handles K ?P s1 (snd (AddResult K p req' n res er s2))" for n res er
          by (rule upd [OF evolves_AddResult [OF pt2] AddResult_new_calls])
        show ?thesis
          using run \<open>err = None\<close> Some rep add
          by (cases err2)
            (simp_all add: schedule_job_def act job HandleFencingRequestError_eq step
              split_beta Let_def)
      qed
    qed
  qed
  with r show ?thesis by (rule reads_handles)
qed

subsection \<open>Handling a request\<close>

text \<open>
  What choosing a configuration leaves of the request: all but the configuration's name; and
  the configuration comes from the cache.
\<close>

lemma config_loop_from:
  "config_loop K \<rho> target i cfgs threshold chosen s = Returned r t \<Longrightarrow>
   r = chosen \<or> (\<exists>n c. r = Some (n, c) \<and> (n, Some c) \<in> set cfgs)"
proof (induction cfgs arbitrary: i threshold chosen s)
  case (Cons nc cfgs)
  obtain n cp where nc: "nc = (n, cp)" by (cases nc)
  with Cons.prems obtain c where c: "cp = Some c" by (cases cp) auto
  obtain th ch s1 where ch: "ch \<in> {chosen, Some (n, c)}" and
    eq: "config_loop K \<rho> target i (nc # cfgs) threshold chosen s =
      config_loop K \<rho> target (Suc i) cfgs th ch s1"
    unfolding nc c using config_loop_step by metis
  from Cons.IH [OF Cons.prems [unfolded eq]] ch show ?case by (auto simp: nc c)
qed simp

lemma same_config: "req = req\<lparr>Status := (Status req)\<lparr>Config := FencingRequestStatus.Config (Status req)\<rparr>\<rparr>"
  by simp

lemma chooseFencingConfig_result:
  assumes "chooseFencingConfig K \<rho> req s = Returned ((err, cfg_ptr), req', p) t"
  shows "(err = None \<longleftrightarrow> cfg_ptr \<noteq> None) \<and>
    (\<forall>n c. cfg_ptr = Some (n, c) \<longrightarrow> (n, Some c) \<in> set (fencingConfigs s)) \<and>
    (\<exists>n. req' = req\<lparr>Status := (Status req)\<lparr>Config := n\<rparr>\<rparr>) \<and>
    points_into p req' (fencingConfigs s)"
proof (cases "assigned_config req s")
  case (Some c)
  then obtain n where n: "FencingRequestStatus.Config (Status req) = Some n"
    "map_of (fencingConfigs s) n = Some (Some c)"
    by (auto simp: assigned_config_def bind_eq_Some_conv)
  then have "(n, Some c) \<in> set (fencingConfigs s)" by (simp add: map_of_SomeD)
  moreover have "err = None" "cfg_ptr = Some (n, c)" "req' = req" "p = None"
    using assms chooseFencingConfig_assigned [OF Some] n(1) by simp_all
  moreover have "\<exists>n. req = req\<lparr>Status := (Status req)\<lparr>Config := n\<rparr>\<rparr>"
    using same_config by (rule exI)
  ultimately show ?thesis by simp
next
  case None
  let ?o = "config_loop K (sub \<rho> 1) (Target (Spec req)) 0
    (range_over (sub \<rho> 0) (fencingConfigs s)) (- 1) None s"
  note eq = chooseFencingConfig_open [OF None, of K \<rho>]
  obtain r s1 where o: "?o = Returned r s1"
    using assms by (cases ?o) (auto simp: eq)
  from config_loop_from [OF o]
  have "\<forall>n c. r = Some (n, c) \<longrightarrow> (n, Some c) \<in> set (fencingConfigs s)" by auto
  then show ?thesis
    using assms o by (cases r) (auto simp: eq points_into_def)
qed

lemma method_loop_result:
  "method_loop K \<rho> req n lpc nx ms s = ((err, mp, final), t) \<Longrightarrow>
   (err = None \<longleftrightarrow> mp \<noteq> None) \<and>
   (\<forall>i m. mp = Some (i, m) \<longrightarrow> lpc \<le> i \<and> i < lpc + length ms \<and> ms ! (i - lpc) = m)"
proof (induction ms arbitrary: lpc nx s)
  case (Cons m ms)
  have later: "(err = None \<longleftrightarrow> mp \<noteq> None) \<and> (\<forall>i m'. mp = Some (i, m') \<longrightarrow>
      lpc \<le> i \<and> i < lpc + length (m # ms) \<and> (m # ms) ! (i - lpc) = m')"
    if "method_loop K \<rho> req n (Suc lpc) nx' ms s' = ((err, mp, final), t)" for nx' s'
    using Cons.IH [OF that] by (auto simp: nth_Cons' Suc_diff_le)
  show ?case
    using Cons.prems later
    by (auto simp: split_beta Let_def split: option.splits if_splits)
qed auto

lemma chooseFencingMethod_first:
  "ActiveMethod (Status req) = None \<Longrightarrow> Methods cfg = m # ms \<Longrightarrow>
   chooseFencingMethod K \<rho> req cfg s = ((None, Some (0, m), ms = []), s)"
  by (simp add: chooseFencingMethod_def)

lemma chooseFencingMethod_result:
  assumes "chooseFencingMethod K \<rho> req cfg s = ((err, mp, final), t)"
  shows "(err = None \<longleftrightarrow> mp \<noteq> None) \<and>
   (\<forall>i m. mp = Some (i, m) \<longrightarrow> i < length (Methods cfg) \<and> Methods cfg ! i = m \<and>
     (ActiveMethod (Status req) = None \<longrightarrow> i = 0))"
  using method_loop_result [OF assms [unfolded chooseFencingMethod_def]] assms
  by (cases "Methods cfg") (auto simp: chooseFencingMethod_def)

text \<open>
  A job created for a request: which configuration and method it was built from, the first one
  for a request without an active method.
\<close>

definition job_for :: "FencingRequest \<Rightarrow> (string, FencingConfig option) gomap \<Rightarrow> Job \<Rightarrow> bool" where
  "job_for req cfgs j \<longleftrightarrow>
     (\<exists>\<rho> name n cfg m. (n, Some cfg) \<in> set cfgs \<and> m \<in> set (Methods cfg) \<and>
        (ActiveMethod (Status req) = None \<longrightarrow> m = hd (Methods cfg)) \<and>
        createFencingJob \<rho> (req\<lparr>Status := (Status req)\<lparr>Config := name\<rparr>\<rparr>) cfg m =
          Inr (None, Some j))"

lemma handles_HandleFencingRequest:
  "handles K (job_for req (fencingConfigs s)) s (final_state (HandleFencingRequest K \<rho> req deleted s))"
proof (cases "deleted \<or> Complete (Status req)")
  case True
  then show ?thesis by (auto simp: HandleFencingRequest_def)
next
  case False
  let ?H = "handles K (job_for req (fencingConfigs s))"
  let ?o = "chooseFencingConfig K (sub \<rho> 0) req s"
  have r: "reads s (final_state ?o)" by (rule reads_chooseFencingConfig)
  show ?thesis
  proof (cases ?o)
    case (Panicked e s1)
    with r False show ?thesis by (simp add: HandleFencingRequest_def reads_is_handles)
  next
    case (Returned a s1)
    obtain err cp req1 p where a: "a = ((err, cp), req1, p)" by (metis surj_pair)
    from r have r1: "reads s s1" by (simp add: Returned)
    note same1 = fencingConfigs_ext [OF only_ext [OF r1]]
    note res = chooseFencingConfig_result [OF Returned [unfolded a]]
    show ?thesis
    proof (cases cp)
      case None
      with res obtain e where "err = Some e" by blast
      moreover have "points_into p req1 (fencingConfigs s1)" using res by (simp add: same1)
      ultimately show ?thesis
        using False reads_handles [OF r1 handles_SetFinalResult]
        by (simp add: HandleFencingRequest_def Returned a split_beta Let_def)
    next
      case (Some kc)
      obtain key cfg where kc: "kc = (key, cfg)" by (cases kc)
      obtain err2 mp fin s2 where m: "chooseFencingMethod K (sub \<rho> 1) req1 cfg s1 =
          ((err2, mp, fin), s2)" by (metis surj_pair)
      have r2: "reads s s2"
        using only_trans [OF r1 reads_chooseFencingMethod [of s1 K "sub \<rho> 1" req1 cfg]] m by simp
      have ref: "refers p req1 key cfg s2"
        using res by (simp add: refers_def fencingConfigs_ext [OF only_ext [OF r2]] Some kc)
      note res2 = chooseFencingMethod_result [OF m]
      have err: "err = None" using res Some by simp
      show ?thesis
      proof (cases mp)
        case None
        with res2 show ?thesis using False Some err r2
          by (auto simp: HandleFencingRequest_def Returned a kc m [unfolded One_nat_def]
              HandleFencingRequestError_nil intro: reads_is_handles)
      next
        case mp: (Some im)
        obtain i me where im: "im = (i, me)" by (cases im)
        have i: "i < length (Methods cfg)" "Methods cfg ! i = me"
          "ActiveMethod (Status req1) = None \<longrightarrow> i = 0" using res2 mp im by simp_all
        have "?H s2 (final_state (schedule_job K \<rho> p req1 key cfg i me fin s2))"
        proof (rule handles_mono [OF handles_schedule_job [OF ref i(1,2)]])
          fix j
          assume "\<exists>\<rho>'. createFencingJob \<rho>' req1 cfg me = Inr (None, Some j)"
          then obtain \<rho>' where j: "createFencingJob \<rho>' req1 cfg me = Inr (None, Some j)" by blast
          have hd: "ActiveMethod (Status req) = None \<longrightarrow> me = hd (Methods cfg)"
            using i res by (auto simp: hd_conv_nth)
          obtain n where "req1 = req\<lparr>Status := (Status req)\<lparr>Config := n\<rparr>\<rparr>" using res by blast
          moreover have "(key, Some cfg) \<in> set (fencingConfigs s)" using res Some kc by simp
          moreover have "me \<in> set (Methods cfg)" using i(1,2) by auto
          ultimately show "job_for req (fencingConfigs s) j"
            using j hd unfolding job_for_def by metis
        qed
        then show ?thesis using False Some err mp res2 r2
          by (auto simp: HandleFencingRequest_def Returned a kc im m [unfolded One_nat_def]
              HandleFencingRequestError_eq intro: reads_handles)
      qed
    qed
  qed
qed

end
