(* ===== verification/Fencing_Steps.thy ===== *)
theory Fencing_Steps
  imports Fencing_Handlers
begin

section \<open>The handling of a request in two steps\<close>

text \<open>
  \<open>HandleFencingRequest\<close> asks the server whether a job of the method runs already and creates one if
  not. Nothing joins the two: the check (\<open>HandleFencingRequest_check\<close>, up to the call of
  \<open>isFencingMethodActive\<close>) and the rest (\<open>HandleFencingRequest_start\<close>) are separate steps, which
  \<open>HandleFencingRequest\<close> composes, and what each of them does on the way to a job. The first hands
  on its local variables: the request and what it points to, the configuration with its key, the
  method with its index, and whether it is the last.
\<close>

type_synonym picked =
  "FencingRequest \<times> string option \<times> (string \<times> FencingConfig) \<times> (nat \<times> FencingMethod) \<times> bool"

definition HandleFencingRequest_check ::
    "'w api \<Rightarrow> chooser \<Rightarrow> FencingRequest \<Rightarrow> bool \<Rightarrow> 'w opstate \<Rightarrow>
     ('w opstate, (error option \<times> FencingRequest) + picked) outcome" where
  "HandleFencingRequest_check K \<rho> req deleted s =
     (if deleted then Returned (Inl (None, req)) s
      else if Complete (Status req) then Returned (Inl (None, req)) s
      else
        and_then (chooseFencingConfig K (sub \<rho> 0) req s)
         (\<lambda>((err, cfg_ptr), req1, p) s1.
           if err \<noteq> None then
             (let (req2, s2) = SetFinalResult K p req1 RequestFailedNoConfig err s1
              in Returned (Inl (err, req2)) s2)
           else
            (case cfg_ptr of
               None \<Rightarrow> Panicked NilDeref s1
             | Some (key, cfg) \<Rightarrow>
                 (let ((err2, method, final), s2) =
                        chooseFencingMethod K (sub \<rho> 1) req1 cfg s1
                  in and_then (HandleFencingRequestError K p req1 (map_option snd method) err2 final s2)
                      (\<lambda>(handled, req2) s3.
                        if handled then Returned (Inl (err2, req2)) s3
                        else
                         (case method of
                            None \<Rightarrow> Panicked NilDeref s3
                          | Some (i, m) \<Rightarrow>
                              (let (running, s4) = isFencingMethodActive K (sub \<rho> 2) req2 m s3
                               in if running then Returned (Inl (None, req2)) s4
                                  else Returned (Inr (req2, p, (key, cfg), (i, m), final)) s4)))))))"

definition HandleFencingRequest_start ::
    "'w api \<Rightarrow> chooser \<Rightarrow> picked \<Rightarrow> 'w opstate \<Rightarrow>
     ('w opstate, error option \<times> FencingRequest) outcome" where
  "HandleFencingRequest_start K \<rho> x s1 =
     (let (req, p, (key, cfg), (i, method), final) = x
      in case createFencingJob (sub \<rho> 3) req cfg method of
          Inl e \<Rightarrow> Panicked e s1
        | Inr (err, job_ptr) \<Rightarrow>
            and_then (HandleFencingRequestError K p req (Some method) err final s1)
             (\<lambda>(handled, req1) s2.
               if handled then Returned (err, req1) s2
               else
                (case job_ptr of
                   None \<Rightarrow> Panicked NilDeref s2
                 | Some job \<Rightarrow>
                     (let (err2, (job', req2), s3) =
                            ExponentialBackoff (api_clock K) defaultBackoff
                              (create_job_closure K (key, i)) ((job, req1), s2)
                      in and_then
                           (HandleFencingRequestError K p req2 (Some method) err2 final s3)
                           (\<lambda>(handled2, req3) s4.
                             if handled2 then Returned (err2, req3) s4
                             else
                              (let (req4, s5) = AddResult K p req3 (fm_Name method)
                                     MethodProgress
                                     (Some (Errorf (fm_Name method @ '' initiated as '' @
                                        Name (j_ObjectMeta job')))) s4
                               in Returned (None, req4) s5))))))"

lemma schedule_job_steps:
  "schedule_job K \<rho> p req key cfg i m final s =
     (let (running, s1) = isFencingMethodActive K (sub \<rho> 2) req m s
      in if running then Returned (None, req) s1
         else HandleFencingRequest_start K \<rho> (req, p, (key, cfg), (i, m), final) s1)"
  by (cases "isFencingMethodActive K (sub \<rho> 2) req m s")
    (simp add: schedule_job_def HandleFencingRequest_start_def)

lemma and_then_cong: "(\<And>a s. f a s = g a s) \<Longrightarrow> and_then m f = and_then m g"
  by (cases m) simp_all

lemma HandleFencingRequest_steps:
  "HandleFencingRequest K \<rho> req deleted s =
     and_then (HandleFencingRequest_check K \<rho> req deleted s)
       (\<lambda>r s1. case r of Inl done \<Rightarrow> Returned done s1 | Inr x \<Rightarrow> HandleFencingRequest_start K \<rho> x s1)"
  unfolding HandleFencingRequest_def HandleFencingRequest_check_def schedule_job_steps
  by (simp add: and_then_assoc if_distrib [where f = "\<lambda>m. and_then m _"])
    (intro conjI impI and_then_cong;
      auto simp: and_then_assoc split_beta Let_def intro!: and_then_cong split: option.split)

text \<open>What the two steps do when a job can be created, up to the last update.\<close>

lemma HandleFencingRequest_check_run:
  assumes "\<not> Complete (Status req)" and "assigned_config req s = Some cfg"
    and "chooseFencingMethod K (sub \<rho> 1) req cfg s = ((None, Some (i, m), final), s1)"
    and "isFencingMethodActive K (sub \<rho> 2) req m s1 = (False, s2)"
  shows "HandleFencingRequest_check K \<rho> req False s = Returned (Inr (req, None,
    (the (FencingRequestStatus.Config (Status req)), cfg), (i, m), final)) s2"
  using assms(1,3,4) chooseFencingConfig_assigned [OF assms(2), of K "sub \<rho> 0"]
  by (simp add: HandleFencingRequest_check_def HandleFencingRequestError_eq del: One_nat_def)

lemma HandleFencingRequest_start_run:
  assumes "createFencingJob (sub \<rho> 3) req cfg m = Inr (None, Some j)"
    and "create_job K j (world s) = ((None, j'), w)"
  shows "\<exists>req' t u. HandleFencingRequest_start K \<rho> (req, p, (key, cfg), (i, m), final) s =
      Returned (None, req') t \<and>
    calls t = calls s @ [CreateJob j, UpdateRequest
      (with_update (req\<lparr>Status := (Status req)\<lparr>ActiveJob := Some (Name (j_ObjectMeta j'))\<rparr>\<rparr>) u)] \<and>
    Method u = fm_Name m \<and> Message u = ''MethodInProgress'' \<and>
    Error u = fm_Name m @ '' initiated as '' @ Name (j_ObjectMeta j')"
proof -
  let ?req = "req\<lparr>Status := (Status req)\<lparr>ActiveJob := Some (Name (j_ObjectMeta j'))\<rparr>\<rparr>"
  let ?e = "Some (Errorf (fm_Name m @ '' initiated as '' @ Name (j_ObjectMeta j')))"
  obtain s3 where c: "action_Create_job K (key, i) j s = ((None, j'), s3)"
    by (simp add: action_Create_job_def perform_def assms(2))
  have calls: "calls s3 = calls s @ [CreateJob j]"
    using calls_action_Create_job [of K "(key, i)" j s] unfolding c by simp
  let ?a = "AddResult K p ?req (fm_Name m) MethodProgress ?e s3"
  let ?u = "update_entry (fst (now K s3)) (fm_Name m) MethodProgress ?e"
  have run: "HandleFencingRequest_start K \<rho> (req, p, (key, cfg), (i, m), final) s =
      Returned (None, fst ?a) (snd ?a)"
    using assms(1) by (simp add: HandleFencingRequest_start_def HandleFencingRequestError_eq
        create_job_once.backoff_runs_once defaultBackoff_def create_job_closure_def c
        split_beta Let_def del: One_nat_def)
  moreover have "calls (snd ?a) = calls s @ [CreateJob j, UpdateRequest (with_update ?req ?u)]"
    by (simp add: calls)
  moreover have "Method ?u = fm_Name m" "Message ?u = ''MethodInProgress''"
    "Error ?u = fm_Name m @ '' initiated as '' @ Name (j_ObjectMeta j')"
    by (simp_all add: update_entry_def fmt_err_def)
  ultimately show ?thesis by blast
qed

end
