(* ===== verification/Fencing_Handler_Props.thy ===== *)
theory Fencing_Handler_Props
  imports Samples Fencing_Steps
begin

section \<open>Properties of the handlers for requests, jobs and ConfigMaps\<close>

text \<open>
  What \<open>HandleFencingRequest\<close>, \<open>HandleFencingJob\<close>, \<open>HandleJob\<close> and \<open>HandleConfigMap\<close> of
  \<open>pkg/stub/fencing.go\<close> ask of the server, when they create a job, when they complete a
  request and where they crash.
\<close>

subsection \<open>Requests\<close>

text \<open>C1: handling a request first only reads; then it writes nothing, or updates the request
  once, or creates one job and updates the request once. It never sleeps, deletes or creates
  anything else. A job it creates is built from a configuration that is loaded at the start and one
  of that configuration's methods. The loaded configurations stay as they are with a server that
  gives back what it is sent (\<open>echoes\<close>), and with any server but for the strings that its answers
  are decoded into: names, and elements of commands (\<open>kept\<close>).\<close>

theorem HandleFencingRequest_calls:
  "\<exists>rs ws. new_calls s (final_state (HandleFencingRequest K \<rho> req deleted s)) = rs @ ws \<and>
     list_all is_read rs \<and>
     (ws = [] \<or> (\<exists>r. ws = [UpdateRequest r]) \<or>
      (\<exists>j r. ws = [CreateJob j, UpdateRequest r] \<and> job_for req (fencingConfigs s) j)) \<and>
     kept K (fencingConfigs s) (fencingConfigs (final_state (HandleFencingRequest K \<rho> req deleted s)))"
  using handles_HandleFencingRequest [of K req s \<rho> deleted] evolves_kept
  unfolding handles_def request_calls_def by blast

text \<open>A job created for a request whose status names no active method is always built
  from the first method of a configuration, whatever happened to earlier jobs of the
  request.\<close>

theorem HandleFencingRequest_first_method:
  assumes "ActiveMethod (Status req) = None"
    and "CreateJob j \<in> set (new_calls s (final_state (HandleFencingRequest K \<rho> req deleted s)))"
  shows "\<exists>\<rho>' n name cfg m ms. (n, Some cfg) \<in> set (fencingConfigs s) \<and> Methods cfg = m # ms \<and>
    createFencingJob \<rho>' (req\<lparr>Status := (Status req)\<lparr>Config := name\<rparr>\<rparr>) cfg m = Inr (None, Some j)"
proof -
  obtain rs ws where w: "new_calls s (final_state (HandleFencingRequest K \<rho> req deleted s)) = rs @ ws"
    "list_all is_read rs" "ws = [] \<or> (\<exists>r. ws = [UpdateRequest r]) \<or>
      (\<exists>j r. ws = [CreateJob j, UpdateRequest r] \<and> job_for req (fencingConfigs s) j)"
    using handles_HandleFencingRequest [of K req s \<rho> deleted]
    by (auto simp: handles_def request_calls_def)
  have "CreateJob j \<notin> set rs" using w(2) by (auto simp: list_all_iff)
  then have "job_for req (fencingConfigs s) j" using assms(2) w(1,3) by auto
  then obtain \<rho>' name n cfg m where j: "(n, Some cfg) \<in> set (fencingConfigs s)"
    "m \<in> set (Methods cfg)" "m = hd (Methods cfg)"
    "createFencingJob \<rho>' (req\<lparr>Status := (Status req)\<lparr>Config := name\<rparr>\<rparr>) cfg m = Inr (None, Some j)"
    using assms(1) by (auto simp: job_for_def)
  have "Methods cfg = m # tl (Methods cfg)" using j(2,3) by (cases "Methods cfg") auto
  with j(1,4) show ?thesis by blast
qed

text \<open>The run of the handler when a job can be created, up to the last update.\<close>

lemma HandleFencingRequest_run:
  assumes "\<not> Complete (Status req)" and "assigned_config req s = Some cfg"
    and "chooseFencingMethod K (sub \<rho> 1) req cfg s = ((None, Some (i, m), final), s1)"
    and "isFencingMethodActive K (sub \<rho> 2) req m s1 = (False, s2)"
    and "createFencingJob (sub \<rho> 3) req cfg m = Inr (None, Some j)"
    and "create_job K j (world s2) = ((None, j'), w)"
  shows "\<exists>req' t u. HandleFencingRequest K \<rho> req False s = Returned (None, req') t \<and>
    calls t = calls s2 @ [CreateJob j, UpdateRequest
      (with_update (req\<lparr>Status := (Status req)\<lparr>ActiveJob := Some (Name (j_ObjectMeta j'))\<rparr>\<rparr>) u)] \<and>
    Method u = fm_Name m \<and> Message u = ''MethodInProgress'' \<and>
    Error u = fm_Name m @ '' initiated as '' @ Name (j_ObjectMeta j')"
  unfolding HandleFencingRequest_steps HandleFencingRequest_check_run [OF assms(1-4)]
  using HandleFencingRequest_start_run [OF assms(5,6)] by simp

text \<open>C26: an open request with a configuration and a method none of whose jobs is running gets
  its job: exactly one is created, the name in the server's answer becomes the active job, and
  the update says that the method was initiated.\<close>

theorem HandleFencingRequest_creates_job:
  assumes "\<not> Complete (Status req)" and "assigned_config req s = Some cfg"
    and "chooseFencingMethod K (sub \<rho> 1) req cfg s = ((None, Some (i, m), final), s1)"
    and "isFencingMethodActive K (sub \<rho> 2) req m s1 = (False, s2)"
    and "createFencingJob (sub \<rho> 3) req cfg m = Inr (None, Some j)"
    and "create_job K j (world s2) = ((None, j'), w)"
  shows "\<exists>req' t u. HandleFencingRequest K \<rho> req False s = Returned (None, req') t \<and>
    new_calls s2 t = [CreateJob j, UpdateRequest
      (with_update (req\<lparr>Status := (Status req)\<lparr>ActiveJob := Some (Name (j_ObjectMeta j'))\<rparr>\<rparr>) u)] \<and>
    Method u = fm_Name m \<and> Message u = ''MethodInProgress'' \<and>
    Error u = fm_Name m @ '' initiated as '' @ Name (j_ObjectMeta j')"
  using HandleFencingRequest_run [OF assms] by (fastforce simp: new_calls_def)

text \<open>When no method remains (an empty list of methods, or the active one was the last and
  is not running) handling an open request crashes on the \<open>nil\<close> method in the log line of
  \<open>HandleFencingRequestError\<close>, before the request can be marked as failed.\<close>

theorem HandleFencingRequest_no_method_panics:
  assumes "\<not> Complete (Status req)"
    and "chooseFencingConfig K (sub \<rho> 0) req s = Returned ((None, Some (key, cfg)), req1, p) s1"
    and "chooseFencingMethod K (sub \<rho> 1) req1 cfg s1 = ((err, None, final), s2)"
  shows "HandleFencingRequest K \<rho> req False s = Panicked NilDeref s2"
  using assms(1,2) assms(3) [unfolded One_nat_def] chooseFencingMethod_result [OF assms(3)]
  by (simp add: HandleFencingRequest_def HandleFencingRequestError_nil)

definition open_state :: "FencingMethod list \<Rightarrow> unit opstate" where
  "open_state ms = sample_state [(''all'', Some (sample_config ''all'' None ms))]"

definition assigned_request :: "string option \<Rightarrow> FencingRequest" where
  "assigned_request active = (sample_request active)
     \<lparr>Status := (Status (sample_request active))\<lparr>Config := Some ''all''\<rparr>\<rparr>"

definition quiet :: "unit api" where
  "quiet = quiet_api [] [] [] []"

lemma quiet_inactive:
  "fst (isFencingMethodActive quiet \<rho> req m s) = False"
  by (simp add: isFencingMethodActive_def ListJobs_def api_defs perform_def quiet_def
      quiet_api_def Let_def)

lemma assigned_sample:
  "assigned_config (assigned_request active) (open_state ms) = Some (sample_config ''all'' None ms)"
  by (simp add: assigned_config_def assigned_request_def open_state_def sample_defs)

lemma sample_job:
  "\<exists>j. createFencingJob (sub in_order 3) (assigned_request None)
     (sample_config ''all'' None [sample_method ''m1'']) (sample_method ''m1'') = Inr (None, Some j)"
  by (simp add: createFencingJob_def CreateContainer_def getContainerCommand_def
        getContainerEnv_def assigned_request_def sample_defs sample_mechanism_def
        sample_dynamic_def Lookup_def processSecrets_def)

text \<open>A run of the sample request, whose hypotheses two witnesses share.\<close>

lemma sample_open:
  "\<not> Complete (Status (assigned_request None))" "ActiveMethod (Status (assigned_request None)) = None"
  by (simp_all add: assigned_request_def sample_defs)

lemma sample_choice:
  "chooseFencingMethod quiet (sub in_order 1) (assigned_request None)
     (sample_config ''all'' None [sample_method ''m1'']) s = ((None, Some (0, sample_method ''m1''), True), s)"
  by (simp add: chooseFencingMethod_def assigned_request_def sample_defs)

lemma sample_inactive:
  "\<exists>s2. isFencingMethodActive quiet (sub in_order 2) (assigned_request None) (sample_method ''m1'') s =
     (False, s2) \<and> ext s s2"
  using quiet_inactive [of "sub in_order 2" "assigned_request None" "sample_method ''m1''" s]
    only_ext [OF reads_isFencingMethodActive [of s quiet "sub in_order 2" "assigned_request None"
        "sample_method ''m1''"]]
  by (metis prod.collapse)

lemma sample_created: "create_job quiet j w = ((None, j), w)"
  by (simp add: quiet_def quiet_api_def)

theorem HandleFencingRequest_creates_job_witness:
  "\<exists>req' t. HandleFencingRequest quiet in_order (assigned_request None) False
      (open_state [sample_method ''m1'']) = Returned (None, req') t"
proof -
  obtain s2 where a: "isFencingMethodActive quiet (sub in_order 2) (assigned_request None)
      (sample_method ''m1'') (open_state [sample_method ''m1'']) = (False, s2)"
    using sample_inactive by blast
  obtain j where j: "createFencingJob (sub in_order 3) (assigned_request None)
      (sample_config ''all'' None [sample_method ''m1'']) (sample_method ''m1'') = Inr (None, Some j)"
    using sample_job by blast
  from HandleFencingRequest_creates_job [OF sample_open(1) assigned_sample sample_choice a j
      sample_created] show ?thesis by blast
qed

theorem HandleFencingRequest_no_method_panics_witness:
  "HandleFencingRequest quiet in_order (assigned_request None) False (open_state []) =
   Panicked NilDeref (open_state [])"
proof -
  have open_req: "\<not> Complete (Status (assigned_request None))"
    by (simp add: assigned_request_def sample_defs)
  have m: "chooseFencingMethod quiet (sub in_order 1) (assigned_request None)
      (sample_config ''all'' None []) (open_state []) =
      ((Some (Errorf ''No remaining methods available''), None, True), open_state [])"
    by (simp add: chooseFencingMethod_def sample_defs)
  show ?thesis
    by (rule HandleFencingRequest_no_method_panics [OF open_req
          chooseFencingConfig_assigned [OF assigned_sample] m])
qed

theorem HandleFencingRequest_first_method_witness:
  "\<exists>j \<rho>' name. CreateJob j \<in> set (new_calls (open_state [sample_method ''m1''])
     (final_state (HandleFencingRequest quiet in_order (assigned_request None) False
       (open_state [sample_method ''m1''])))) \<and>
   createFencingJob \<rho>' ((assigned_request None)\<lparr>Status := (Status (assigned_request None))
     \<lparr>Config := name\<rparr>\<rparr>) (sample_config ''all'' None [sample_method ''m1'']) (sample_method ''m1'') =
     Inr (None, Some j)"
proof -
  let ?s = "open_state [sample_method ''m1'']" and ?r = "assigned_request None"
  obtain s2 where a: "isFencingMethodActive quiet (sub in_order 2) ?r (sample_method ''m1'') ?s =
      (False, s2)" and e: "ext ?s s2" using sample_inactive by blast
  obtain j where j: "createFencingJob (sub in_order 3) ?r
      (sample_config ''all'' None [sample_method ''m1'']) (sample_method ''m1'') = Inr (None, Some j)"
    using sample_job by blast
  obtain req' t r where run: "HandleFencingRequest quiet in_order ?r False ?s = Returned (None, req') t"
    and t: "calls t = calls s2 @ [CreateJob j, UpdateRequest r]"
    using HandleFencingRequest_run [OF sample_open(1) assigned_sample sample_choice a j
      sample_created] by blast
  have c: "CreateJob j \<in> set (new_calls ?s (final_state (HandleFencingRequest quiet in_order ?r False ?s)))"
    using new_calls_append [OF calls_ext [OF e] t] by (simp add: run)
  from HandleFencingRequest_first_method [OF sample_open(2) c] c show ?thesis
    by (fastforce simp: open_state_def sample_state_def sample_config_def)
qed

end
