(* ===== verification/Config_Job_Props.thy ===== *)
theory Config_Job_Props
  imports Samples Fencing_Handlers
begin

section \<open>Properties of the handlers for jobs and ConfigMaps\<close>

text \<open>
  What \<open>HandleConfigMap\<close> makes of the cache of configurations, on every branch, and what
  \<open>HandleFencingJob\<close> and \<open>HandleJob\<close> of \<open>pkg/stub/fencing.go\<close> do with a job.
\<close>

subsection \<open>ConfigMaps\<close>

text \<open>
  The configuration that a decoded ConfigMap stands for, and what becomes of the entry of the
  cache with its name: without the key \<open>fencing-config\<close> it stays, a deleted ConfigMap leaves
  \<open>nil\<close> behind, and so does an update that does not decode.
\<close>

definition config_of :: "string \<Rightarrow> gmap \<Rightarrow> FencingConfig" where
  "config_of name g =
     \<lparr>cfg_ObjectMeta = empty_meta\<lparr>Name := name\<rparr>, NodeSelector = strmap_at g ''nodeSelector'',
      Methods = map (\<lambda>d. method_of (config d)) (subs_at g ''methods'')\<rparr>"

definition cached_entry ::
    "(string \<Rightarrow> gmap \<times> error option) \<Rightarrow> ConfigMap \<Rightarrow> bool \<Rightarrow> FencingConfig option option \<Rightarrow>
     FencingConfig option option" where
  "cached_entry yaml cm deleted old =
     (case map_of (entries (Data cm)) ''fencing-config'' of
        None \<Rightarrow> old
      | Some text \<Rightarrow>
          if deleted then Some None
          else (case yaml text of
                  (g, None) \<Rightarrow> Some (Some (config_of (cm_Name cm) g))
                | (g, Some e) \<Rightarrow> map_option (\<lambda>_. None) old))"

lemma methods_loop_eq:
  "list_all (\<lambda>d. gmap_ok (config d)) ds \<Longrightarrow>
   methods_loop \<rho> i ds ms = (None, ms @ map (\<lambda>d. method_of (config d)) ds)"
  by (induction ds arbitrary: i ms) (simp_all add: NewFencingMethod_eq)

lemma cache_after:
  assumes "\<And>text g. yaml text = (g, None) \<Longrightarrow> gmap_ok g"
    and "HandleConfigMap yaml \<rho> cm deleted s = (err, t)"
  shows "map_of (fencingConfigs t) =
      (map_of (fencingConfigs s)) (cm_Name cm :=
         cached_entry yaml cm deleted (map_of (fencingConfigs s) (cm_Name cm))) \<and>
    calls t = calls s \<and>
    (err \<noteq> None \<longleftrightarrow> \<not> deleted \<and> (\<exists>text. map_of (entries (Data cm)) ''fencing-config'' = Some text \<and>
       snd (yaml text) \<noteq> None))"
proof (cases "map_of (entries (Data cm)) ''fencing-config''")
  case None
  then show ?thesis using assms(2) by (auto simp: HandleConfigMap_def cached_entry_def)
next
  case key: (Some str)
  show ?thesis
  proof (cases "\<not> deleted \<and> snd (yaml str) = None")
    case True
    then obtain g where y: "yaml str = (g, None)" by (metis prod.collapse)
    have g: "gmap_ok g" using assms(1) y .
    have ms: "methods_loop \<rho>' i (subs_at g key) [] =
        (None, map (\<lambda>d. method_of (config d)) (subs_at g key))" for \<rho>' i key
      using subs_at_ok [OF g] by (subst methods_loop_eq) (auto simp: list_all_iff)
    have "err = None \<and> fencingConfigs t =
        m_put (cm_Name cm) (Some (config_of (cm_Name cm) g))
          (if map_of (fencingConfigs s) (cm_Name cm) = None then fencingConfigs s
           else m_put (cm_Name cm) None (fencingConfigs s)) \<and> calls t = calls s"
      using assms(2) key True y g
      by (auto simp: get_subs.result get_subs.keeps get_strmap.result ms HandleConfigMap_def NewConfigFromString_def config_of_def split_beta Let_def
          split: if_splits)
    then show ?thesis using key True y by (auto simp: cached_entry_def)
  next
    case False
    then show ?thesis using assms(2) key
      by (auto simp: HandleConfigMap_def cached_entry_def NewConfigFromString_def split_beta Let_def
          split: if_splits)
  qed
qed

text \<open>C27: handling a ConfigMap changes no entry of the cache but the one with its name, asks
  nothing of the server, and gives that entry the value \<open>cached_entry\<close>: the configuration
  its text decodes to, with every method and the selector, or \<open>nil\<close>, or what it was. It
  returns an error exactly when the text of a ConfigMap that is not deleted does not decode.\<close>

theorem HandleConfigMap_entry:
  assumes "\<And>text g. yaml text = (g, None) \<Longrightarrow> gmap_ok g"
    and "HandleConfigMap yaml \<rho> cm deleted s = (err, t)"
  shows "map_of (fencingConfigs t) =
      (map_of (fencingConfigs s)) (cm_Name cm :=
         cached_entry yaml cm deleted (map_of (fencingConfigs s) (cm_Name cm))) \<and>
    calls t = calls s \<and>
    (err \<noteq> None \<longleftrightarrow> \<not> deleted \<and> (\<exists>text. map_of (entries (Data cm)) ''fencing-config'' = Some text \<and>
       snd (yaml text) \<noteq> None))"
  using assms by (rule cache_after)

definition sample_yaml :: "string \<Rightarrow> gmap \<times> error option" where
  "sample_yaml str =
     (if str = ''good'' then ([(''methods'', GSlice [GMapS [(''name'', GStr ''ipmi'')]])], None)
      else ([], Some (Errorf ''bad yaml'')))"

lemma sample_yaml_ok: "sample_yaml str = (g, None) \<Longrightarrow> gmap_ok g"
  by (auto simp: sample_yaml_def gmap_ok_def m_ok_def split: if_splits)

theorem HandleConfigMap_entry_witness:
  "\<exists>t. HandleConfigMap sample_yaml in_order
      \<lparr>cm_Name = ''c1'', Data = Some [(''fencing-config'', ''bad'')]\<rparr> False
      (sample_state [(''c1'', Some (sample_config ''c1'' None []))]) =
        (Some (Errorf ''bad yaml''), t) \<and>
      map_of (fencingConfigs t) ''c1'' = Some None"
proof -
  let ?cm = "\<lparr>cm_Name = ''c1'', Data = Some [(''fencing-config'', ''bad'')]\<rparr>"
  let ?s = "sample_state [(''c1'', Some (sample_config ''c1'' None []))]"
  obtain t where run: "HandleConfigMap sample_yaml in_order ?cm False ?s =
      (Some (Errorf ''bad yaml''), t)"
    by (simp add: HandleConfigMap_def NewConfigFromString_def sample_yaml_def sample_state_def)
  from HandleConfigMap_entry [OF sample_yaml_ok run] run show ?thesis
    by (simp add: cached_entry_def sample_yaml_def sample_state_def)
qed

text \<open>After a ConfigMap with a fencing configuration has been deleted, or a loaded one has
  been updated to a text that does not decode, handling any open request that is not assigned
  to another configuration crashes, also when other valid configurations are loaded.\<close>

theorem lost_config_breaks_requests:
  assumes "map_of (entries (Data cm)) ''fencing-config'' = Some str"
    and "deleted \<or> (map_of (fencingConfigs s) (cm_Name cm) \<noteq> None \<and> snd (yaml str) \<noteq> None)"
    and "FencingRequestStatus.Config (Status req) \<in> {None, Some (cm_Name cm)}"
    and "\<not> Complete (Status req)"
  shows "panics (HandleFencingRequest K \<rho> req False (snd (HandleConfigMap yaml \<rho>' cm deleted s)))"
proof -
  let ?t = "snd (HandleConfigMap yaml \<rho>' cm deleted s)"
  have gone: "map_of (fencingConfigs ?t) (cm_Name cm) = Some None"
    using assms(1,2) by (auto simp: HandleConfigMap_def NewConfigFromString_def split_beta Let_def)
  then have "assigned_config req ?t = None \<and> None \<in> snd ` set (fencingConfigs ?t)"
    using assms(3) map_of_SomeD [OF gone] by (force simp: assigned_config_def)
  then have "panics (chooseFencingConfig K (sub \<rho> 0) req ?t)" by (simp add: choice_panics)
  then show ?thesis
    using assms(4) by (cases "chooseFencingConfig K (sub \<rho> 0) req ?t")
      (simp_all add: HandleFencingRequest_def)
qed

theorem lost_config_breaks_requests_witness:
  "panics (HandleFencingRequest (quiet_api [] [] [] []) in_order (sample_request None) False
     (snd (HandleConfigMap sample_yaml in_order
       \<lparr>cm_Name = ''c1'', Data = Some [(''fencing-config'', ''good'')]\<rparr> True
       (sample_state [(''c2'', Some (sample_config ''c2'' None [sample_method ''m''])) ]))))"
  by (rule lost_config_breaks_requests) (simp_all add: sample_defs)

subsection \<open>Jobs\<close>

text \<open>
  A server whose answer to an update of a complete request is complete, and whose error leaves
  the request as it was sent.
\<close>

definition keeps_complete :: "'w api \<Rightarrow> bool" where
  "keeps_complete K \<longleftrightarrow>
     (\<forall>r w. Complete (Status r) \<longrightarrow> Complete (Status (snd (fst (update_request K r w)))))"

lemma AddResult_keeps_complete:
  "keeps_complete K \<Longrightarrow> Complete (Status req) \<Longrightarrow>
   Complete (Status (fst (AddResult K p req m r e s)))"
  by (simp add: AddResult_eq action_Update_def perform_def keeps_complete_def with_update_def
      split_beta Let_def)

lemma HandleFencingJob_completes:
  assumes "keeps_complete K" and "\<not> Complete (Status req)"
    and "ActiveJob (Status req) \<in> {None, Some (Name (j_ObjectMeta job))}"
    and "Active job = 0" and "Failed job = 0" and "Succeeded job \<noteq> 0"
  shows "\<exists>req' t u. HandleFencingJob K \<rho> req job deleted s = Returned (None, req') t \<and>
    ext s t \<and>
    new_calls s t = [UpdateRequest (with_update (completed req MethodComplete) u)] \<and>
    Message u = ''Complete'' \<and> Error u = Name (j_ObjectMeta job) @ '' complete'' \<and>
    Complete (Status req')"
proof -
  let ?a = "SetFinalResult K None req MethodComplete (Some (job_complete job)) s"
  have fin: "Complete (Status (fst ?a))"
    unfolding SetFinalResult_eq
    by (rule AddResult_keeps_complete [OF assms(1)]) (simp add: completed_def)
  have "HandleFencingJob K \<rho> req job deleted s = Returned (None, fst ?a) (snd ?a)"
    using assms(2-6) fin
    by (auto simp: HandleFencingJob_def HandleFencingRequest_def split_beta Let_def)
  with fin show ?thesis
    by (fastforce simp: update_entry_def job_complete_def fmt_err_def)
qed

text \<open>When the job of an open request has succeeded, the request is marked complete with
  result \<open>Complete\<close> in a single update and nothing else is asked of the server: no new job is
  created.\<close>

theorem HandleFencingJob_success:
  assumes "keeps_complete K" and "\<not> Complete (Status req)"
    and "ActiveJob (Status req) \<in> {None, Some (Name (j_ObjectMeta job))}"
    and "Active job = 0" and "Failed job = 0" and "Succeeded job \<noteq> 0"
  shows "\<exists>req' t u. HandleFencingJob K \<rho> req job deleted s = Returned (None, req') t \<and>
    new_calls s t = [UpdateRequest (with_update (completed req MethodComplete) u)] \<and>
    Message u = ''Complete'' \<and> Error u = Name (j_ObjectMeta job) @ '' complete'' \<and>
    Complete (Status req')"
  using HandleFencingJob_completes [OF assms] by blast

text \<open>A job that counts both a failure and a success and runs no longer crashes the handler
  of an open request whose status names no active method, which is every request this program
  creates: \<open>*req.Status.ActiveMethod\<close> is dereferenced without a check.\<close>

theorem HandleFencingJob_retried_panics:
  assumes "\<not> Complete (Status req)" and "ActiveMethod (Status req) = None"
    and "ActiveJob (Status req) \<in> {None, Some (Name (j_ObjectMeta job))}"
    and "Active job = 0" and "Failed job \<noteq> 0" and "Succeeded job \<noteq> 0"
  shows "HandleFencingJob K \<rho> req job deleted s = Panicked NilDeref s"
  using assms by (auto simp: HandleFencingJob_def)

definition sample_job_status :: "32 word \<Rightarrow> 32 word \<Rightarrow> Job" where
  "sample_job_status failed succeeded =
     \<lparr>j_TypeMeta = \<lparr>Kind = ''Job'', APIVersion = ''batch/v1''\<rparr>,
      j_ObjectMeta = empty_meta\<lparr>Name := ''req-1-job-1''\<rparr>,
      BackoffLimit = Some 1, Containers = [], RestartPolicy = ''OnFailure'', j_Volumes = [],
      Active = 0, Failed = failed, Succeeded = succeeded\<rparr>"

theorem HandleFencingJob_success_witness:
  "\<exists>req' t. HandleFencingJob (quiet_api [] [] [] []) in_order (sample_request None)
      (sample_job_status 0 1) False (sample_state []) = Returned (None, req') t \<and>
    length (calls t) = 1 \<and> Complete (Status req')"
proof -
  have K: "keeps_complete (quiet_api [] [] [] [])" by (simp add: keeps_complete_def quiet_api_def)
  show ?thesis
    using HandleFencingJob_success [OF K, of "sample_request None" "sample_job_status 0 1"
        in_order False "sample_state []"]
    by (auto simp: sample_job_status_def sample_request_def empty_status_def new_calls_def
        sample_state_def)
qed

theorem HandleFencingJob_retried_panics_witness:
  "HandleFencingJob (quiet_api [] [] [] []) in_order (sample_request None)
     (sample_job_status 1 1) False (sample_state []) = Panicked NilDeref (sample_state [])"
  by (rule HandleFencingJob_retried_panics)
    (simp_all add: sample_job_status_def sample_request_def empty_status_def)

end
