(* ===== verification/Handlers.thy ===== *)
theory Handlers
  imports Fencing_Handlers
begin

section \<open>The handlers for nodes and events, and the dispatcher (pkg/stub/handler.go)\<close>

text \<open>
  A node that is lost, or a supported warning event, leads to a fencing request; a node that
  returns or is deleted cancels its requests. \<open>Handle\<close> dispatches an event of the SDK to its
  handler. The environment lookup \<open>os.Getenv\<close> and the YAML decoder are arguments.
\<close>

subsection \<open>Dirty volumes\<close>

definition dirtyVolumesForNode :: "Node \<Rightarrow> Volume list" where
  "dirtyVolumesForNode node = []"

definition dirtyVolumes :: "Pod \<Rightarrow> Volume list" where
  "dirtyVolumes pod =
     filter (\<lambda>vol. case VolumeSource vol of PersistentVolumeClaim _ \<Rightarrow> True | _ \<Rightarrow> False)
       (p_Volumes pod)"

definition claim_name :: "Volume \<Rightarrow> string" where
  "claim_name vol = (case VolumeSource vol of PersistentVolumeClaim n \<Rightarrow> n | _ \<Rightarrow> [])"

fun pvc_loop :: "'w api \<Rightarrow> Volume list \<Rightarrow> 'w opstate \<Rightarrow> 'w opstate" where
  "pvc_loop K [] s = s"
| "pvc_loop K (vol # vols) s = pvc_loop K vols (snd (query_Get_pvc K (claim_name vol) s))"

definition isPodDirty :: "'w api \<Rightarrow> Pod \<Rightarrow> 'w opstate \<Rightarrow> bool \<times> 'w opstate" where
  "isPodDirty K pod s =
     (let volumes = dirtyVolumes pod
      in if 0 < length volumes then (True, pvc_loop K volumes s) else (False, s))"

fun dirty_pods_loop :: "'w api \<Rightarrow> Pod list \<Rightarrow> bool \<Rightarrow> 'w opstate \<Rightarrow> bool \<times> 'w opstate" where
  "dirty_pods_loop K [] dirty s = (dirty, s)"
| "dirty_pods_loop K (pod # pods) dirty s =
     (let (d, s1) = isPodDirty K pod s in dirty_pods_loop K pods (dirty \<or> d) s1)"

text \<open>The assignment \<open>dirty = true\<close> marked "For debugging only" is part of the code.\<close>

definition isNodeDirty ::
    "'w api \<Rightarrow> Node \<Rightarrow> NodeCondition \<Rightarrow> 'w opstate \<Rightarrow> bool \<times> 'w opstate" where
  "isNodeDirty K node condition s =
     (let ((_, pods), s1) = listPods K node s;
          (dirty, s2) = dirty_pods_loop K pods False s1
      in if dirty then (dirty, s2) else (True, s2))"

subsection \<open>Creating and cancelling fencing requests\<close>

fun affected_loop :: "'w api \<Rightarrow> Pod list \<Rightarrow> string list \<Rightarrow> 'w opstate \<Rightarrow>
    string list \<times> 'w opstate" where
  "affected_loop K [] affected s = (affected, s)"
| "affected_loop K (pod # pods) affected s =
     (let (d, s1) = isPodDirty K pod s
      in affected_loop K pods
           (if d then affected @ [Name (p_ObjectMeta pod)] else affected) s1)"

definition newFencingRequest ::
    "'w api \<Rightarrow> (string \<Rightarrow> string) \<Rightarrow> Node \<Rightarrow> string \<Rightarrow> 'w opstate \<Rightarrow>
     FencingRequest \<times> 'w opstate" where
  "newFencingRequest K getenv node cause s =
     (let nname = Name (n_ObjectMeta node);
          labels = m_put ''target'' nname (m_put ''app'' ''busy-box'' []);
          ((_, pods), s1) = listPods K node s;
          (affected, s2) = affected_loop K pods [] s1
      in (\<lparr>fr_TypeMeta = \<lparr>Kind = ''FencingRequest'',
              APIVersion = ''fencing.clusterlabs.org/v1alpha1''\<rparr>,
           fr_ObjectMeta = \<lparr>Name = [], GenerateName = ''node-fence-'' @ nname @ ''-'',
              Namespace = getenv ''POD_NAMESPACE'', UID = [], Labels = Some labels,
              OwnerReferences = []\<rparr>,
           Spec = \<lparr>Target = nname, Origin = cause, Operation = ''Off'', PodList = affected,
              ValidAfter = 0\<rparr>,
           Status = empty_status\<rparr>, s2))"

definition create_request_closure ::
    "'w api \<Rightarrow> FencingRequest \<times> 'w opstate \<Rightarrow>
     (bool \<times> error option) \<times> FencingRequest \<times> 'w opstate" where
  "create_request_closure K st =
     (let (req, s) = st; ((err, req'), s') = action_Create_request K req s
      in if err \<noteq> None \<and> \<not> IsAlreadyExists err then ((False, err), (req', s'))
         else ((True, None), (req', s')))"

definition CreateFencingRequest ::
    "'w api \<Rightarrow> (string \<Rightarrow> string) \<Rightarrow> Node \<Rightarrow> string \<Rightarrow> 'w opstate \<Rightarrow>
     error option \<times> 'w opstate" where
  "CreateFencingRequest K getenv node cause s =
     (let ((_, requests), s1) = listFencingRequests K node [] s
      in if list_ex (\<lambda>request. Complete (Status request)) requests then (None, s1)
         else
          (let (request, s2) = newFencingRequest K getenv node cause s1;
               (err, _, s3) = ExponentialBackoff (api_clock K) defaultBackoff
                 (create_request_closure K) (request, s2)
           in (err, s3)))"

fun delete_loop :: "'w api \<Rightarrow> FencingRequest list \<Rightarrow> bool \<Rightarrow> 'w opstate \<Rightarrow>
    bool \<times> 'w opstate" where
  "delete_loop K [] any s = (any, s)"
| "delete_loop K (request # requests) any s =
     (let (err, s1) = action_Delete K request s in delete_loop K requests True s1)"

definition CancelFencingRequests ::
    "'w api \<Rightarrow> Node \<Rightarrow> string \<Rightarrow> 'w opstate \<Rightarrow> bool \<times> 'w opstate" where
  "CancelFencingRequests K node name s =
     (let ((_, requests), s1) = listFencingRequests K node name s
      in delete_loop K requests False s1)"

subsection \<open>Nodes and events\<close>

text \<open>\<open>fmt.Sprintf("%v", condition)\<close>: the fields of the struct in braces.\<close>

definition condition_text :: "NodeCondition \<Rightarrow> string" where
  "condition_text c =
     ''{'' @ join_with '' '' [cond_Type c, cond_Status c, LastHeartbeatTime c,
       LastTransitionTime c, Reason c, cond_Message c] @ ''}''"

fun condition_loop ::
    "'w api \<Rightarrow> (string \<Rightarrow> string) \<Rightarrow> Node \<Rightarrow> NodeCondition list \<Rightarrow> 'w opstate \<Rightarrow>
     'w opstate" where
  "condition_loop K getenv node [] s = s"
| "condition_loop K getenv node (c # cs) s =
     (if cond_Type c = ''Ready'' \<and> cond_Status c = ''Unknown'' then
        (let (dirty, s1) = isNodeDirty K node c s;
             s2 = (if dirty then snd (CreateFencingRequest K getenv node (condition_text c) s1)
                   else s1)
         in condition_loop K getenv node cs s2)
      else if cond_Type c = ''Ready'' then
        condition_loop K getenv node cs (snd (CancelFencingRequests K node [] s))
      else condition_loop K getenv node cs s)"

definition HandleNode ::
    "'w api \<Rightarrow> (string \<Rightarrow> string) \<Rightarrow> Node \<Rightarrow> bool \<Rightarrow> 'w opstate \<Rightarrow>
     error option \<times> 'w opstate" where
  "HandleNode K getenv node deleted s =
     (if deleted then (None, snd (CancelFencingRequests K node [] s))
      else (None, condition_loop K getenv node (Conditions node) s))"

definition supportedNodeProblemSources :: "string list" where
  "supportedNodeProblemSources =
     [''abrt-notification'', ''abrt-adaptor'', ''docker-monitor'', ''kernel-monitor'', ''kernel'']"

definition HandleEvent ::
    "'w api \<Rightarrow> (string \<Rightarrow> string) \<Rightarrow> Event \<Rightarrow> bool \<Rightarrow> 'w opstate \<Rightarrow>
     error option \<times> 'w opstate" where
  "HandleEvent K getenv event deleted s =
     (if ev_Type event \<noteq> ''Warning'' \<or>
         Component event \<notin> set supportedNodeProblemSources then (None, s)
      else
       (let ((node_ptr, err), s1) = getNode K (Host event) s in
        case node_ptr of
          None \<Rightarrow> (err, s1)
        | Some node \<Rightarrow> (None, snd (CreateFencingRequest K getenv node (ev_Reason event) s1))))"

subsection \<open>The dispatcher\<close>

datatype event_object =
    ENode Node
  | EEvent Event
  | EJob Job
  | EConfigMap ConfigMap
  | EFencingRequest FencingRequest
  | EOther

text \<open>\<open>Handle\<close> drops the error of every handler and returns \<open>nil\<close>.\<close>

definition Handle ::
    "'w api \<Rightarrow> (string \<Rightarrow> string) \<Rightarrow> (string \<Rightarrow> gmap \<times> error option) \<Rightarrow> chooser \<Rightarrow>
     event_object \<Rightarrow> bool \<Rightarrow> 'w opstate \<Rightarrow> ('w opstate, error option) outcome" where
  "Handle K getenv yaml \<rho> object deleted s =
     (case object of
        ENode o' \<Rightarrow> Returned None (snd (HandleNode K getenv o' deleted s))
      | EEvent o' \<Rightarrow> Returned None (snd (HandleEvent K getenv o' deleted s))
      | EJob o' \<Rightarrow> and_then (HandleJob K \<rho> o' deleted s) (\<lambda>err s1. Returned None s1)
      | EConfigMap o' \<Rightarrow> Returned None (snd (HandleConfigMap yaml \<rho> o' deleted s))
      | EFencingRequest o' \<Rightarrow>
          and_then (HandleFencingRequest K \<rho> o' deleted s) (\<lambda>(err, _) s1. Returned None s1)
      | EOther \<Rightarrow> Returned None s)"

subsection \<open>Loops that ask the server once per element\<close>

text \<open>
  The loops over pods, volumes and requests have one shape: a step per element that asks
  \<open>asks x\<close> of the server, whatever it answers, and folds the step's answer into a result.
\<close>

locale call_loop =
  fixes step :: "'x \<Rightarrow> 'w opstate \<Rightarrow> 'a \<times> 'w opstate"
    and loop :: "'x list \<Rightarrow> 'b \<Rightarrow> 'w opstate \<Rightarrow> 'b \<times> 'w opstate"
    and upd :: "'x \<Rightarrow> 'a \<Rightarrow> 'b \<Rightarrow> 'b"
    and asks :: "'x \<Rightarrow> call list"
  assumes step_ext: "ext s (snd (step x s))"
    and step_calls: "new_calls s (snd (step x s)) = asks x"
    and loop_Nil: "loop [] acc s = (acc, s)"
    and loop_Cons: "loop (x # xs) acc s =
      loop xs (upd x (fst (step x s)) acc) (snd (step x s))"
begin

lemma loop_ext: "ext s (snd (loop xs acc s))"
proof (induction xs arbitrary: acc s)
  case (Cons x xs)
  show ?case unfolding loop_Cons using step_ext Cons.IH by (rule ext_trans)
qed (simp add: loop_Nil)

lemma loop_calls: "new_calls s (snd (loop xs acc s)) = concat (map asks xs)"
proof (induction xs arbitrary: acc s)
  case (Cons x xs)
  show ?case
    unfolding loop_Cons new_calls_trans [OF step_ext loop_ext] step_calls Cons.IH by simp
qed (simp add: loop_Nil)

lemma loop_only: "(\<And>x. list_all P (asks x)) \<Longrightarrow> only P s (snd (loop xs acc s))"
  by (simp add: only_def loop_ext loop_calls list_all_iff)

end

text \<open>When the answer of a step depends on the element alone, so does the loop's result.\<close>

locale pure_call_loop = call_loop +
  fixes ans :: "'x \<Rightarrow> 'a"
  assumes step_ans: "fst (step x s) = ans x"
begin

lemma loop_result: "fst (loop xs acc s) = fold (\<lambda>x. upd x (ans x)) xs acc"
  by (induction xs arbitrary: acc s) (simp_all add: loop_Nil loop_Cons step_ans)

end

interpretation pvcs: call_loop "\<lambda>vol. query_Get_pvc K (claim_name vol)"
    "\<lambda>vols (u::unit) s. (u, pvc_loop K vols s)" "\<lambda>vol err u. u" "\<lambda>vol. [GetPVC (claim_name vol)]"
  for K :: "'w api"
  by unfold_locales (simp_all add: query_Get_pvc_def)

definition pod_dirty :: "Pod \<Rightarrow> bool" where
  "pod_dirty pod \<longleftrightarrow> dirtyVolumes pod \<noteq> []"

definition pod_reads :: "Pod \<Rightarrow> call list" where
  "pod_reads pod = map (\<lambda>vol. GetPVC (claim_name vol)) (dirtyVolumes pod)"

lemma isPodDirty_facts [simp]:
  "fst (isPodDirty K pod s) = pod_dirty pod"
  "ext s (snd (isPodDirty K pod s))"
  "new_calls s (snd (isPodDirty K pod s)) = pod_reads pod"
  using pvcs.loop_ext [where K = K and xs = "dirtyVolumes pod" and acc = "()" and s = s]
    pvcs.loop_calls [where K = K and xs = "dirtyVolumes pod" and acc = "()" and s = s]
  by (auto simp: isPodDirty_def pod_dirty_def pod_reads_def Let_def)

interpretation dirty_pods: pure_call_loop "isPodDirty K" "dirty_pods_loop K"
    "\<lambda>pod d dirty. dirty \<or> d" pod_reads pod_dirty
  for K :: "'w api"
  by unfold_locales (simp_all add: split_beta)

interpretation affected: pure_call_loop "isPodDirty K" "affected_loop K"
    "\<lambda>pod d affected. if d then affected @ [Name (p_ObjectMeta pod)] else affected"
    pod_reads pod_dirty
  for K :: "'w api"
  by unfold_locales (simp_all add: split_beta)

interpretation deletes: call_loop "action_Delete K" "delete_loop K"
    "\<lambda>request err any. True" "\<lambda>request. [DeleteRequest request]"
  for K :: "'w api"
  by unfold_locales (simp_all add: action_Delete_def split_beta)

lemma pod_reads_read [simp]: "list_all is_read (pod_reads pod)"
  by (simp add: pod_reads_def list_all_iff)

lemma fold_affected:
  "fold (\<lambda>pod. (\<lambda>d acc. if d then acc @ [Name (p_ObjectMeta pod)] else acc) (pod_dirty pod)) pods acc =
   acc @ map (\<lambda>pod. Name (p_ObjectMeta pod)) (filter pod_dirty pods)"
  by (induction pods arbitrary: acc) simp_all

subsection \<open>What the parts ask and compute\<close>

lemma isNodeDirty_calls:
  "fst (isNodeDirty K node c s) \<and> reads s (snd (isNodeDirty K node c s))"
proof -
  obtain err pods s1 where l: "listPods K node s = ((err, pods), s1)" by (metis surj_pair)
  have "reads s s1" using reads_queries(3) [of s K node] l by simp
  from only_trans [OF this dirty_pods.loop_only [where P = is_read and s = s1 and K = K and xs = pods and acc = False]] show ?thesis
    by (simp add: isNodeDirty_def l split_beta Let_def)
qed

text \<open>The pods on a node at the time of the query.\<close>

definition pods_on :: "'w api \<Rightarrow> Node \<Rightarrow> 'w opstate \<Rightarrow> Pod list" where
  "pods_on K node s = snd (fst (listPods K node s))"

lemma newFencingRequest_facts:
  "reads s (snd (newFencingRequest K getenv node cause s))"
  "let r = fst (newFencingRequest K getenv node cause s) in
     Target (Spec r) = Name (n_ObjectMeta node) \<and> Origin (Spec r) = cause \<and>
     Status r = empty_status \<and> Namespace (fr_ObjectMeta r) = getenv ''POD_NAMESPACE'' \<and>
     PodList (Spec r) = map (\<lambda>pod. Name (p_ObjectMeta pod)) (filter pod_dirty (pods_on K node s))"
proof -
  obtain err pods s1 where l: "listPods K node s = ((err, pods), s1)" by (metis surj_pair)
  have r: "reads s s1" using reads_queries(3) [of s K node] l by simp
  show "reads s (snd (newFencingRequest K getenv node cause s))"
    using only_trans [OF r affected.loop_only [where P = is_read and s = s1 and K = K and xs = pods and acc = "[]"]]
    by (simp add: newFencingRequest_def l split_beta Let_def)
  show "let r = fst (newFencingRequest K getenv node cause s) in
     Target (Spec r) = Name (n_ObjectMeta node) \<and> Origin (Spec r) = cause \<and>
     Status r = empty_status \<and> Namespace (fr_ObjectMeta r) = getenv ''POD_NAMESPACE'' \<and>
     PodList (Spec r) = map (\<lambda>pod. Name (p_ObjectMeta pod)) (filter pod_dirty (pods_on K node s))"
    by (simp add: newFencingRequest_def l pods_on_def split_beta Let_def affected.loop_result
        fold_affected [of pods "[]"])
qed

interpretation create_request_once: one_shot "create_request_closure K" for K :: "'w api"
  by unfold_locales (auto simp: create_request_closure_def split_beta Let_def split: if_splits)

definition requests_for :: "'w api \<Rightarrow> Node \<Rightarrow> 'w opstate \<Rightarrow> FencingRequest list" where
  "requests_for K node s = snd (fst (listFencingRequests K node [] s))"

text \<open>The request that \<open>CreateFencingRequest\<close> makes.\<close>

definition request_for ::
    "(string \<Rightarrow> string) \<Rightarrow> Node \<Rightarrow> string \<Rightarrow> FencingRequest \<Rightarrow> bool" where
  "request_for getenv node cause r \<longleftrightarrow>
     Target (Spec r) = Name (n_ObjectMeta node) \<and> Origin (Spec r) = cause \<and>
     Status r = empty_status \<and> Namespace (fr_ObjectMeta r) = getenv ''POD_NAMESPACE''"

text \<open>
  The calls of a run that creates a request unless one of the \<open>listed\<close> ones is complete: reads,
  and then nothing or that one creation.
\<close>

definition creates_unless ::
    "(string \<Rightarrow> string) \<Rightarrow> Node \<Rightarrow> string \<Rightarrow> FencingRequest list \<Rightarrow> call list \<Rightarrow> bool" where
  "creates_unless getenv node cause listed cs \<longleftrightarrow>
     (\<exists>rs ws. cs = rs @ ws \<and> list_all is_read rs \<and>
        (if list_ex (\<lambda>r. Complete (Status r)) listed then ws = []
         else \<exists>r. ws = [CreateRequest r] \<and> request_for getenv node cause r))"

lemma creates_unless_reads:
  "list_all is_read rs \<Longrightarrow> creates_unless getenv node cause listed cs \<Longrightarrow>
   creates_unless getenv node cause listed (rs @ cs)"
  unfolding creates_unless_def by (metis append_assoc list_all_append)

lemma CreateFencingRequest_calls:
  "ext s (snd (CreateFencingRequest K getenv node cause s)) \<and>
   creates_unless getenv node cause (requests_for K node s)
     (new_calls s (snd (CreateFencingRequest K getenv node cause s)))"
proof -
  obtain err requests s1 where l: "listFencingRequests K node [] s = ((err, requests), s1)"
    by (metis surj_pair)
  have r: "reads s s1" using reads_queries(2) [of s K node "[]"] l by simp
  have req: "requests_for K node s = requests" by (simp add: requests_for_def l)
  show ?thesis
  proof (cases "list_ex (\<lambda>r. Complete (Status r)) requests")
    case True
    then show ?thesis using r
      by (simp add: CreateFencingRequest_def l req only_def creates_unless_def)
  next
    case False
    obtain q s2 where n: "newFencingRequest K getenv node cause s1 = (q, s2)" by (metis surj_pair)
    have r2: "reads s s2" and q: "request_for getenv node cause q"
      using only_trans [OF r newFencingRequest_facts(1) [of s1 K getenv node cause]]
        newFencingRequest_facts(2) [of K getenv node cause s1]
      by (simp_all add: n request_for_def Let_def)
    let ?t = "snd (action_Create_request K q s2)"
    have t: "snd (CreateFencingRequest K getenv node cause s) = ?t"
      using False by (simp add: CreateFencingRequest_def l n create_request_once.backoff_runs_once
          defaultBackoff_def create_request_closure_def split_beta Let_def)
    have e: "ext s2 ?t" "new_calls s2 ?t = [CreateRequest q]"
      by (simp_all add: action_Create_request_def)
    have "new_calls s ?t = new_calls s s2 @ [CreateRequest q]"
      using new_calls_trans [OF only_ext [OF r2] e(1)] e(2) by simp
    then show ?thesis
      using False q r2 ext_trans [OF only_ext [OF r2] e(1)]
      by (auto simp: t req only_def creates_unless_def)
  qed
qed

lemma CancelFencingRequests_calls:
  "ext s (snd (CancelFencingRequests K node [] s)) \<and>
   new_calls s (snd (CancelFencingRequests K node [] s)) =
     QueryRequests (''target='' @ Name (n_ObjectMeta node)) #
     map DeleteRequest (requests_for K node s)"
proof -
  obtain err requests s1 where l: "listFencingRequests K node [] s = ((err, requests), s1)"
    by (metis surj_pair)
  have e: "ext s s1" and c: "new_calls s s1 = [QueryRequests (''target='' @ Name (n_ObjectMeta node))]"
    using performed [OF l [unfolded listFencingRequests_def query_List_requests_def Let_def]]
    by simp_all
  have t: "snd (CancelFencingRequests K node [] s) = snd (delete_loop K requests False s1)"
    by (simp add: CancelFencingRequests_def l)
  show ?thesis
    unfolding t using ext_trans [OF e deletes.loop_ext]
      new_calls_trans [OF e deletes.loop_ext] c
    by (simp add: deletes.loop_calls requests_for_def l concat_map_singleton)
qed

subsection \<open>Which calls an event may lead to\<close>

text \<open>
  The calls by which a lost or returned node is handled, and those by which a request is
  carried out. Neither kind sleeps.
\<close>

fun for_node :: "call \<Rightarrow> bool" where
  "for_node (CreateRequest r) = True"
| "for_node (DeleteRequest r) = True"
| "for_node c = is_read c"

fun for_request :: "call \<Rightarrow> bool" where
  "for_request (CreateJob j) = True"
| "for_request (UpdateRequest r) = True"
| "for_request c = is_read c"

lemma read_kinds: "is_read c \<Longrightarrow> for_node c \<and> for_request c"
  by (cases c) simp_all

lemma only_mono: "only P s t \<Longrightarrow> (\<And>c. P c \<Longrightarrow> Q c) \<Longrightarrow> only Q s t"
  by (simp add: only_def list_all_iff)

lemma reads_kinds: "reads s t \<Longrightarrow> only for_node s t" "reads s t \<Longrightarrow> only for_request s t"
  by (erule only_mono, simp add: read_kinds)+

lemma for_node_create: "only for_node s (snd (CreateFencingRequest K getenv node cause s))"
  using CreateFencingRequest_calls [of s K getenv node cause] read_kinds
  by (auto simp: creates_unless_def only_def list_all_iff split: if_splits)

lemma for_node_cancel: "only for_node s (snd (CancelFencingRequests K node [] s))"
  using CancelFencingRequests_calls [of s K node] by (auto simp: only_def list_all_iff)

lemma for_node_conditions: "only for_node s (condition_loop K getenv node cs s)"
proof (induction cs arbitrary: s)
  case (Cons c cs)
  have "only for_node s (condition_loop K getenv node cs (snd (CreateFencingRequest K getenv node cause
      (snd (isNodeDirty K node c s)))))" for cause
    by (rule only_trans [OF reads_kinds(1) [OF isNodeDirty_calls [THEN conjunct2]]],
        rule only_trans [OF for_node_create], rule Cons.IH)
  moreover have "only for_node s (condition_loop K getenv node cs (snd (isNodeDirty K node c s)))"
    by (rule only_trans [OF reads_kinds(1) [OF isNodeDirty_calls [THEN conjunct2]]], rule Cons.IH)
  moreover have "only for_node s (condition_loop K getenv node cs (snd (CancelFencingRequests K node [] s)))"
    by (rule only_trans [OF for_node_cancel], rule Cons.IH)
  ultimately show ?case using Cons.IH by (simp add: split_beta Let_def)
qed simp

lemma for_node_HandleNode: "only for_node s (snd (HandleNode K getenv node deleted s))"
  by (simp add: HandleNode_def for_node_cancel for_node_conditions)

lemma for_node_HandleEvent: "only for_node s (snd (HandleEvent K getenv event deleted s))"
proof -
  have r: "only for_node s (snd (getNode K (Host event) s))" by (rule reads_kinds(1)) simp
  show ?thesis
    using r only_trans [OF r for_node_create]
    by (auto simp: HandleEvent_def split_beta Let_def split: option.split)
qed

lemma for_request_HandleFencingRequest:
  "does K for_request s (final_state (HandleFencingRequest K \<rho> req deleted s))"
  using handles_HandleFencingRequest [of K req s \<rho> deleted] read_kinds
  by (auto simp: handles_def request_calls_def does_def list_all_iff)

text \<open>Before it handles the request, \<open>HandleFencingJob\<close> writes only to the request's own memory.\<close>

lemma for_request_AddResult: "only for_request s (snd (AddResult K None req m r e s))"
  "only for_request s (snd (SetFinalResult K None req r e s))"
  by (simp_all add: only_def)

lemma for_request_HandleFencingJob:
  "does K for_request s (final_state (HandleFencingJob K \<rho> req job deleted s))"
proof -
  note does = for_request_AddResult [THEN only_does]
  have fin: "does K for_request s1 (final_state
      (let (req2, s2) = (if b then SetFinalResult K None req1 r e s1 else (req1, s1))
       in HandleFencingRequest K \<rho> req2 False s2))" for b r e req1 s1
    by (simp add: split_beta Let_def for_request_HandleFencingRequest
        does_trans [OF does(2) for_request_HandleFencingRequest])
  have add: "does K for_request s (final_state (case ActiveMethod (Status req) of
      None \<Rightarrow> Panicked NilDeref s
    | Some active \<Rightarrow> (let (req1, s1) = AddResult K None req active MethodProgress
        (Some (job_complete job)) s in Returned req1 s1)))"
    by (simp add: does split_beta Let_def split: option.split)
  have "does K for_request s (final_state (if b then (case ActiveMethod (Status req) of
      None \<Rightarrow> Panicked NilDeref s
    | Some active \<Rightarrow> (let (req1, s1) = AddResult K None req active MethodProgress
        (Some (job_complete job)) s in Returned req1 s1)) else Returned req s))" for b
    using add by simp
  from does_and_then [OF this fin] show ?thesis by (simp add: HandleFencingJob_def)
qed

lemma for_request_HandleJob:
  "does K for_request s (final_state (HandleJob K \<rho> job deleted s))"
proof (cases "OwnerReferences (j_ObjectMeta job)")
  case Nil
  then show ?thesis by (simp add: HandleJob_def)
next
  case (Cons ow os)
  let ?target = "case map_of (entries (Labels (j_ObjectMeta job))) ''target'' of
    None \<Rightarrow> [] | Some t \<Rightarrow> t"
  obtain np err s1 where n: "getNode K ?target s = ((np, err), s1)" by (metis surj_pair)
  have r1: "reads s s1" using reads_queries(1) [of s K ?target] n by simp
  show ?thesis
  proof (cases np)
    case None
    then show ?thesis using r1 by (simp add: HandleJob_def Cons n reads_kinds only_does)
  next
    case (Some node)
    obtain e qs s2 where q: "listFencingRequests K node (or_Name ow) s1 = ((e, qs), s2)"
      by (metis surj_pair)
    have r2: "reads s s2"
      using only_trans [OF r1 reads_queries(2) [of s1 K node "or_Name ow"]] q by simp
    note d2 = only_does [OF reads_kinds(2) [OF r2]]
    show ?thesis
    proof (cases qs)
      case Nil
      then show ?thesis using d2 by (simp add: HandleJob_def Cons n Some q)
    next
      case c: (Cons r rs)
      have "does K for_request s2 (final_state (and_then (HandleFencingJob K \<rho> r job deleted s2)
          (\<lambda>(err, _) s3. Returned err s3)))"
        by (rule does_and_then [OF for_request_HandleFencingJob]) (simp add: split_beta)
      from does_trans [OF d2 this] show ?thesis
        by (simp add: HandleJob_def Cons n Some q c)
    qed
  qed
qed

text \<open>What the dispatcher adds to a handler.\<close>

lemma does_Handle_job:
  "does K for_request s (final_state (and_then (HandleJob K \<rho> job deleted s)
     (\<lambda>err s1. Returned None s1)))"
  by (rule does_and_then [OF for_request_HandleJob]) simp

lemma does_Handle_request:
  "does K for_request s (final_state (and_then (HandleFencingRequest K \<rho> req deleted s)
     (\<lambda>(err, _) s1. Returned None s1)))"
  by (rule does_and_then [OF for_request_HandleFencingRequest]) (simp add: split_beta)

lemma HandleConfigMap_calls: "calls (snd (HandleConfigMap yaml \<rho> cm deleted s)) = calls s"
  by (simp add: HandleConfigMap_def split_beta Let_def split: option.split)

end
