(* ===== verification/Handler_Props.thy ===== *)
theory Handler_Props
  imports Samples Handlers
begin

section \<open>Properties of the handlers for nodes and events and of the dispatcher\<close>

text \<open>
  When \<open>pkg/stub/handler.go\<close> creates and cancels fencing requests, what it puts into them,
  and which effects each kind of event can have.
\<close>

subsection \<open>Dirty nodes\<close>

text \<open>A lost node always counts as dirty, whatever pods and volumes it has, and finding out
  only reads: the pods of the node, then each claim of each of its dirty pods.\<close>

theorem isNodeDirty_always:
  "fst (isNodeDirty K node c s) \<and>
   new_calls s (snd (isNodeDirty K node c s)) =
     QueryPods (''spec.nodeName='' @ Name (n_ObjectMeta node)) #
     concat (map (\<lambda>pod. map (\<lambda>vol. GetPVC (claim_name vol)) (dirtyVolumes pod)) (pods_on K node s))"
proof -
  obtain err pods s1 where l: "listPods K node s = ((err, pods), s1)" by (metis surj_pair)
  have e: "ext s s1" "new_calls s s1 = [QueryPods (''spec.nodeName='' @ Name (n_ObjectMeta node))]"
    using performed [OF l [unfolded listPods_def query_List_pods_def]] by simp_all
  have t: "snd (isNodeDirty K node c s) = snd (dirty_pods_loop K pods False s1)"
    by (simp add: isNodeDirty_def l split_beta Let_def)
  have "new_calls s (snd (isNodeDirty K node c s)) =
      QueryPods (''spec.nodeName='' @ Name (n_ObjectMeta node)) # concat (map pod_reads pods)"
    unfolding t new_calls_trans [OF e(1) dirty_pods.loop_ext] e(2) by (simp add: dirty_pods.loop_calls)
  then show ?thesis
    using isNodeDirty_calls [of K node c s] by (simp add: pods_on_def l pod_reads_def [abs_def])
qed

subsection \<open>Creating requests\<close>

text \<open>C31: whether a request is created for a node depends only on the requests listed for it:
  one is created exactly when none of them is complete, so an open request does not prevent a
  second one. Then one request is created, without a retry, for that node and cause, not
  complete and with no method or job active; all other calls only read.\<close>

theorem CreateFencingRequest_decides:
  "\<exists>rs ws. new_calls s (snd (CreateFencingRequest K getenv node cause s)) = rs @ ws \<and>
     list_all is_read rs \<and>
     (if list_ex (\<lambda>r. Complete (Status r)) (requests_for K node s) then ws = []
      else \<exists>r. ws = [CreateRequest r] \<and> Target (Spec r) = Name (n_ObjectMeta node) \<and>
        Origin (Spec r) = cause \<and> Status r = empty_status \<and>
        Namespace (fr_ObjectMeta r) = getenv ''POD_NAMESPACE'')"
  by (rule CreateFencingRequest_calls [THEN conjunct2, unfolded creates_unless_def request_for_def])

text \<open>A new request lists exactly the names of the pods on the node with a volume from a
  claim, in the order of the query, and carries the target in its spec and its labels.\<close>

theorem newFencingRequest_pods:
  "let r = fst (newFencingRequest K getenv node cause s) in
     PodList (Spec r) = map (\<lambda>pod. Name (p_ObjectMeta pod))
       (filter (\<lambda>pod. \<exists>vol \<in> set (p_Volumes pod). \<exists>claim. VolumeSource vol = PersistentVolumeClaim claim)
         (pods_on K node s)) \<and>
     map_of (entries (Labels (fr_ObjectMeta r))) ''target'' = Some (Target (Spec r)) \<and>
     Target (Spec r) = Name (n_ObjectMeta node) \<and> Operation (Spec r) = ''Off''"
proof -
  have dirty: "pod_dirty = (\<lambda>pod. \<exists>vol \<in> set (p_Volumes pod). \<exists>claim.
      VolumeSource vol = PersistentVolumeClaim claim)"
  proof -
    have "(case v of PersistentVolumeClaim _ \<Rightarrow> True | _ \<Rightarrow> False) \<longleftrightarrow>
        (\<exists>claim. v = PersistentVolumeClaim claim)" for v by (cases v) simp_all
    then show ?thesis by (auto simp: fun_eq_iff pod_dirty_def dirtyVolumes_def filter_empty_conv)
  qed
  obtain err pods s1 where l: "listPods K node s = ((err, pods), s1)" by (metis surj_pair)
  show ?thesis
    using newFencingRequest_facts(2) [of K getenv node cause s]
    by (simp add: dirty Let_def) (simp add: newFencingRequest_def l split_beta Let_def)
qed

subsection \<open>Nodes\<close>

text \<open>Deleting a node cancels its requests: the requests listed for the node are deleted
  one after the other, complete or not, each once, and an error of one deletion does not keep
  the others from being tried.\<close>

theorem HandleNode_deleted:
  "new_calls s (snd (HandleNode K getenv node True s)) =
     QueryRequests (''target='' @ Name (n_ObjectMeta node)) #
     map DeleteRequest (requests_for K node s) \<and>
   fst (HandleNode K getenv node True s) = None"
  by (simp add: HandleNode_def CancelFencingRequests_calls)

text \<open>C34: a node with one \<open>Ready\<close> condition is handled by that condition alone, wherever it
  stands in the list: if its status is \<open>Unknown\<close>, a request is created unless one of the
  requests listed for the node is complete; with any other status, \<open>False\<close> too, the requests
  of the node are deleted and none is created.\<close>

theorem HandleNode_ready:
  assumes "Conditions node = cs1 @ c # cs2" and "cond_Type c = ''Ready''"
    and "\<forall>c' \<in> set cs1 \<union> set cs2. cond_Type c' \<noteq> ''Ready''"
  shows "let t = snd (HandleNode K getenv node False s);
             s1 = snd (isNodeDirty K node c s)
    in if cond_Status c = ''Unknown''
       then creates_unless getenv node (condition_text c) (requests_for K node s1) (new_calls s t)
       else new_calls s t = QueryRequests (''target='' @ Name (n_ObjectMeta node)) #
         map DeleteRequest (requests_for K node s)"
proof -
  have skip: "condition_loop K getenv node cs s = s" if "\<forall>c' \<in> set cs. cond_Type c' \<noteq> ''Ready''" for cs s
    using that by (induction cs) simp_all
  have skip1: "condition_loop K getenv node (cs @ cs') s = condition_loop K getenv node cs' s"
    if "\<forall>c' \<in> set cs. cond_Type c' \<noteq> ''Ready''" for cs cs' s
    using that by (induction cs) simp_all
  let ?s1 = "snd (isNodeDirty K node c s)"
  have t: "snd (HandleNode K getenv node False s) =
      (if cond_Status c = ''Unknown''
       then snd (CreateFencingRequest K getenv node (condition_text c) ?s1)
       else snd (CancelFencingRequests K node [] s))"
    using assms isNodeDirty_calls [of K node c s]
    by (auto simp: HandleNode_def skip1 skip split_beta Let_def)
  have r: "ext s ?s1" "list_all is_read (new_calls s ?s1)"
    using isNodeDirty_calls [of K node c s] by (auto simp: only_def)
  have "creates_unless getenv node (condition_text c) (requests_for K node ?s1)
      (new_calls s (snd (CreateFencingRequest K getenv node (condition_text c) ?s1)))"
    unfolding new_calls_trans [OF r(1) CreateFencingRequest_calls [THEN conjunct1]]
    using r(2) CreateFencingRequest_calls [THEN conjunct2] by (rule creates_unless_reads)
  then show ?thesis by (simp add: t CancelFencingRequests_calls Let_def)
qed

definition lost_node :: "string \<Rightarrow> Node" where
  "lost_node status = (sample_node ''somehost'')
     \<lparr>Conditions := [\<lparr>cond_Type = ''DiskPressure'', cond_Status = ''False'', LastHeartbeatTime = ''t0'',
         LastTransitionTime = ''t0'', Reason = ''ok'', cond_Message = ''ok''\<rparr>,
       \<lparr>cond_Type = ''Ready'', cond_Status = status, LastHeartbeatTime = ''t1'',
         LastTransitionTime = ''t1'', Reason = ''NodeStatusUnknown'', cond_Message = ''gone''\<rparr>]\<rparr>"

theorem HandleNode_ready_witness:
  "\<exists>r. CreateRequest r \<in> set (calls (snd (HandleNode (quiet_api [] [] [sample_request None] [])
      (\<lambda>v. ''operators'') (lost_node ''Unknown'') False (sample_state [])))) \<and>
    Origin (Spec r) = ''{Ready Unknown t1 t1 NodeStatusUnknown gone}''"
proof -
  let ?K = "quiet_api [] [] [sample_request None] []"
  let ?c = "\<lparr>cond_Type = ''Ready'', cond_Status = ''Unknown'', LastHeartbeatTime = ''t1'',
      LastTransitionTime = ''t1'', Reason = ''NodeStatusUnknown'', cond_Message = ''gone''\<rparr>"
  have one: "\<not> list_ex (\<lambda>r. Complete (Status r)) (requests_for ?K (lost_node ''Unknown'') s)" for s
    by (simp add: requests_for_def listFencingRequests_def query_List_requests_def perform_def
        quiet_api_def sample_request_def empty_status_def Let_def)
  have calls: "calls t = new_calls (sample_state []) t" for t
    by (simp add: new_calls_def sample_state_def)
  have ready: "Conditions (lost_node ''Unknown'') = [hd (Conditions (lost_node ''Unknown''))] @ ?c # []"
    "\<forall>c' \<in> set [hd (Conditions (lost_node ''Unknown''))] \<union> set []. cond_Type c' \<noteq> ''Ready''"
    by (simp_all add: lost_node_def)
  obtain rs r where "new_calls (sample_state []) (snd (HandleNode ?K (\<lambda>v. ''operators'')
      (lost_node ''Unknown'') False (sample_state []))) = rs @ [CreateRequest r]"
    and "Origin (Spec r) = condition_text ?c"
    using HandleNode_ready [OF ready(1) _ ready(2), where K = ?K and s = "sample_state []"
        and getenv = "\<lambda>v. ''operators''"] one
    by (auto simp: creates_unless_def request_for_def Let_def)
  then show ?thesis by (auto simp: calls condition_text_def)
qed

subsection \<open>Events\<close>

text \<open>An event leads to no call at all unless it is a warning from one of the five supported
  sources; then its node is read and, when that succeeds, a request with the event's reason is
  created unless a listed one is complete. The error of the creation is not returned.\<close>

theorem HandleEvent_filter:
  "let t = snd (HandleEvent K getenv event deleted s) in
   if ev_Type event = ''Warning'' \<and> Component event \<in> {''abrt-notification'', ''abrt-adaptor'',
        ''docker-monitor'', ''kernel-monitor'', ''kernel''}
   then let ((err, node), s1) = query_Get_node K (Host event) s in
     if err \<noteq> None then new_calls s t = [GetNode (Host event)] \<and>
       fst (HandleEvent K getenv event deleted s) = err
     else fst (HandleEvent K getenv event deleted s) = None \<and>
       creates_unless getenv node (ev_Reason event) (requests_for K node s1) (new_calls s t)
   else t = s"
proof -
  obtain err node s1 where q: "query_Get_node K (Host event) s = ((err, node), s1)" by (metis surj_pair)
  have e: "ext s s1" "new_calls s s1 = [GetNode (Host event)]"
    using performed [OF q [unfolded query_Get_node_def]] by simp_all
  have c: "creates_unless getenv node (ev_Reason event) (requests_for K node s1)
      (new_calls s (snd (CreateFencingRequest K getenv node (ev_Reason event) s1)))"
    unfolding new_calls_trans [OF e(1) CreateFencingRequest_calls [THEN conjunct1]]
    using _ CreateFencingRequest_calls [THEN conjunct2] by (rule creates_unless_reads) (simp add: e)
  show ?thesis
  proof (cases "ev_Type event = ''Warning'' \<and> Component event \<in> set supportedNodeProblemSources")
    case False
    then show ?thesis by (auto simp: HandleEvent_def supportedNodeProblemSources_def Let_def)
  next
    case True
    then have "HandleEvent K getenv event deleted s = (if err \<noteq> None then (err, s1)
        else (None, snd (CreateFencingRequest K getenv node (ev_Reason event) s1)))"
      by (simp add: HandleEvent_def getNode_def q split: if_splits)
    with True c e show ?thesis by (simp add: q supportedNodeProblemSources_def Let_def)
  qed
qed

subsection \<open>The dispatcher\<close>

text \<open>C35: no event makes \<open>Handle\<close> return an error, whatever its handler returned.
  A ConfigMap asks nothing of the server; a node or an event never creates a job or updates a
  request, a job or a request never creates or deletes a request, and nothing sleeps. Nodes and
  events leave the loaded configurations alone; jobs and requests do so with a server that gives
  back what it is sent, and with any server change at most the names and the elements of commands
  that its answers are decoded into.\<close>

theorem Handle_effects:
  "(\<forall>x t. Handle K getenv yaml \<rho> object deleted s = Returned x t \<longrightarrow> x = None) \<and>
   (let t = final_state (Handle K getenv yaml \<rho> object deleted s) in
    case object of
      EConfigMap cm \<Rightarrow> new_calls s t = []
    | ENode n \<Rightarrow> list_all for_node (new_calls s t) \<and> fencingConfigs t = fencingConfigs s
    | EEvent e \<Rightarrow> list_all for_node (new_calls s t) \<and> fencingConfigs t = fencingConfigs s
    | EJob j \<Rightarrow> list_all for_request (new_calls s t) \<and>
        kept K (fencingConfigs s) (fencingConfigs t)
    | EFencingRequest r \<Rightarrow> list_all for_request (new_calls s t) \<and>
        kept K (fencingConfigs s) (fencingConfigs t)
    | EOther \<Rightarrow> t = s)"
proof -
  have drop: "only P s t \<Longrightarrow> list_all P (new_calls s t) \<and> fencingConfigs t = fencingConfigs s" for P t
    by (simp add: only_def fencingConfigs_ext)
  have weak: "does K P s t \<Longrightarrow> list_all P (new_calls s t) \<and>
      kept K (fencingConfigs s) (fencingConfigs t)" for P t
    by (simp add: does_def evolves_kept)
  show ?thesis
  proof (cases object)
    case (EJob j)
    then show ?thesis using weak [OF does_Handle_job [of K s \<rho> j deleted]]
      by (cases "HandleJob K \<rho> j deleted s") (simp_all add: Handle_def)
  next
    case (EFencingRequest r)
    then show ?thesis using weak [OF does_Handle_request [of K s \<rho> r deleted]]
      by (cases "HandleFencingRequest K \<rho> r deleted s") (auto simp: Handle_def)
  next
    case (ENode n)
    then show ?thesis using drop [OF for_node_HandleNode] by (simp add: Handle_def)
  next
    case (EEvent e)
    then show ?thesis using drop [OF for_node_HandleEvent] by (simp add: Handle_def)
  qed (simp_all add: Handle_def new_calls_def HandleConfigMap_calls)
qed

theorem Handle_effects_witness:
  "fencingConfigs (final_state (Handle (quiet_api [] [] [] []) (\<lambda>v. []) (\<lambda>t. ([], None)) in_order
     (EFencingRequest (sample_request None)) False (sample_state [(''c'', None)]))) = [(''c'', None)]"
proof -
  have "echoes (quiet_api [] [] [] [])"
    by (auto simp: echoes_def quiet_api_def list_all_iff in_set_zip)
  moreover have "m_ok [(''c'', None :: FencingConfig option)]" by (simp add: m_ok_def)
  ultimately show ?thesis
    using Handle_effects [where K = "quiet_api [] [] [] []" and getenv = "\<lambda>v. []"
        and yaml = "\<lambda>t. ([], None)" and \<rho> = in_order and object = "EFencingRequest (sample_request None)"
        and deleted = False and s = "sample_state [(''c'', None)]"]
    by (simp add: sample_state_def kept_def Let_def)
qed

end
