(* ===== verification/Wire.thy ===== *)
theory Wire
  imports Types "HOL-Library.Monad_Syntax"
begin

section \<open>The JSON form of a fencing request (pkg/apis/fencing/v1alpha1/types.go)\<close>

text \<open>
  Every object goes to the API server and comes back as JSON by the struct tags of
  \<open>types.go\<close>. The model has the tags, the rule for \<open>omitempty\<close> and the rule of Go's JSON
  encoders for a name that several fields of a struct carry: none of them is written or read.
  JSON is a value here; its text, and what the encoder does to strings that are not UTF-8, are
  not modelled. A decoder fills a zero struct, and \<open>None\<close> is its error.
\<close>

subsection \<open>Values and structs\<close>

datatype json =
    JNull
  | JBool bool
  | JInt int
  | JStr string
  | JArr "json list"
  | JObj "(string \<times> json) list"

text \<open>
  A field of a struct: the name of its tag, whether \<open>omitempty\<close> leaves out its present value,
  and that value. \<open>dominant\<close> keeps the fields whose name no other field has.
\<close>

type_synonym field = "string \<times> bool \<times> json"

definition dominant :: "string list \<Rightarrow> string \<Rightarrow> bool" where
  "dominant tags name \<longleftrightarrow> count_list tags name = 1"

definition marshal_struct :: "field list \<Rightarrow> json" where
  "marshal_struct fs =
     JObj (map (\<lambda>(name, omit, v). (name, v))
       (filter (\<lambda>(name, omit, v). dominant (map fst fs) name \<and> \<not> omit) fs))"

definition json_field :: "string list \<Rightarrow> string \<Rightarrow> (string \<times> json) list \<Rightarrow> json option" where
  "json_field tags name kvs = (if dominant tags name then map_of kvs name else None)"

text \<open>Decoding a field: an absent name or \<open>null\<close> leaves the zero value.\<close>

fun members :: "json \<Rightarrow> (string \<times> json) list option" where
  "members (JObj kvs) = Some kvs"
| "members JNull = Some []"
| "members _ = None"

fun as_string :: "json option \<Rightarrow> string option" where
  "as_string None = Some []"
| "as_string (Some JNull) = Some []"
| "as_string (Some (JStr s)) = Some s"
| "as_string _ = None"

fun as_pointer :: "json option \<Rightarrow> string option option" where
  "as_pointer None = Some None"
| "as_pointer (Some JNull) = Some None"
| "as_pointer (Some (JStr s)) = Some (Some s)"
| "as_pointer _ = None"

fun as_bool :: "json option \<Rightarrow> bool option" where
  "as_bool None = Some False"
| "as_bool (Some JNull) = Some False"
| "as_bool (Some (JBool b)) = Some b"
| "as_bool _ = None"

fun as_int64 :: "json option \<Rightarrow> 64 word option" where
  "as_int64 None = Some 0"
| "as_int64 (Some JNull) = Some 0"
| "as_int64 (Some (JInt i)) =
     (if - (2 ^ 63) \<le> i \<and> i < 2 ^ 63 then Some (word_of_int i) else None)"
| "as_int64 _ = None"

fun all_some :: "'a option list \<Rightarrow> 'a list option" where
  "all_some [] = Some []"
| "all_some (x # xs) = (case x of None \<Rightarrow> None | Some y \<Rightarrow> map_option ((#) y) (all_some xs))"

fun as_list :: "(json \<Rightarrow> 'a option) \<Rightarrow> json option \<Rightarrow> 'a list option" where
  "as_list dec None = Some []"
| "as_list dec (Some JNull) = Some []"
| "as_list dec (Some (JArr vs)) = all_some (map dec vs)"
| "as_list dec _ = None"

fun pointer_json :: "string option \<Rightarrow> json" where
  "pointer_json None = JNull"
| "pointer_json (Some s) = JStr s"

subsection \<open>The types\<close>

definition update_tags :: "string list" where
  "update_tags = [''timestamp'', ''method'', ''message'', ''output'', ''error'']"

definition marshal_update :: "FencingRequestStatusUpdate \<Rightarrow> json" where
  "marshal_update u =
     marshal_struct
       [(''timestamp'', False, JStr (Timestamp u)),
        (''method'', Method u = [], JStr (Method u)),
        (''message'', False, JStr (Message u)),
        (''output'', False, JStr (Output u)),
        (''error'', Error u = [], JStr (Error u))]"

definition unmarshal_update :: "json \<Rightarrow> FencingRequestStatusUpdate option" where
  "unmarshal_update j =
     do { kvs \<leftarrow> members j;
          timestamp \<leftarrow> as_string (json_field update_tags ''timestamp'' kvs);
          method \<leftarrow> as_string (json_field update_tags ''method'' kvs);
          message \<leftarrow> as_string (json_field update_tags ''message'' kvs);
          output \<leftarrow> as_string (json_field update_tags ''output'' kvs);
          err \<leftarrow> as_string (json_field update_tags ''error'' kvs);
          Some \<lparr>Timestamp = timestamp, Method = method, Message = message, Output = output,
                Error = err\<rparr> }"

text \<open>Both \<open>ActiveMethod\<close> and \<open>ActiveJob\<close> have the tag \<open>activeMethod\<close> in the source.\<close>

definition status_tags :: "string list" where
  "status_tags =
     [''complete'', ''result'', ''config'', ''activeMethod'', ''activeMethod'', ''updates'']"

definition marshal_status :: "FencingRequestStatus \<Rightarrow> json" where
  "marshal_status st =
     marshal_struct
       [(''complete'', False, JBool (Complete st)),
        (''result'', False, JStr (Result st)),
        (''config'', FencingRequestStatus.Config st = None,
           pointer_json (FencingRequestStatus.Config st)),
        (''activeMethod'', ActiveMethod st = None, pointer_json (ActiveMethod st)),
        (''activeMethod'', ActiveJob st = None, pointer_json (ActiveJob st)),
        (''updates'', Updates st = [], JArr (map marshal_update (Updates st)))]"

definition unmarshal_status :: "json \<Rightarrow> FencingRequestStatus option" where
  "unmarshal_status j =
     do { kvs \<leftarrow> members j;
          complete \<leftarrow> as_bool (json_field status_tags ''complete'' kvs);
          result \<leftarrow> as_string (json_field status_tags ''result'' kvs);
          config \<leftarrow> as_pointer (json_field status_tags ''config'' kvs);
          method \<leftarrow> as_pointer (json_field status_tags ''activeMethod'' kvs);
          job \<leftarrow> as_pointer (json_field status_tags ''activeMethod'' kvs);
          updates \<leftarrow> as_list unmarshal_update (json_field status_tags ''updates'' kvs);
          Some \<lparr>Complete = complete, Result = result, Config = config, ActiveMethod = method,
                ActiveJob = job, Updates = updates\<rparr> }"

definition spec_tags :: "string list" where
  "spec_tags = [''target'', ''origin'', ''operation'', ''podList'', ''validAfter'']"

definition marshal_spec :: "FencingRequestSpec \<Rightarrow> json" where
  "marshal_spec sp =
     marshal_struct
       [(''target'', False, JStr (Target sp)),
        (''origin'', Origin sp = [], JStr (Origin sp)),
        (''operation'', Operation sp = [], JStr (Operation sp)),
        (''podList'', PodList sp = [], JArr (map JStr (PodList sp))),
        (''validAfter'', ValidAfter sp = 0, JInt (sint (ValidAfter sp)))]"

definition unmarshal_spec :: "json \<Rightarrow> FencingRequestSpec option" where
  "unmarshal_spec j =
     do { kvs \<leftarrow> members j;
          target \<leftarrow> as_string (json_field spec_tags ''target'' kvs);
          origin \<leftarrow> as_string (json_field spec_tags ''origin'' kvs);
          operation \<leftarrow> as_string (json_field spec_tags ''operation'' kvs);
          pods \<leftarrow> as_list (\<lambda>v. as_string (Some v)) (json_field spec_tags ''podList'' kvs);
          after \<leftarrow> as_int64 (json_field spec_tags ''validAfter'' kvs);
          Some \<lparr>Target = target, Origin = origin, Operation = operation, PodList = pods,
                ValidAfter = after\<rparr> }"

text \<open>
  The request itself: the type's fields are inlined, and a status that is a struct is written
  even when it is zero. The codec of \<open>metav1.ObjectMeta\<close> belongs to the API machinery and is an
  argument.
\<close>

definition request_tags :: "string list" where
  "request_tags = [''kind'', ''apiVersion'', ''metadata'', ''spec'', ''status'']"

definition marshal_request :: "(ObjectMeta \<Rightarrow> json) \<Rightarrow> FencingRequest \<Rightarrow> json" where
  "marshal_request meta fr =
     marshal_struct
       [(''kind'', Kind (fr_TypeMeta fr) = [], JStr (Kind (fr_TypeMeta fr))),
        (''apiVersion'', APIVersion (fr_TypeMeta fr) = [], JStr (APIVersion (fr_TypeMeta fr))),
        (''metadata'', False, meta (fr_ObjectMeta fr)),
        (''spec'', False, marshal_spec (Spec fr)),
        (''status'', False, marshal_status (Status fr))]"

definition unmarshal_request :: "(json option \<Rightarrow> ObjectMeta option) \<Rightarrow> json \<Rightarrow> FencingRequest option" where
  "unmarshal_request meta j =
     do { kvs \<leftarrow> members j;
          kind \<leftarrow> as_string (json_field request_tags ''kind'' kvs);
          api \<leftarrow> as_string (json_field request_tags ''apiVersion'' kvs);
          md \<leftarrow> meta (json_field request_tags ''metadata'' kvs);
          sp \<leftarrow> unmarshal_spec (case json_field request_tags ''spec'' kvs of
                  None \<Rightarrow> JNull | Some v \<Rightarrow> v);
          st \<leftarrow> unmarshal_status (case json_field request_tags ''status'' kvs of
                  None \<Rightarrow> JNull | Some v \<Rightarrow> v);
          Some \<lparr>fr_TypeMeta = \<lparr>Kind = kind, APIVersion = api\<rparr>, fr_ObjectMeta = md, Spec = sp,
                Status = st\<rparr> }"

subsection \<open>Codecs\<close>

text \<open>
  A codec: decoding what was encoded gives the value back up to \<open>norm\<close>. Lists of encodable
  values are then encodable too.
\<close>

locale codec =
  fixes enc :: "'a \<Rightarrow> json" and dec :: "json \<Rightarrow> 'a option" and norm :: "'a \<Rightarrow> 'a"
  assumes dec_enc: "dec (enc x) = Some (norm x)"
begin

lemma all_some_enc: "all_some (map (\<lambda>x. dec (enc x)) xs) = Some (map norm xs)"
  by (induction xs) (simp_all add: dec_enc)

lemma list_roundtrip: "as_list dec (Some (JArr (map enc xs))) = Some (map norm xs)"
  using all_some_enc [of xs] by (simp add: comp_def)

lemma norm_stable: "norm x = x \<Longrightarrow> dec (enc x) = Some x"
  by (simp add: dec_enc)

end

lemmas struct_defs = marshal_struct_def json_field_def dominant_def

interpretation strings: codec JStr "\<lambda>v. as_string (Some v)" "\<lambda>s. s"
  by unfold_locales simp

interpretation updates: codec marshal_update unmarshal_update "\<lambda>u. u"
  by unfold_locales
    (simp add: marshal_update_def unmarshal_update_def update_tags_def struct_defs)

interpretation spec: codec marshal_spec unmarshal_spec "\<lambda>sp. sp"
proof unfold_locales
  fix sp :: FencingRequestSpec
  have "- (2 ^ 63) \<le> sint (ValidAfter sp) \<and> sint (ValidAfter sp) < 2 ^ 63"
    using sint_range_size [of "ValidAfter sp"] by (simp add: word_size)
  then show "unmarshal_spec (marshal_spec sp) = Some sp"
    using strings.list_roundtrip [of "PodList sp"]
    by (simp add: marshal_spec_def unmarshal_spec_def spec_tags_def struct_defs)
qed

definition forget_active :: "FencingRequestStatus \<Rightarrow> FencingRequestStatus" where
  "forget_active st = st\<lparr>ActiveMethod := None, ActiveJob := None\<rparr>"

interpretation status: codec marshal_status unmarshal_status forget_active
proof unfold_locales
  fix st :: FencingRequestStatus
  show "unmarshal_status (marshal_status st) = Some (forget_active st)"
    using updates.list_roundtrip [of "Updates st"]
    by (cases "FencingRequestStatus.Config st")
      (simp_all add: marshal_status_def unmarshal_status_def status_tags_def struct_defs
        forget_active_def)
qed

text \<open>Whatever JSON it is given, the decoder reads neither an active method nor an active job.\<close>

lemma unmarshal_status_inactive:
  "unmarshal_status j = Some st \<Longrightarrow> ActiveMethod st = None \<and> ActiveJob st = None"
  by (auto simp: unmarshal_status_def status_tags_def json_field_def dominant_def
      bind_eq_Some_conv)

lemma unmarshal_request_inactive:
  assumes "unmarshal_request meta j = Some fr"
  shows "ActiveMethod (Status fr) = None \<and> ActiveJob (Status fr) = None"
proof -
  obtain v where "unmarshal_status v = Some (Status fr)"
    using assms by (auto simp: unmarshal_request_def bind_eq_Some_conv)
  then show ?thesis by (rule unmarshal_status_inactive)
qed

subsection \<open>Properties\<close>

text \<open>C38: a fencing request that is written and read back is the same in its type, metadata,
  spec and history, with its completion, result and configuration; only its active method and
  active job are gone. The metadata's own codec is assumed to give the metadata back.\<close>

theorem request_roundtrip:
  assumes "dm (Some (em (fr_ObjectMeta fr))) = Some (fr_ObjectMeta fr)"
  shows "unmarshal_request dm (marshal_request em fr) =
    Some (fr\<lparr>Status := (Status fr)\<lparr>ActiveMethod := None, ActiveJob := None\<rparr>\<rparr>)"
  using assms by (simp add: marshal_request_def unmarshal_request_def request_tags_def struct_defs
      spec.dec_enc status.dec_enc forget_active_def)

definition name_codec :: "ObjectMeta \<Rightarrow> json" where
  "name_codec m = JStr (Name m)"

definition name_decoder :: "json option \<Rightarrow> ObjectMeta option" where
  "name_decoder j = map_option (\<lambda>n. empty_meta\<lparr>Name := n\<rparr>) (as_string j)"

theorem request_roundtrip_witness:
  "let fr = \<lparr>fr_TypeMeta = \<lparr>Kind = ''FencingRequest'', APIVersion = ''v1''\<rparr>,
        fr_ObjectMeta = empty_meta\<lparr>Name := ''r''\<rparr>,
        Spec = \<lparr>Target = ''n'', Origin = [], Operation = ''Off'', PodList = [''p''], ValidAfter = 7\<rparr>,
        Status = empty_status\<lparr>ActiveJob := Some ''job'', Complete := True\<rparr>\<rparr>
   in unmarshal_request name_decoder (marshal_request name_codec fr) =
     Some (fr\<lparr>Status := empty_status\<lparr>Complete := True\<rparr>\<rparr>)"
  unfolding Let_def
  by (subst request_roundtrip) (simp_all add: name_codec_def name_decoder_def empty_status_def)

text \<open>A request that the decoder delivers has no active method and no active job, whatever
  JSON the server sends, a field \<open>activeMethod\<close> included.\<close>

theorem decoded_request_inactive:
  assumes "unmarshal_request dm j = Some fr"
  shows "ActiveMethod (Status fr) = None \<and> ActiveJob (Status fr) = None"
  using assms by (rule unmarshal_request_inactive)

theorem decoded_request_inactive_witness:
  "\<exists>fr. unmarshal_request name_decoder
      (JObj [(''metadata'', JStr ''r''), (''status'', JObj [(''activeMethod'', JStr ''m'')])]) = Some fr \<and>
    ActiveMethod (Status fr) = None"
proof -
  obtain fr where "unmarshal_request name_decoder
      (JObj [(''metadata'', JStr ''r''), (''status'', JObj [(''activeMethod'', JStr ''m'')])]) = Some fr"
    by (simp add: unmarshal_request_def unmarshal_spec_def unmarshal_status_def name_decoder_def
        json_field_def dominant_def request_tags_def spec_tags_def status_tags_def)
  with decoded_request_inactive [OF this] show ?thesis by blast
qed

end
