(* ===== verification/Bootstrap.thy ===== *)
theory Bootstrap
  imports Backoff Types
begin

section \<open>Starting the operator (cmd/fencing-operator, pkg/k8sutil, pkg/constants)\<close>

text \<open>
  \<open>main\<close> checks its environment, runs for the leadership of its mode and, once leader, creates
  the custom resource definition and starts to watch. The process environment is a Go map that
  \<open>inClusterConfig\<close> writes to. The resolver, the Kubernetes clients, the SDK's \<open>Watch\<close> and the
  outcome of the election (which \<open>Candidates\<close> is about) are arguments, in a value \<open>B\<close> of type
  \<open>'w boot\<close>.
  Calls are recorded in the ghost field \<open>trace\<close>.
\<close>

subsection \<open>Constants (pkg/constants, register.go)\<close>

definition EnvOperatorPodName :: string where "EnvOperatorPodName = ''POD_NAME''"
definition EnvOperatorPodNamespace :: string where "EnvOperatorPodNamespace = ''POD_NAMESPACE''"
definition EnvOperatorPodMode :: string where "EnvOperatorPodMode = ''POD_MODE''"
definition EnvOperatorPodImage :: string where "EnvOperatorPodImage = ''AGENT_IMAGE''"

definition version :: string where "version = ''v1alpha1''"
definition groupName :: string where "groupName = ''fencing.clusterlabs.org''"
definition FencingRequestResourceKind :: string where
  "FencingRequestResourceKind = ''FencingRequest''"
definition FencingRequestResourcePlural :: string where
  "FencingRequestResourcePlural = ''fencingrequests''"
definition FencingRequestResourceShort :: string where "FencingRequestResourceShort = ''fr''"
definition FencingRequestCRDName :: string where
  "FencingRequestCRDName = FencingRequestResourcePlural @ ''.'' @ groupName"

lemmas boot_constants = EnvOperatorPodName_def EnvOperatorPodNamespace_def EnvOperatorPodMode_def
  EnvOperatorPodImage_def version_def groupName_def FencingRequestResourceKind_def
  FencingRequestResourcePlural_def FencingRequestResourceShort_def FencingRequestCRDName_def

subsection \<open>The world outside\<close>

record CRDCondition =
  cc_Type :: string
  cc_Status :: string
  cc_Reason :: string

text \<open>The fields of \<open>CustomResourceDefinition\<close> that the operator sets or reads.\<close>

record CustomResourceDefinition =
  crd_TypeMeta :: TypeMeta
  crd_Name :: string
  Group :: string
  Version :: string
  Scope :: string
  Plural :: string
  crd_Kind :: string
  ShortNames :: "string list"
  crd_Conditions :: "CRDCondition list"

record LeaderElectionConfig =
  lock_Namespace :: string
  lock_Name :: string
  Identity :: string
  LeaseDuration :: int
  RenewDeadline :: int
  RetryPeriod :: int

datatype boot_call =
    LookupHost string
  | CreateCRD CustomResourceDefinition
  | GetCRD string
  | Watch string string string int
  | Campaign LeaderElectionConfig
  | RunInformers
  | BootSlept int

record 'w bootstate =
  outside :: 'w
  environ :: strmap
  trace :: "boot_call list"

text \<open>
  \<open>rest_config\<close> and \<open>file_config\<close> are \<open>rest.InClusterConfig\<close> and
  \<open>clientcmd.BuildConfigFromFlags\<close>; \<open>client_ok\<close> says what a client constructor
  (\<open>NewForConfigOrDie\<close>) does with a configuration, \<open>None\<close> being the \<open>nil\<close> pointer: it panics or
  not. \<open>new_lock\<close> is \<open>resourcelock.New\<close>, \<open>acquire\<close> whether the leadership is ever won.
\<close>

record 'w boot =
  lookup_host :: "string \<Rightarrow> 'w \<Rightarrow> (string list \<times> error option) \<times> 'w"
  rest_config :: "strmap \<Rightarrow> 'w \<Rightarrow> (string option \<times> error option) \<times> 'w"
  file_config :: "string \<Rightarrow> 'w \<Rightarrow> (string option \<times> error option) \<times> 'w"
  client_ok :: "string option \<Rightarrow> panic option"
  new_lock :: "string \<Rightarrow> string \<Rightarrow> string \<Rightarrow> error option"
  acquire :: "LeaderElectionConfig \<Rightarrow> 'w \<Rightarrow> bool \<times> 'w"
  hostname :: "'w \<Rightarrow> (string \<times> error option) \<times> 'w"
  create_crd :: "CustomResourceDefinition \<Rightarrow> 'w \<Rightarrow> error option \<times> 'w"
  get_crd :: "CustomResourceDefinition \<Rightarrow> 'w \<Rightarrow> (error option \<times> CustomResourceDefinition) \<times> 'w"
  watch_resource :: "string \<Rightarrow> string \<Rightarrow> string \<Rightarrow> 'w \<Rightarrow> error option \<times> 'w"
  boot_clock :: "'w clock"

definition boot_do :: "boot_call \<Rightarrow> ('w \<Rightarrow> 'a \<times> 'w) \<Rightarrow> 'w bootstate \<Rightarrow> 'a \<times> 'w bootstate" where
  "boot_do c f s =
     (let (r, w) = f (outside s) in (r, s\<lparr>outside := w, trace := trace s @ [c]\<rparr>))"

definition Getenv :: "'w bootstate \<Rightarrow> string \<Rightarrow> string" where
  "Getenv s key = (case map_of (environ s) key of None \<Rightarrow> [] | Some v \<Rightarrow> v)"

definition Setenv :: "string \<Rightarrow> string \<Rightarrow> 'w bootstate \<Rightarrow> 'w bootstate" where
  "Setenv key v s = s\<lparr>environ := m_put key v (environ s)\<rparr>"

text \<open>The clock of the retry loops, over the state with the object the closure captures.\<close>

definition lift_clock :: "'w boot \<Rightarrow> ('x \<times> 'w bootstate) clock" where
  "lift_clock B =
     \<lparr>Sleep = (\<lambda>d (x, s). (x, s\<lparr>outside := Sleep (boot_clock B) d (outside s),
                                    trace := trace s @ [BootSlept d]\<rparr>)),
      jittered = (\<lambda>d j (x, s). let (d', w) = jittered (boot_clock B) d j (outside s)
                               in (d', (x, s\<lparr>outside := w\<rparr>))),
      scaled = scaled (boot_clock B)\<rparr>"

subsection \<open>Clients (pkg/k8sutil/k8sutil.go)\<close>

definition inClusterConfig ::
    "'w boot \<Rightarrow> 'w bootstate \<Rightarrow> ('w bootstate, string option \<times> error option) outcome" where
  "inClusterConfig B s =
     and_then
       (if Getenv s ''KUBERNETES_SERVICE_HOST'' = [] then
          (let ((addrs, err), s1) =
                 boot_do (LookupHost ''kubernetes.default.svc'')
                   (lookup_host B ''kubernetes.default.svc'') s
           in if err \<noteq> None then Returned (Some err) s1
              else (case addrs of
                      [] \<Rightarrow> Panicked IndexOutOfRange s1
                    | a # _ \<Rightarrow> Returned None (Setenv ''KUBERNETES_SERVICE_HOST'' a s1)))
        else Returned None s)
       (\<lambda>failed s1.
         case failed of
           Some err \<Rightarrow> Returned (None, err) s1
         | None \<Rightarrow>
             (let s2 = (if Getenv s1 ''KUBERNETES_SERVICE_PORT'' = []
                        then Setenv ''KUBERNETES_SERVICE_PORT'' ''443'' s1 else s1);
                  (r, w) = rest_config B (environ s2) (outside s2)
              in Returned r (s2\<lparr>outside := w\<rparr>)))"

definition outOfClusterConfig ::
    "'w boot \<Rightarrow> 'w bootstate \<Rightarrow> ('w bootstate, string option \<times> error option) outcome" where
  "outOfClusterConfig B s =
     (let (r, w) = file_config B (Getenv s ''KUBERNETES_CONFIG'') (outside s)
      in Returned r (s\<lparr>outside := w\<rparr>))"

definition new_client :: "'w boot \<Rightarrow> string option \<Rightarrow> 'w bootstate \<Rightarrow> ('w bootstate, unit) outcome" where
  "new_client B cfg s = (case client_ok B cfg of None \<Rightarrow> Returned () s | Some p \<Rightarrow> Panicked p s)"

definition mustNewKubeClientAndConfig ::
    "'w boot \<Rightarrow> 'w bootstate \<Rightarrow> ('w bootstate, string option) outcome" where
  "mustNewKubeClientAndConfig B s =
     and_then
       (if Getenv s ''KUBERNETES_CONFIG'' \<noteq> [] then outOfClusterConfig B s
        else inClusterConfig B s)
       (\<lambda>(cfg, err) s1.
         case err of
           Some e \<Rightarrow> Panicked (Explicit (err_text e)) s1
         | None \<Rightarrow> and_then (new_client B cfg s1) (\<lambda>_ s2. Returned cfg s2))"

subsection \<open>The custom resource definition\<close>

definition CreateFencingCRD :: CustomResourceDefinition where
  "CreateFencingCRD =
     \<lparr>crd_TypeMeta = \<lparr>Kind = ''CustomResourceDefinition'', APIVersion = ''v1beta1''\<rparr>,
      crd_Name = FencingRequestCRDName, Group = groupName, Version = version,
      Scope = ''Namespaced'', Plural = FencingRequestResourcePlural,
      crd_Kind = FencingRequestResourceKind, ShortNames = [FencingRequestResourceShort],
      crd_Conditions = []\<rparr>"

fun crd_conditions_loop :: "CRDCondition list \<Rightarrow> bool \<times> error option" where
  "crd_conditions_loop [] = (False, None)"
| "crd_conditions_loop (c # cs) =
     (if cc_Type c = ''Established'' then
        (if cc_Status c = ''True'' then (True, None) else crd_conditions_loop cs)
      else if cc_Type c = ''NamesAccepted'' then
        (if cc_Status c = ''False''
         then (False, Some (Errorf (''Name conflict: '' @ cc_Reason c)))
         else crd_conditions_loop cs)
      else crd_conditions_loop cs)"

definition crd_ready_closure ::
    "'w boot \<Rightarrow> CustomResourceDefinition \<times> 'w bootstate \<Rightarrow>
     (bool \<times> error option) \<times> CustomResourceDefinition \<times> 'w bootstate" where
  "crd_ready_closure B st =
     (let (crd, s) = st;
          ((err, crd'), s1) = boot_do (GetCRD (crd_Name crd)) (get_crd B crd) s
      in if err \<noteq> None then ((False, err), (crd', s1))
         else (crd_conditions_loop (crd_Conditions crd'), (crd', s1)))"

definition WaitCRDReady ::
    "'w boot \<Rightarrow> string \<Rightarrow> 'w bootstate \<Rightarrow> error option \<times> 'w bootstate" where
  "WaitCRDReady B crdName s =
     (let crd = \<lparr>crd_TypeMeta = \<lparr>Kind = ''CustomResourceDefinition'', APIVersion = ''v1beta1''\<rparr>,
                 crd_Name = crdName, Group = [], Version = [], Scope = [], Plural = [],
                 crd_Kind = [], ShortNames = [], crd_Conditions = []\<rparr>;
          (err, _, s1) =
            ExponentialBackoff (lift_clock B) defaultBackoff (crd_ready_closure B) (crd, s)
      in case err of
           None \<Rightarrow> (None, s1)
         | Some e \<Rightarrow> (Some (Errorf (''CRD creation failed: '' @ err_text e)), s1))"

definition create_crd_closure ::
    "'w boot \<Rightarrow> CustomResourceDefinition \<times> 'w bootstate \<Rightarrow>
     (bool \<times> error option) \<times> CustomResourceDefinition \<times> 'w bootstate" where
  "create_crd_closure B st =
     (let (crd, s) = st; (err, s1) = boot_do (CreateCRD crd) (create_crd B crd) s
      in if err \<noteq> None \<and> \<not> IsAlreadyExists err then ((False, err), (crd, s1))
         else ((True, None), (crd, s1)))"

text \<open>\<open>RegisterCRD\<close> ignores the error of \<open>inClusterConfig\<close> and goes on with its \<open>nil\<close>.\<close>

definition RegisterCRD ::
    "'w boot \<Rightarrow> 'w bootstate \<Rightarrow> ('w bootstate, error option) outcome" where
  "RegisterCRD B s =
     and_then (inClusterConfig B s)
       (\<lambda>(kubeconfig, _) s1.
         and_then (new_client B kubeconfig s1)
           (\<lambda>_ s2.
             let (err, _, s3) =
                   ExponentialBackoff (lift_clock B) defaultBackoff (create_crd_closure B)
                     (CreateFencingCRD, s2)
             in if err \<noteq> None then Returned err s3
                else (let (err2, s4) = WaitCRDReady B FencingRequestCRDName s3
                      in Returned err2 s4)))"

subsection \<open>Creating any object\<close>

text \<open>
  \<open>CreateObject\<close>: \<open>create\<close> is \<open>action.Create\<close> for objects of a type \<open>'o\<close>, over any state. The
  argument \<open>cause\<close> of the source is not used there.
\<close>

definition create_object_closure ::
    "('o \<Rightarrow> 's \<Rightarrow> (error option \<times> 'o) \<times> 's) \<Rightarrow> 'o \<times> 's \<Rightarrow> (bool \<times> error option) \<times> 'o \<times> 's" where
  "create_object_closure create st =
     (let (obj, s) = st; ((err, obj'), s') = create obj s
      in if err \<noteq> None \<and> \<not> IsAlreadyExists err then ((False, err), (obj', s'))
         else ((True, None), (obj', s')))"

definition CreateObject ::
    "('o \<times> 's) clock \<Rightarrow> ('o \<Rightarrow> 's \<Rightarrow> (error option \<times> 'o) \<times> 's) \<Rightarrow> 'o \<Rightarrow> 's \<Rightarrow>
     error option \<times> 'o \<times> 's" where
  "CreateObject clk create obj s =
     ExponentialBackoff clk defaultBackoff (create_object_closure create) (obj, s)"

interpretation create_object_once: one_shot "create_object_closure create"
  for create :: "'o \<Rightarrow> 's \<Rightarrow> (error option \<times> 'o) \<times> 's"
  by unfold_locales (auto simp: create_object_closure_def split_beta Let_def split: if_splits)

interpretation create_crd_once: one_shot "create_crd_closure B" for B :: "'w boot"
  by unfold_locales (auto simp: create_crd_closure_def split_beta Let_def split: if_splits)

lemma CreateObject_once:
  "CreateObject clk create obj s =
     (let ((err, obj'), s') = create obj s
      in (if IsAlreadyExists err then None else err, obj', s'))"
  by (auto simp: CreateObject_def create_object_once.backoff_runs_once defaultBackoff_def
      create_object_closure_def split_beta Let_def)

subsection \<open>Leadership\<close>

text \<open>How the process ends: by \<open>os.Exit\<close> or \<open>logrus.Fatalf\<close>, or it waits for the lock for ever.\<close>

datatype process_end = Exit0 | Fatal string | WaitsForLock

definition second :: int where
  "second = 1000000000"

text \<open>The check of \<open>leaderelection.NewLeaderElector\<close> (vendored) that \<open>RunOrDie\<close> turns into a panic.\<close>

definition election_error :: "LeaderElectionConfig \<Rightarrow> string option" where
  "election_error lec =
     (if LeaseDuration lec \<le> RenewDeadline lec
      then Some ''leaseDuration must be greater than renewDeadline''
      else if of_int (RenewDeadline lec) \<le> (6 / 5 :: rat) * of_int (RetryPeriod lec)
      then Some ''renewDeadline must be greater than retryPeriod*JitterFactor''
      else None)"

text \<open>The configuration of the election.\<close>

definition singleton_config :: "string \<Rightarrow> string \<Rightarrow> string \<Rightarrow> LeaderElectionConfig" where
  [simp]: "singleton_config namespace role ident =
     \<lparr>lock_Namespace = namespace, lock_Name = role, Identity = ident,
      LeaseDuration = 15 * second, RenewDeadline = 10 * second, RetryPeriod = 2 * second\<rparr>"

text \<open>
  Once elected, \<open>started\<close> runs beside the renewal of the lock; when that fails
  \<open>OnStoppedLeading\<close> ends the process. The model runs \<open>started\<close> first.
\<close>

definition SingletonWith ::
    "'w boot \<Rightarrow> string \<Rightarrow> string \<Rightarrow> string \<Rightarrow> string \<Rightarrow>
     ('w bootstate \<Rightarrow> ('w bootstate, unit) outcome) \<Rightarrow> 'w bootstate \<Rightarrow>
     ('w bootstate, process_end) outcome" where
  "SingletonWith B ident name namespace role started s =
     and_then (mustNewKubeClientAndConfig B s)
       (\<lambda>_ s1.
         case new_lock B namespace role ident of
           Some e \<Rightarrow> Returned (Fatal (''error creating lock: '' @ err_text e)) s1
         | None \<Rightarrow>
             (let lec = singleton_config namespace role ident
              in case election_error lec of
                   Some e \<Rightarrow> Panicked (Explicit e) s1
                 | None \<Rightarrow>
                     (let (won, s2) = boot_do (Campaign lec) (acquire B lec) s1
                      in if \<not> won then Returned WaitsForLock s2
                         else and_then (started s2)
                                (\<lambda>_ s3. Returned (Fatal ''leader election lost'') s3))))"

subsection \<open>main and run (cmd/fencing-operator/main.go)\<close>

record flags =
  mode :: string
  chaosLevel :: int
  printVersion :: bool
  createCRD :: bool

definition default_flags :: flags where
  "default_flags = \<lparr>mode = ''all'', chaosLevel = - 1, printVersion = False, createCRD = True\<rparr>"

definition sdk_Watch ::
    "'w boot \<Rightarrow> string \<Rightarrow> string \<Rightarrow> string \<Rightarrow> int \<Rightarrow> 'w bootstate \<Rightarrow>
     ('w bootstate, unit) outcome" where
  "sdk_Watch B apiVersion kind namespace resync s =
     (let (err, s1) = boot_do (Watch apiVersion kind namespace resync)
            (watch_resource B apiVersion kind namespace) s
      in case err of None \<Rightarrow> Returned () s1 | Some e \<Rightarrow> Panicked (Explicit (err_text e)) s1)"

definition watch_nodes :: "'w boot \<Rightarrow> flags \<Rightarrow> 'w bootstate \<Rightarrow> ('w bootstate, unit) outcome" where
  "watch_nodes B fl s =
     (if mode fl = ''watcher'' \<or> mode fl = ''all'' then
        and_then (sdk_Watch B ''v1'' ''Node'' ''default'' 0 s)
          (\<lambda>_ t. sdk_Watch B ''v1'' ''Event'' ''default'' 0 t)
      else Returned () s)"

definition watch_objects ::
    "'w boot \<Rightarrow> flags \<Rightarrow> string \<Rightarrow> 'w bootstate \<Rightarrow> ('w bootstate, unit) outcome" where
  "watch_objects B fl namespace s =
     (if mode fl = ''executioner'' \<or> mode fl = ''all'' then
        and_then (sdk_Watch B ''v1'' ''ConfigMap'' namespace 0 s)
          (\<lambda>_ t. and_then (sdk_Watch B ''batch/v1'' ''Job'' namespace 0 t)
            (\<lambda>_ u. sdk_Watch B ''fencing.clusterlabs.org/v1alpha1'' ''FencingRequest''
                      namespace 0 u))
      else Returned () s)"

text \<open>The error of \<open>RegisterCRD\<close> is dropped.\<close>

definition run ::
    "'w boot \<Rightarrow> flags \<Rightarrow> string \<Rightarrow> 'w bootstate \<Rightarrow> ('w bootstate, unit) outcome" where
  "run B fl namespace s =
     and_then
       (if createCRD fl then and_then (RegisterCRD B s) (\<lambda>_ s1. Returned () s1)
        else Returned () s)
       (\<lambda>_ s1. and_then (watch_nodes B fl s1)
         (\<lambda>_ s2. and_then (watch_objects B fl namespace s2)
           (\<lambda>_ s3. Returned () (s3\<lparr>trace := trace s3 @ [RunInformers]\<rparr>))))"

definition main ::
    "'w boot \<Rightarrow> flags \<Rightarrow> 'w bootstate \<Rightarrow> ('w bootstate, process_end) outcome" where
  "main B fl s =
     (if Getenv s EnvOperatorPodNamespace = [] then
        Returned (Fatal (''must set env ('' @ EnvOperatorPodNamespace @ '')'')) s
      else if Getenv s EnvOperatorPodName = [] then
        Returned (Fatal (''must set env ('' @ EnvOperatorPodName @ '')'')) s
      else if Getenv s EnvOperatorPodImage = [] then
        Returned (Fatal (''must set env ('' @ EnvOperatorPodImage @ '')'')) s
      else
       (let fl1 = (if Getenv s EnvOperatorPodMode \<noteq> []
                   then fl\<lparr>mode := Getenv s EnvOperatorPodMode\<rparr> else fl)
        in if printVersion fl1 then Returned Exit0 s
           else
            (let ((ident, err), w) = hostname B (outside s); s1 = s\<lparr>outside := w\<rparr>
             in case err of
                  Some e \<Rightarrow> Returned (Fatal (''failed to get hostname: '' @ err_text e)) s1
                | None \<Rightarrow>
                    SingletonWith B ident (Getenv s EnvOperatorPodName)
                      (Getenv s EnvOperatorPodNamespace) (''fencing-operator-'' @ mode fl1)
                      (run B fl1 (Getenv s EnvOperatorPodNamespace)) s1)))"

subsection \<open>The trace\<close>

definition added :: "'w bootstate \<Rightarrow> 'w bootstate \<Rightarrow> boot_call list" where
  "added s t = drop (length (trace s)) (trace t)"

text \<open>\<open>grows P s t\<close>: the trace has grown by entries that satisfy \<open>P\<close>.\<close>

definition grows :: "(boot_call \<Rightarrow> bool) \<Rightarrow> 'w bootstate \<Rightarrow> 'w bootstate \<Rightarrow> bool" where
  "grows P s t \<longleftrightarrow> trace t = trace s @ added s t \<and> list_all P (added s t)"

lemma grows_refl [simp]: "grows P s s"
  by (simp add: grows_def added_def)

lemma grows_same: "trace t = trace s \<Longrightarrow> grows P s t"
  by (simp add: grows_def added_def)

lemma growsI: "trace t = trace s @ cs \<Longrightarrow> list_all P cs \<Longrightarrow> grows P s t"
  by (simp add: grows_def added_def)

lemma grows_trans: "grows P s t \<Longrightarrow> grows P t u \<Longrightarrow> grows P s u"
  by (rule growsI [of _ _ "added s t @ added t u"]) (simp_all add: grows_def)

lemma added_trans: "grows P s t \<Longrightarrow> grows Q t u \<Longrightarrow> added s u = added s t @ added t u"
  by (simp add: grows_def added_def [of s u])

lemma grows_mono: "grows P s t \<Longrightarrow> (\<And>c. P c \<Longrightarrow> Q c) \<Longrightarrow> grows Q s t"
  by (simp add: grows_def list_all_iff)

lemma grows_and_then:
  assumes "grows P s (final_state m)"
    and "\<And>a t. m = Returned a t \<Longrightarrow> grows P t (final_state (f a t))"
  shows "grows P s (final_state (and_then m f))"
  using assms by (cases m) (simp_all, blast intro: grows_trans)

lemma trace_boot_do [simp]: "trace (snd (boot_do c f s)) = trace s @ [c]"
  by (simp add: boot_do_def split_beta Let_def)

lemma trace_Setenv [simp]: "trace (Setenv k v s) = trace s"
  by (simp add: Setenv_def)

fun is_lookup :: "boot_call \<Rightarrow> bool" where
  "is_lookup (LookupHost h) = True" | "is_lookup _ = False"

lemma grows_inClusterConfig: "grows is_lookup s (final_state (inClusterConfig B s))"
proof -
  have step: "grows is_lookup s (final_state (if Getenv s ''KUBERNETES_SERVICE_HOST'' = [] then
      (let ((addrs, err), s1) = boot_do (LookupHost ''kubernetes.default.svc'')
          (lookup_host B ''kubernetes.default.svc'') s
       in if err \<noteq> None then Returned (Some err) s1
          else (case addrs of [] \<Rightarrow> Panicked IndexOutOfRange s1
                | a # _ \<Rightarrow> Returned None (Setenv ''KUBERNETES_SERVICE_HOST'' a s1)))
      else Returned None s))"
    by (auto simp: split_beta Let_def intro!: growsI split: list.split)
  show ?thesis
    unfolding inClusterConfig_def
    by (rule grows_and_then [OF step])
      (auto intro!: grows_same simp: split_beta Let_def split: option.split)
qed

subsection \<open>Waiting for the definition\<close>

fun is_get :: "boot_call \<Rightarrow> bool" where
  "is_get (GetCRD n) = True" | "is_get _ = False"

fun is_sleep :: "boot_call \<Rightarrow> bool" where
  "is_sleep (BootSlept d) = True" | "is_sleep _ = False"

text \<open>The definition is established, and no name conflict is reported before that.\<close>

definition established :: "CRDCondition list \<Rightarrow> bool" where
  "established conds \<longleftrightarrow>
     (\<exists>pre c post. conds = pre @ c # post \<and> cc_Type c = ''Established'' \<and> cc_Status c = ''True'' \<and>
        (\<forall>c' \<in> set pre. \<not> (cc_Type c' = ''NamesAccepted'' \<and> cc_Status c' = ''False'')))"

lemma established_Cons:
  "established (c # cs) \<longleftrightarrow> (cc_Type c = ''Established'' \<and> cc_Status c = ''True'') \<or>
     (\<not> (cc_Type c = ''NamesAccepted'' \<and> cc_Status c = ''False'') \<and> established cs)"
proof
  assume "established (c # cs)"
  then obtain pre d post where p: "c # cs = pre @ d # post" "cc_Type d = ''Established''"
    "cc_Status d = ''True''" "\<forall>c' \<in> set pre. \<not> (cc_Type c' = ''NamesAccepted'' \<and> cc_Status c' = ''False'')"
    unfolding established_def by blast
  then show "(cc_Type c = ''Established'' \<and> cc_Status c = ''True'') \<or>
     (\<not> (cc_Type c = ''NamesAccepted'' \<and> cc_Status c = ''False'') \<and> established cs)"
    by (cases pre) (auto simp: established_def)
next
  assume "(cc_Type c = ''Established'' \<and> cc_Status c = ''True'') \<or>
     (\<not> (cc_Type c = ''NamesAccepted'' \<and> cc_Status c = ''False'') \<and> established cs)"
  then show "established (c # cs)"
  proof (elim disjE conjE)
    assume "cc_Type c = ''Established''" "cc_Status c = ''True''"
    then show ?thesis unfolding established_def by (intro exI [of _ "[]"]) auto
  next
    assume c: "\<not> (cc_Type c = ''NamesAccepted'' \<and> cc_Status c = ''False'')" "established cs"
    then obtain pre d post where "cs = pre @ d # post" "cc_Type d = ''Established''"
      "cc_Status d = ''True''" "\<forall>c' \<in> set pre. \<not> (cc_Type c' = ''NamesAccepted'' \<and> cc_Status c' = ''False'')"
      unfolding established_def by blast
    with c show ?thesis unfolding established_def by (intro exI [of _ "c # pre"]) auto
  qed
qed

lemma not_established_Nil [simp]: "\<not> established []"
  by (simp add: established_def)

lemma crd_conditions_loop_eq:
  "fst (crd_conditions_loop cs) \<longleftrightarrow> established cs"
  "fst (crd_conditions_loop cs) \<Longrightarrow> snd (crd_conditions_loop cs) = None"
  by (induction cs) (auto simp: established_Cons split: if_splits)

text \<open>
  One attempt asks once; a run of \<open>n\<close> attempts asks at most \<open>n\<close> times and sleeps before each
  attempt but the very first.
\<close>

lemma crd_ready_closure_trace:
  "crd_ready_closure B (crd, s) = ((ok, err), crd', t) \<Longrightarrow>
   trace t = trace s @ [GetCRD (crd_Name crd)] \<and>
   (ok \<longrightarrow> err = None \<and> established (crd_Conditions crd'))"
  using crd_conditions_loop_eq [of "crd_Conditions crd'"]
  by (auto simp: crd_ready_closure_def boot_do_def split_beta Let_def split: if_splits)

lemma backoff_wait_trace:
  assumes "Jitter b = 0"
  shows "\<exists>d'. backoff_wait (lift_clock B) b i d (crd, s) = (d', (crd, snd (snd
      (backoff_wait (lift_clock B) b i d (crd, s))))) \<and>
    trace (snd (snd (backoff_wait (lift_clock B) b i d (crd, s)))) =
      trace s @ (if i = 0 then [] else [BootSlept d])"
  using assms by (simp add: backoff_wait_def lift_clock_def)

lemma crd_ready_loop:
  assumes "Jitter b = 0"
  shows "backoff_loop (lift_clock B) b (crd_ready_closure B) i n d (crd, s) = (err, crd', t) \<Longrightarrow>
    \<exists>cs. trace t = trace s @ cs \<and> list_all (\<lambda>c. is_get c \<or> is_sleep c) cs \<and>
      length (filter is_get cs) \<le> n \<and>
      length (filter is_sleep cs) = length (filter is_get cs) - (if i = 0 then 1 else 0) \<and>
      (err = None \<longrightarrow> established (crd_Conditions crd'))"
proof (induction n arbitrary: i d crd s)
  case 0
  then show ?case by (auto intro!: exI [of _ "[]"])
next
  case (Suc n)
  obtain d' s1 where w: "backoff_wait (lift_clock B) b i d (crd, s) = (d', (crd, s1))"
    and s1: "trace s1 = trace s @ (if i = 0 then [] else [BootSlept d])"
    using backoff_wait_trace [OF assms, of B i d crd s] by fastforce
  obtain ok e crd2 s2 where c: "crd_ready_closure B (crd, s1) = ((ok, e), crd2, s2)"
    by (metis surj_pair)
  note tr = crd_ready_closure_trace [OF c]
  let ?new = "(if i = 0 then [] else [BootSlept d]) @ [GetCRD (crd_Name crd)]"
  have s2: "trace s2 = trace s @ ?new" using tr s1 by simp
  show ?case
  proof (cases "e \<noteq> None \<or> ok")
    case True
    with Suc.prems w c have "err = e" "crd' = crd2" "t = s2" by auto
    then show ?thesis using True tr s2 by (auto intro!: exI [of _ ?new])
  next
    case False
    with Suc.prems w c have "backoff_loop (lift_clock B) b (crd_ready_closure B) (Suc i) n d' (crd2, s2) =
        (err, crd', t)" by simp
    from Suc.IH [OF this] obtain cs where cs: "trace t = trace s2 @ cs"
      "list_all (\<lambda>c. is_get c \<or> is_sleep c) cs" "length (filter is_get cs) \<le> n"
      "length (filter is_sleep cs) = length (filter is_get cs)"
      "err = None \<longrightarrow> established (crd_Conditions crd')" by auto
    then show ?thesis using s2 by (intro exI [of _ "?new @ cs"]) auto
  qed
qed

end
