(* ===== verification/Boot_Props.thy ===== *)
theory Boot_Props
  imports Bootstrap
begin

section \<open>Properties of the start of the operator\<close>

text \<open>
  How long \<open>WaitCRDReady\<close> of \<open>pkg/k8sutil/k8sutil.go\<close> asks and what its success means, which
  resources a leader watches, and which lock it holds while it does.
\<close>

subsection \<open>The custom resource definition\<close>

text \<open>Waiting for the definition always ends: it is asked for at most five times, with a
  sleep between two attempts, and nothing else is called. It succeeds only when the last answer
  reported the definition as established with no name conflict listed before that.\<close>

theorem WaitCRDReady_bounded:
  "\<exists>cs. trace (snd (WaitCRDReady B crdName s)) = trace s @ cs \<and>
     list_all (\<lambda>c. is_get c \<or> is_sleep c) cs \<and> length (filter is_get cs) \<le> 5 \<and>
     length (filter is_sleep cs) = length (filter is_get cs) - 1 \<and>
     (fst (WaitCRDReady B crdName s) = None \<longrightarrow>
       (\<exists>crd w. established (crd_Conditions crd) \<and> (\<exists>crd0 w0. get_crd B crd0 w0 = ((None, crd), w))))"
proof -
  let ?crd = "\<lparr>crd_TypeMeta = \<lparr>Kind = ''CustomResourceDefinition'', APIVersion = ''v1beta1''\<rparr>,
     crd_Name = crdName, Group = [], Version = [], Scope = [], Plural = [],
     crd_Kind = [], ShortNames = [], crd_Conditions = []\<rparr>"
  obtain err crd' t where r: "ExponentialBackoff (lift_clock B) defaultBackoff
      (crd_ready_closure B) (?crd, s) = (err, crd', t)" by (metis surj_pair)
  have loop: "backoff_loop (lift_clock B) defaultBackoff (crd_ready_closure B) 0 5 1000000000
      (?crd, s) = (err, crd', t)"
    using r by (simp add: ExponentialBackoff_def defaultBackoff_def)
  have J: "Jitter defaultBackoff = 0" by (simp add: defaultBackoff_def)
  obtain cs where cs: "trace t = trace s @ cs" "list_all (\<lambda>c. is_get c \<or> is_sleep c) cs"
    "length (filter is_get cs) \<le> 5" "length (filter is_sleep cs) = length (filter is_get cs) - 1"
    using crd_ready_loop [OF J loop] by auto
  have last: "\<exists>crd w. established (crd_Conditions crd) \<and> (\<exists>crd0 w0. get_crd B crd0 w0 = ((None, crd), w))"
    if none: "err = None"
  proof -
    obtain crd1 u where u: "crd_ready_closure B (crd1, u) = ((True, None), crd', t)"
      using backoff_loop_None [OF loop [unfolded none]] by (metis surj_pair)
    then have "established (crd_Conditions crd')" using crd_ready_closure_trace by blast
    moreover have "get_crd B crd1 (outside u) = ((None, crd'), outside t)"
      using u by (auto simp: crd_ready_closure_def boot_do_def split_beta Let_def prod_eq_iff
          split: if_splits)
    ultimately show ?thesis by blast
  qed
  have w: "WaitCRDReady B crdName s = (case err of None \<Rightarrow> (None, t)
      | Some e \<Rightarrow> (Some (Errorf (''CRD creation failed: '' @ err_text e)), t))"
    by (simp add: WaitCRDReady_def r)
  show ?thesis
  proof (cases err)
    case None
    with cs last show ?thesis by (simp add: w)
  next
    case (Some e)
    with cs show ?thesis by (simp add: w)
  qed
qed

definition quiet_boot :: "CRDCondition list \<Rightarrow> unit boot" where
  "quiet_boot conds =
     \<lparr>lookup_host = (\<lambda>h w. (([], Some (Errorf ''no such host'')), w)),
      rest_config = (\<lambda>e w. ((Some ''in'', None), w)),
      file_config = (\<lambda>f w. ((Some f, None), w)),
      client_ok = (\<lambda>c. if c = None then Some NilDeref else None),
      new_lock = (\<lambda>ns role ident. None),
      acquire = (\<lambda>lec w. (True, w)),
      hostname = (\<lambda>w. ((''host'', None), w)),
      create_crd = (\<lambda>crd w. (None, w)),
      get_crd = (\<lambda>crd w. ((None, crd\<lparr>crd_Conditions := conds\<rparr>), w)),
      watch_resource = (\<lambda>a k n w. (None, w)),
      boot_clock = \<lparr>Sleep = (\<lambda>d w. w), jittered = (\<lambda>d j w. (d, w)),
        scaled = (\<lambda>d f. \<lfloor>of_int d * f\<rfloor>)\<rparr>\<rparr>"

definition boot_state :: "strmap \<Rightarrow> unit bootstate" where
  "boot_state env = \<lparr>outside = (), environ = env, trace = []\<rparr>"

theorem WaitCRDReady_bounded_witness:
  "fst (WaitCRDReady (quiet_boot [\<lparr>cc_Type = ''Established'', cc_Status = ''True'', cc_Reason = []\<rparr>])
     ''x'' (boot_state [])) = None \<and>
   (\<exists>crd w crd0 w0. established (crd_Conditions crd) \<and>
     get_crd (quiet_boot [\<lparr>cc_Type = ''Established'', cc_Status = ''True'', cc_Reason = []\<rparr>]) crd0 w0 =
       ((None, crd), w))"
proof -
  let ?B = "quiet_boot [\<lparr>cc_Type = ''Established'', cc_Status = ''True'', cc_Reason = []\<rparr>]"
  have "fst (WaitCRDReady ?B ''x'' (boot_state [])) = None"
    by (simp add: WaitCRDReady_def ExponentialBackoff_def defaultBackoff_def crd_ready_closure_def
        boot_do_def quiet_boot_def eval_nat_numeral)
  with WaitCRDReady_bounded [where B = ?B and crdName = "''x''" and s = "boot_state []"]
  show ?thesis by blast
qed

subsection \<open>Watches and locks\<close>

fun is_watch :: "boot_call \<Rightarrow> bool" where
  "is_watch (Watch a k n r) = True" | "is_watch _ = False"

text \<open>What an operator of a mode watches, in this order.\<close>

definition watch_plan :: "string \<Rightarrow> string \<Rightarrow> boot_call list" where
  "watch_plan m namespace =
     (if m \<in> {''watcher'', ''all''}
      then [Watch ''v1'' ''Node'' ''default'' 0, Watch ''v1'' ''Event'' ''default'' 0] else []) @
     (if m \<in> {''executioner'', ''all''}
      then [Watch ''v1'' ''ConfigMap'' namespace 0, Watch ''batch/v1'' ''Job'' namespace 0,
        Watch ''fencing.clusterlabs.org/v1alpha1'' ''FencingRequest'' namespace 0] else [])"

abbreviation no_watch :: "boot_call \<Rightarrow> bool" where
  "no_watch \<equiv> \<lambda>c. \<not> is_watch c"

lemma grows_new_client [simp]: "grows P s (final_state (new_client B cfg s))"
  by (simp add: new_client_def split: option.split)

lemma lookup_no_watch: "grows no_watch s (final_state (inClusterConfig B s))"
  by (rule grows_mono [OF grows_inClusterConfig]) (erule is_lookup.elims; simp)

lemma clock_trace [simp]:
  "trace (snd (Sleep (lift_clock B) d st)) = trace (snd st) @ [BootSlept d]"
  "trace (snd (snd (jittered (lift_clock B) d j st))) = trace (snd st)"
  by (cases st; simp add: lift_clock_def split_beta)+

lemma retry_no_watch:
  assumes "\<And>st. grows no_watch (snd st) (snd (snd (condition st)))"
  shows "grows no_watch s (snd (snd (ExponentialBackoff (lift_clock B) b condition (x, s))))"
  unfolding ExponentialBackoff_def
proof (rule backoff_loop_invariant [where Q = "\<lambda>st. grows no_watch s (snd st)"])
  fix st :: "'a \<times> 'b bootstate"
  assume st: "grows no_watch s (snd st)"
  show "grows no_watch s (snd (snd (condition st)))" using st assms by (rule grows_trans)
  show "grows no_watch s (snd (Sleep (lift_clock B) d st))" for d
    by (rule grows_trans [OF st growsI [where cs = "[BootSlept d]"]]) simp_all
  show "grows no_watch s (snd (snd (jittered (lift_clock B) d j st)))" for d j
    by (rule grows_trans [OF st grows_same]) simp
qed simp

lemma RegisterCRD_no_watch: "grows no_watch s (final_state (RegisterCRD B s))"
proof -
  have create: "grows no_watch (snd st) (snd (snd (create_crd_closure B st)))" for st
    by (rule growsI [of _ _ "[CreateCRD (fst st)]"])
      (simp_all add: create_crd_closure_def split_beta Let_def)
  have ready: "grows no_watch (snd st) (snd (snd (crd_ready_closure B st)))" for st
    by (rule growsI [of _ _ "[GetCRD (crd_Name (fst st))]"])
      (simp_all add: crd_ready_closure_def split_beta Let_def)
  have wait: "grows no_watch u (snd (WaitCRDReady B n u))" for n u
    using retry_no_watch [OF ready] by (simp add: WaitCRDReady_def split_beta Let_def split: option.split)
  have last: "grows no_watch u (final_state (let (err, _, s3) = ExponentialBackoff (lift_clock B)
        defaultBackoff (create_crd_closure B) (CreateFencingCRD, u)
      in if err \<noteq> None then Returned err s3
         else let (err2, y) = WaitCRDReady B FencingRequestCRDName s3 in Returned err2 y))" for u
    using grows_trans [OF retry_no_watch [OF create] wait] retry_no_watch [OF create]
    by (auto simp: split_beta Let_def)
  have mid: "grows no_watch u (final_state (and_then (new_client B cfg u) (\<lambda>_ s2.
      let (err, _, s3) = ExponentialBackoff (lift_clock B)
        defaultBackoff (create_crd_closure B) (CreateFencingCRD, s2)
      in if err \<noteq> None then Returned err s3
         else let (err2, y) = WaitCRDReady B FencingRequestCRDName s3 in Returned err2 y)))" for cfg u
    by (rule grows_and_then [OF grows_new_client]) (rule last)
  show ?thesis
    unfolding RegisterCRD_def
    by (rule grows_and_then [OF lookup_no_watch], rename_tac a t, case_tac a, simp only: prod.case,
        rule mid)
qed

lemma sdk_Watch_Returned:
  "sdk_Watch B a k n r s = Returned () t \<Longrightarrow> trace t = trace s @ [Watch a k n r]"
  by (auto simp: sdk_Watch_def boot_do_def split_beta Let_def split: option.splits)

lemma and_then_Returned_iff:
  "and_then m f = Returned b t \<longleftrightarrow> (\<exists>a s. m = Returned a s \<and> f a s = Returned b t)"
  by (cases m) simp_all

lemma run_trace:
  assumes "run B fl namespace s = Returned () t"
  shows "filter is_watch (added s t) = watch_plan (mode fl) namespace"
proof -
  obtain s1 s2 s3 where r: "(if createCRD fl then and_then (RegisterCRD B s) (\<lambda>_ s1. Returned () s1)
      else Returned () s) = Returned () s1" and nodes: "watch_nodes B fl s1 = Returned () s2"
    and objects: "watch_objects B fl namespace s2 = Returned () s3"
    and t: "t = s3\<lparr>trace := trace s3 @ [RunInformers]\<rparr>"
    using assms unfolding run_def and_then_Returned_iff by auto
  have g: "grows no_watch s s1"
    using r RegisterCRD_no_watch [of s B] by (cases "RegisterCRD B s") (auto split: if_splits)
  moreover have "trace s3 = trace s1 @ watch_plan (mode fl) namespace"
    using nodes objects by (auto simp: watch_nodes_def watch_objects_def and_then_Returned_iff
        watch_plan_def dest!: sdk_Watch_Returned split: if_splits)
  ultimately have "trace t = trace s @ added s s1 @ watch_plan (mode fl) namespace @ [RunInformers]"
    by (simp add: t grows_def)
  then have "added s t = added s s1 @ watch_plan (mode fl) namespace @ [RunInformers]"
    by (simp add: added_def)
  moreover have "filter is_watch (added s s1) = []"
    using g by (simp add: grows_def filter_empty_conv list_all_iff)
  moreover have "filter is_watch (watch_plan (mode fl) namespace) = watch_plan (mode fl) namespace"
    by (simp add: watch_plan_def)
  ultimately show ?thesis by simp
qed

text \<open>What a process that was leader once has done.\<close>

definition effective_mode :: "'w bootstate \<Rightarrow> flags \<Rightarrow> string" where
  "effective_mode s fl =
     (if Getenv s EnvOperatorPodMode \<noteq> [] then Getenv s EnvOperatorPodMode else mode fl)"

definition leads :: "'w bootstate \<Rightarrow> string \<Rightarrow> string \<Rightarrow> 'w bootstate \<Rightarrow> bool" where
  "leads s m namespace t \<longleftrightarrow>
     (\<exists>lec. Campaign lec \<in> set (added s t) \<and> lock_Name lec = ''fencing-operator-'' @ m \<and>
        lock_Namespace lec = namespace \<and> election_error lec = None) \<and>
     filter is_watch (added s t) = watch_plan m namespace"

lemma grows_clients: "grows is_lookup s (final_state (mustNewKubeClientAndConfig B s))"
proof -
  have "grows is_lookup s (final_state (if Getenv s ''KUBERNETES_CONFIG'' \<noteq> []
      then outOfClusterConfig B s else inClusterConfig B s))"
    using grows_inClusterConfig [of s B]
    by (auto simp: outOfClusterConfig_def split_beta Let_def intro: grows_same)
  then show ?thesis
    unfolding mustNewKubeClientAndConfig_def
    by (rule grows_and_then)
      (auto intro!: grows_and_then split: option.split)
qed

lemma run_grows:
  assumes "run B fl namespace s = Returned () t"
  shows "grows (\<lambda>c. True) s t"
proof -
  obtain s1 s2 s3 where r: "(if createCRD fl then and_then (RegisterCRD B s) (\<lambda>_ s1. Returned () s1)
      else Returned () s) = Returned () s1" and nodes: "watch_nodes B fl s1 = Returned () s2"
    and objects: "watch_objects B fl namespace s2 = Returned () s3"
    and t: "t = s3\<lparr>trace := trace s3 @ [RunInformers]\<rparr>"
    using assms unfolding run_def and_then_Returned_iff by auto
  have "grows no_watch s s1"
    using r RegisterCRD_no_watch [of s B] by (cases "RegisterCRD B s") (auto split: if_splits)
  moreover have "trace s3 = trace s1 @ watch_plan (mode fl) namespace"
    using nodes objects by (auto simp: watch_nodes_def watch_objects_def and_then_Returned_iff
        watch_plan_def dest!: sdk_Watch_Returned split: if_splits)
  ultimately have "trace t = trace s @ (added s s1 @ watch_plan (mode fl) namespace @ [RunInformers])"
    by (simp add: t grows_def)
  then show ?thesis by (rule growsI) (simp add: list_all_iff)
qed

lemma SingletonWith_led:
  assumes "SingletonWith B ident name namespace role started s =
    Returned (Fatal ''leader election lost'') t"
  shows "\<exists>cfg s1 lec s2. mustNewKubeClientAndConfig B s = Returned cfg s1 \<and>
    lock_Namespace lec = namespace \<and> lock_Name lec = role \<and> election_error lec = None \<and>
    boot_do (Campaign lec) (acquire B lec) s1 = (True, s2) \<and> started s2 = Returned () t"
proof -
  let ?lec = "\<lparr>lock_Namespace = namespace, lock_Name = role, Identity = ident,
     LeaseDuration = 15 * second, RenewDeadline = 10 * second, RetryPeriod = 2 * second\<rparr>"
  have ok: "election_error ?lec = None" by (simp add: election_error_def second_def)
  obtain cfg s1 where c: "mustNewKubeClientAndConfig B s = Returned cfg s1"
    using assms by (cases "mustNewKubeClientAndConfig B s") (simp_all add: SingletonWith_def)
  have lock: "new_lock B namespace role ident = None"
    using assms by (cases "new_lock B namespace role ident") (simp_all add: SingletonWith_def c)
  obtain won s2 where b: "boot_do (Campaign ?lec) (acquire B ?lec) s1 = (won, s2)" by (metis surj_pair)
  have "won \<and> started s2 = Returned () t"
    using assms by (auto simp: SingletonWith_def c lock ok b and_then_Returned_iff split: if_splits)
  with c ok b show ?thesis by (intro exI [of _ cfg] exI [of _ s1] exI [of _ ?lec] exI [of _ s2]) simp
qed

lemma main_leads:
  assumes "main B fl s = Returned (Fatal ''leader election lost'') t"
  shows "leads s (effective_mode s fl) (Getenv s EnvOperatorPodNamespace) t"
proof -
  let ?m = "effective_mode s fl" and ?ns = "Getenv s EnvOperatorPodNamespace"
  let ?fl = "if Getenv s EnvOperatorPodMode \<noteq> [] then fl\<lparr>mode := Getenv s EnvOperatorPodMode\<rparr> else fl"
  obtain ident w where single: "SingletonWith B ident (Getenv s EnvOperatorPodName) ?ns
      (''fencing-operator-'' @ mode ?fl) (run B ?fl ?ns) (s\<lparr>outside := w\<rparr>) =
      Returned (Fatal ''leader election lost'') t"
    using assms by (auto simp: main_def split_beta Let_def split: if_splits option.splits)
  have m: "mode ?fl = ?m" by (simp add: effective_mode_def)
  obtain cfg s1 lec s2 where c: "mustNewKubeClientAndConfig B (s\<lparr>outside := w\<rparr>) = Returned cfg s1"
    and lec: "lock_Namespace lec = ?ns" "lock_Name lec = ''fencing-operator-'' @ ?m"
      "election_error lec = None"
    and b: "boot_do (Campaign lec) (acquire B lec) s1 = (True, s2)"
    and r: "run B ?fl ?ns s2 = Returned () t"
    using SingletonWith_led [OF single] unfolding m by blast
  have g1: "grows is_lookup s s1"
    using grows_clients [of "s\<lparr>outside := w\<rparr>" B] c by (simp add: grows_def added_def)
  have s2: "trace s2 = trace s1 @ [Campaign lec]" using trace_boot_do [of "Campaign lec" "acquire B lec" s1] b by simp
  have g2: "grows (\<lambda>c. True) s1 s2" "added s1 s2 = [Campaign lec]"
    using s2 by (simp_all add: grows_def added_def)
  have "added s t = added s s1 @ [Campaign lec] @ added s2 t"
    using added_trans [OF g1 grows_trans [OF g2(1) run_grows [OF r]]]
      added_trans [OF g2(1) run_grows [OF r]] g2(2) by simp
  moreover have "filter is_watch (added s s1) = []"
    using g1 by (auto simp: grows_def filter_empty_conv list_all_iff elim!: is_lookup.elims)
  ultimately show ?thesis
    using run_trace [OF r] lec m by (auto simp: leads_def)
qed

text \<open>A process that becomes leader holds the lock named after its mode in its own namespace,
  with lease times that the election accepts, and has asked to watch exactly the resources of
  its mode, in order: nodes and events for \<open>watcher\<close>, ConfigMaps, jobs and requests for
  \<open>executioner\<close>, all five for \<open>all\<close>, and nothing for any other mode.\<close>

theorem main_watches_its_mode:
  assumes "main B fl s = Returned (Fatal ''leader election lost'') t"
  shows "(\<exists>lec. Campaign lec \<in> set (added s t) \<and>
      lock_Name lec = ''fencing-operator-'' @ effective_mode s fl \<and>
      lock_Namespace lec = Getenv s EnvOperatorPodNamespace \<and> election_error lec = None) \<and>
    filter is_watch (added s t) = watch_plan (effective_mode s fl) (Getenv s EnvOperatorPodNamespace)"
  using main_leads [OF assms] by (simp add: leads_def)

definition pod_env :: "string \<Rightarrow> strmap" where
  "pod_env m = m_puts [(''POD_NAME'', ''op''), (''POD_NAMESPACE'', ''ops''), (''AGENT_IMAGE'', ''img''),
     (''POD_MODE'', m), (''KUBERNETES_SERVICE_HOST'', ''10.0.0.1'')] []"

lemma Getenv_pod_env:
  "Getenv (boot_state (pod_env m)) EnvOperatorPodName = ''op''"
  "Getenv (boot_state (pod_env m)) EnvOperatorPodNamespace = ''ops''"
  "Getenv (boot_state (pod_env m)) EnvOperatorPodImage = ''img''"
  "Getenv (boot_state (pod_env m)) EnvOperatorPodMode = m"
  by (simp_all add: Getenv_def boot_state_def pod_env_def m_puts_def boot_constants)

definition established_boot :: "unit boot" where
  "established_boot = quiet_boot [\<lparr>cc_Type = ''Established'', cc_Status = ''True'', cc_Reason = []\<rparr>]"

definition no_crd_flags :: "string \<Rightarrow> flags" where
  "no_crd_flags m = \<lparr>mode = m, chaosLevel = - 1, printVersion = False, createCRD = False\<rparr>"

lemma established_boot_fields [simp]:
  "rest_config established_boot e w = ((Some ''in'', None), w)"
  "client_ok established_boot (Some c) = None" "new_lock established_boot ns role i = None"
  "acquire established_boot lec w = (True, w)" "hostname established_boot w = ((''host'', None), w)"
  "watch_resource established_boot a k n w = (None, w)"
  by (simp_all add: established_boot_def quiet_boot_def)

lemma and_then_total:
  "\<exists>t. m = Returned () t \<Longrightarrow> (\<And>u. \<exists>t. f () u = Returned () t) \<Longrightarrow>
   \<exists>t. and_then m f = Returned () t"
  by auto

lemma sample_main:
  "m \<noteq> [] \<Longrightarrow> \<exists>t. main established_boot (no_crd_flags ''all'') (boot_state (pod_env m)) =
     Returned (Fatal ''leader election lost'') t"
proof -
  let ?s = "boot_state (pod_env m)"
  have host: "Getenv ?s ''KUBERNETES_SERVICE_HOST'' = ''10.0.0.1''"
    "Getenv ?s ''KUBERNETES_CONFIG'' = []"
    by (simp_all add: Getenv_def boot_state_def pod_env_def m_puts_def)
  obtain s1 where i: "inClusterConfig established_boot ?s = Returned (Some ''in'', None) s1"
    by (simp add: inClusterConfig_def host split_beta Let_def)
  then have c: "mustNewKubeClientAndConfig established_boot ?s = Returned (Some ''in'') s1"
    by (simp add: mustNewKubeClientAndConfig_def host new_client_def)
  have watch: "\<exists>t. sdk_Watch established_boot a k n r u = Returned () t" for a k n r u
    by (simp add: sdk_Watch_def boot_do_def)
  have nodes: "\<exists>t. watch_nodes established_boot fl u = Returned () t" for fl u
    by (simp add: watch_nodes_def and_then_total watch)
  have objects: "\<exists>t. watch_objects established_boot fl ns u = Returned () t" for fl ns u
    by (simp add: watch_objects_def and_then_total watch)
  have run: "\<exists>t. run established_boot fl ns u = Returned () t" if "\<not> createCRD fl" for fl ns u
    using that by (simp add: run_def and_then_total nodes objects)
  have single: "\<exists>t. SingletonWith established_boot i n ns role (run established_boot fl ns) ?s =
      Returned (Fatal ''leader election lost'') t" if "\<not> createCRD fl" for i n ns role fl
    using run [OF that] c by (auto simp: SingletonWith_def election_error_def second_def
        boot_do_def and_then_Returned_iff)
  assume "m \<noteq> []"
  then show ?thesis
    by (simp add: main_def Getenv_pod_env no_crd_flags_def)
      (simp add: boot_state_def single [unfolded boot_state_def])
qed

theorem main_watches_its_mode_witness:
  "\<exists>t. main established_boot (no_crd_flags ''all'') (boot_state (pod_env ''watcher'')) =
      Returned (Fatal ''leader election lost'') t \<and>
    filter is_watch (added (boot_state (pod_env ''watcher'')) t) =
      [Watch ''v1'' ''Node'' ''default'' 0, Watch ''v1'' ''Event'' ''default'' 0]"
proof -
  obtain t where r: "main established_boot (no_crd_flags ''all'') (boot_state (pod_env ''watcher'')) =
      Returned (Fatal ''leader election lost'') t" using sample_main [of "''watcher''"] by auto
  from main_watches_its_mode [OF r] r show ?thesis
    by (simp add: effective_mode_def Getenv_pod_env watch_plan_def)
qed

text \<open>C39: the locks of different modes do not exclude each other: a leader of mode \<open>all\<close> and one
  of mode \<open>executioner\<close> in the same namespace hold different locks while both watch the same
  ConfigMaps, jobs and fencing requests, so each request is handled by two processes.\<close>

theorem modes_do_not_exclude:
  assumes "main B fl s = Returned (Fatal ''leader election lost'') t"
    and "main B' fl' s' = Returned (Fatal ''leader election lost'') t'"
    and "effective_mode s fl = ''all''" and "effective_mode s' fl' = ''executioner''"
    and "Getenv s' EnvOperatorPodNamespace = Getenv s EnvOperatorPodNamespace"
  shows "(\<exists>lec lec'. Campaign lec \<in> set (added s t) \<and> Campaign lec' \<in> set (added s' t') \<and>
      lock_Namespace lec = lock_Namespace lec' \<and> lock_Name lec \<noteq> lock_Name lec') \<and>
    set (filter is_watch (added s' t')) \<subseteq> set (filter is_watch (added s t)) \<and>
    Watch ''fencing.clusterlabs.org/v1alpha1'' ''FencingRequest''
      (Getenv s EnvOperatorPodNamespace) 0 \<in> set (added s' t')"
proof -
  have l: "leads s ''all'' (Getenv s EnvOperatorPodNamespace) t"
    "leads s' ''executioner'' (Getenv s EnvOperatorPodNamespace) t'"
    using main_leads [OF assms(1)] main_leads [OF assms(2)] assms(3-5) by simp_all
  then obtain lec lec' where "Campaign lec \<in> set (added s t)" "Campaign lec' \<in> set (added s' t')"
    "lock_Namespace lec = lock_Namespace lec'" "lock_Name lec \<noteq> lock_Name lec'"
    by (force simp: leads_def)
  moreover have w: "filter is_watch (added s t) = watch_plan ''all'' (Getenv s EnvOperatorPodNamespace)"
    "filter is_watch (added s' t') = watch_plan ''executioner'' (Getenv s EnvOperatorPodNamespace)"
    using l by (simp_all add: leads_def)
  moreover have "Watch ''fencing.clusterlabs.org/v1alpha1'' ''FencingRequest''
      (Getenv s EnvOperatorPodNamespace) 0 \<in> set (added s' t')"
  proof -
    have "Watch ''fencing.clusterlabs.org/v1alpha1'' ''FencingRequest''
        (Getenv s EnvOperatorPodNamespace) 0 \<in> set (filter is_watch (added s' t'))"
      unfolding w by (simp add: watch_plan_def)
    then show ?thesis by simp
  qed
  ultimately show ?thesis by (auto simp: watch_plan_def)
qed

theorem modes_do_not_exclude_witness:
  "\<exists>t t'. main established_boot (no_crd_flags ''all'') (boot_state (pod_env ''all'')) =
      Returned (Fatal ''leader election lost'') t \<and>
    main established_boot (no_crd_flags ''all'') (boot_state (pod_env ''executioner'')) =
      Returned (Fatal ''leader election lost'') t' \<and>
    Watch ''fencing.clusterlabs.org/v1alpha1'' ''FencingRequest'' ''ops'' 0
      \<in> set (added (boot_state (pod_env ''executioner'')) t')"
proof -
  obtain t t' where r: "main established_boot (no_crd_flags ''all'') (boot_state (pod_env ''all'')) =
      Returned (Fatal ''leader election lost'') t"
    "main established_boot (no_crd_flags ''all'') (boot_state (pod_env ''executioner'')) =
      Returned (Fatal ''leader election lost'') t'" using sample_main [of "''all''"] sample_main [of "''executioner''"] by auto
  from modes_do_not_exclude [OF r] r show ?thesis
    by (simp add: effective_mode_def Getenv_pod_env)
qed

end
