(* ===== verification/Workflow.thy ===== *)
theory Workflow
  imports Fencing_Handler_Props Config_Job_Props Handlers Wire
begin

section \<open>The operator as a whole\<close>

text \<open>
  The operator as a transition system: from the empty cache it handles one event after the
  other by \<open>Handle\<close>, the world may change in between, and a panic ends it. The source runs one
  goroutine per watched resource; the model interleaves whole handlers. Two parts: the cache of
  configurations refines an abstract table, and an invariant of all calls ever made.
\<close>

subsection \<open>Transitions\<close>

text \<open>
  An event can be delivered when its object can come out of the decoder: a fencing request then
  has no active method and no active job (\<open>unmarshal_request_inactive\<close>).
\<close>

definition inactive :: "FencingRequest \<Rightarrow> bool" where
  "inactive r \<longleftrightarrow> ActiveMethod (Status r) = None \<and> ActiveJob (Status r) = None"

fun deliverable :: "event_object \<Rightarrow> bool" where
  "deliverable (EFencingRequest r) = inactive r"
| "deliverable _ = True"

inductive reach ::
    "'w api \<Rightarrow> (string \<Rightarrow> string) \<Rightarrow> (string \<Rightarrow> gmap \<times> error option) \<Rightarrow>
     (event_object \<times> bool) list \<Rightarrow> ('w opstate, unit) outcome \<Rightarrow> bool"
  for K getenv yaml
where
  start: "reach K getenv yaml [] (Returned () \<lparr>world = w, fencingConfigs = [], calls = []\<rparr>)"
| outside: "reach K getenv yaml evs (Returned () s) \<Longrightarrow>
    reach K getenv yaml evs (Returned () (s\<lparr>world := w\<rparr>))"
| handle: "reach K getenv yaml evs (Returned () s) \<Longrightarrow> deliverable obj \<Longrightarrow>
    reach K getenv yaml (evs @ [(obj, deleted)])
      (and_then (Handle K getenv yaml \<rho> obj deleted s) (\<lambda>_ t. Returned () t))"

inductive_cases reach_NilE: "reach K getenv yaml [] x"
inductive_cases reach_snocE: "reach K getenv yaml (evs @ [e]) x"

lemma final_state_unit [simp]: "final_state (and_then m (\<lambda>_ t. Returned () t)) = final_state m"
  by (cases m) simp_all

subsection \<open>The server\<close>

text \<open>
  What the operator's requests go through on their way to the server and back: requests that
  are listed come out of the decoder, and an update, which decodes the answer into the request
  itself, leaves the two fields that no JSON can set as they are.
\<close>

definition wire_server :: "'w api \<Rightarrow> bool" where
  "wire_server K \<longleftrightarrow>
     (\<forall>ns sel w. \<forall>r \<in> set (snd (fst (list_requests K ns sel w))). inactive r) \<and>
     (\<forall>r w. ActiveMethod (Status (snd (fst (update_request K r w)))) = ActiveMethod (Status r))"

definition yaml_ok :: "(string \<Rightarrow> gmap \<times> error option) \<Rightarrow> bool" where
  "yaml_ok yaml \<longleftrightarrow> (\<forall>str g. yaml str = (g, None) \<longrightarrow> gmap_ok g)"

subsection \<open>The cache refines a table\<close>

text \<open>
  The abstract cache: a table from names to entries that only ConfigMap events change, each of
  them only its own entry.
\<close>

fun table_step ::
    "(string \<Rightarrow> gmap \<times> error option) \<Rightarrow> event_object \<times> bool \<Rightarrow>
     (string \<Rightarrow> FencingConfig option option) \<Rightarrow> (string \<Rightarrow> FencingConfig option option)" where
  "table_step yaml (EConfigMap cm, deleted) tbl =
     tbl(cm_Name cm := cached_entry yaml cm deleted (tbl (cm_Name cm)))"
| "table_step yaml (_, deleted) tbl = tbl"

lemma Handle_evolves:
  assumes "\<nexists>cm. obj = EConfigMap cm"
  shows "evolves K s (final_state (Handle K getenv yaml \<rho> obj deleted s))"
  using assms does_evolves [OF does_Handle_job] does_evolves [OF does_Handle_request]
    ext_evolves [OF only_ext [OF for_node_HandleNode]] ext_evolves [OF only_ext [OF for_node_HandleEvent]]
  by (cases obj) (simp_all add: Handle_def)

text \<open>Two tables with the same outline: entries differ in names and elements of commands only.\<close>

definition table_outline ::
    "(string \<Rightarrow> FencingConfig option option) \<Rightarrow> (string \<Rightarrow> FencingConfig option option)" where
  "table_outline tbl = (\<lambda>n. map_option (map_option config_outline) (tbl n))"

lemma table_outline_cache: "map_of (cache_outline cfgs) = table_outline (map_of cfgs)"
  by (simp add: cache_outline_def table_outline_def map_of_map comp_def)

lemma cached_entry_outline:
  "map_option (map_option config_outline) old = map_option (map_option config_outline) old' \<Longrightarrow>
   map_option (map_option config_outline) (cached_entry yaml cm deleted old) =
   map_option (map_option config_outline) (cached_entry yaml cm deleted old')"
  by (cases old; cases old') (auto simp: cached_entry_def split: option.split prod.split)

lemma table_step_outline:
  assumes "table_outline tbl = table_outline tbl'"
  shows "table_outline (table_step yaml e tbl) = table_outline (table_step yaml e tbl')"
proof -
  obtain obj deleted where e: "e = (obj, deleted)" by (cases e)
  have "map_option (map_option config_outline) (tbl n) =
      map_option (map_option config_outline) (tbl' n)" for n
    using assms by (simp add: table_outline_def fun_eq_iff)
  note this and cached_entry_outline [OF this]
  then show ?thesis by (cases obj) (simp_all add: e table_outline_def fun_eq_iff)
qed

lemma Handle_table_map:
  assumes "yaml_ok yaml"
  shows "map_of (fencingConfigs (final_state (Handle K getenv yaml \<rho> (EConfigMap cm) deleted s))) =
    table_step yaml (EConfigMap cm, deleted) (map_of (fencingConfigs s))"
proof -
  obtain err t where h: "HandleConfigMap yaml \<rho> cm deleted s = (err, t)" by (metis surj_pair)
  have "\<And>str g. yaml str = (g, None) \<Longrightarrow> gmap_ok g" using assms by (simp add: yaml_ok_def)
  from cache_after [OF this h] show ?thesis by (simp add: Handle_def h)
qed

lemma Handle_table:
  assumes "yaml_ok yaml" and "m_ok (fencingConfigs s)"
    and cfgs_def: "cfgs = fencingConfigs (final_state (Handle K getenv yaml \<rho> obj deleted s))"
  shows "m_ok cfgs"
    and "table_outline (map_of cfgs) =
      table_outline (table_step yaml (obj, deleted) (map_of (fencingConfigs s)))"
    and "echoes K \<Longrightarrow> map_of cfgs = table_step yaml (obj, deleted) (map_of (fencingConfigs s))"
proof -
  have "m_ok cfgs \<and> table_outline (map_of cfgs) =
      table_outline (table_step yaml (obj, deleted) (map_of (fencingConfigs s))) \<and>
    (echoes K \<longrightarrow> map_of cfgs = table_step yaml (obj, deleted) (map_of (fencingConfigs s)))"
  proof (cases "\<exists>cm. obj = EConfigMap cm")
    case True
    then obtain cm where obj: "obj = EConfigMap cm" by blast
    have "m_ok cfgs"
      using assms(2) unfolding cfgs_def obj
      by (auto simp: Handle_def HandleConfigMap_def split_beta Let_def gomap_rules
          simp del: m_put.simps split: option.split)
    moreover have "map_of cfgs = table_step yaml (obj, deleted) (map_of (fencingConfigs s))"
      unfolding cfgs_def obj by (rule Handle_table_map [OF assms(1)])
    ultimately show ?thesis by simp
  next
    case False
    have e: "evolves K s (final_state (Handle K getenv yaml \<rho> obj deleted s))"
      by (rule Handle_evolves [OF False])
    have step: "table_step yaml (obj, deleted) tbl = tbl" for tbl using False by (cases obj) auto
    have out: "cache_outline cfgs = cache_outline (fencingConfigs s)"
      using e unfolding cfgs_def evolves_def by simp
    have same: "echoes K \<longrightarrow> cfgs = fencingConfigs s"
      using e assms(2) unfolding cfgs_def evolves_def by simp
    have "m_ok cfgs" using m_ok_outline [OF out] assms(2) by simp
    moreover have "table_outline (map_of cfgs) = table_outline (map_of (fencingConfigs s))"
      using out by (simp flip: table_outline_cache)
    ultimately show ?thesis using same unfolding step by simp
  qed
  then show "m_ok cfgs"
    and "table_outline (map_of cfgs) =
      table_outline (table_step yaml (obj, deleted) (map_of (fencingConfigs s)))"
    and "echoes K \<Longrightarrow> map_of cfgs = table_step yaml (obj, deleted) (map_of (fencingConfigs s))"
    by blast+
qed

lemma reach_table:
  assumes "reach K getenv yaml evs x" and "yaml_ok yaml"
  shows "m_ok (fencingConfigs (final_state x)) \<and>
    table_outline (map_of (fencingConfigs (final_state x))) =
      table_outline (fold (table_step yaml) evs Map.empty) \<and>
    (echoes K \<longrightarrow> map_of (fencingConfigs (final_state x)) = fold (table_step yaml) evs Map.empty)"
  using assms(1)
proof (induction rule: reach.induct)
  case (handle evs s obj deleted \<rho>)
  then have ok: "m_ok (fencingConfigs s)" by simp
  note step = Handle_table [OF assms(2) ok refl, of K getenv \<rho> obj deleted]
  have "table_outline (table_step yaml (obj, deleted) (map_of (fencingConfigs s))) =
      table_outline (table_step yaml (obj, deleted) (fold (table_step yaml) evs Map.empty))"
    using handle.IH by (intro table_step_outline) simp
  then show ?case using step handle.IH by simp
qed simp_all

subsection \<open>What every call satisfies\<close>

text \<open>
  \<open>recorded\<close>: a written request carries a history whose last entry gives the reason when the
  request is complete. \<open>first_job\<close>: a job is built from the first method of a configuration
  that some ConfigMap text decodes to, with the elements of its commands as answers of the server
  have left them, which changes nothing when the server echoes.
\<close>

definition recorded :: "FencingRequest \<Rightarrow> bool" where
  "recorded r \<longleftrightarrow> Updates (Status r) \<noteq> [] \<and>
     (Complete (Status r) \<longrightarrow> Result (Status r) = Message (last (Updates (Status r))))"

definition loaded_from :: "(string \<Rightarrow> gmap \<times> error option) \<Rightarrow> string \<Rightarrow> FencingConfig \<Rightarrow> bool" where
  "loaded_from yaml n c \<longleftrightarrow> (\<exists>str g. yaml str = (g, None) \<and> c = config_of n g)"

definition first_job :: "'w api \<Rightarrow> (string \<Rightarrow> gmap \<times> error option) \<Rightarrow> Job \<Rightarrow> bool" where
  "first_job K yaml j \<longleftrightarrow> (\<exists>\<rho> req n c m0 ms m. loaded_from yaml n c \<and> Methods c = m0 # ms \<and>
     method_outline m = method_outline m0 \<and> (echoes K \<longrightarrow> m = m0) \<and>
     createFencingJob \<rho> req c m = Inr (None, Some j))"

fun good :: "'w api \<Rightarrow> (string \<Rightarrow> gmap \<times> error option) \<Rightarrow> call \<Rightarrow> bool" where
  "good K yaml (UpdateRequest r) = recorded r"
| "good K yaml (CreateJob j) = first_job K yaml j"
| "good K yaml (Slept d) = False"
| "good K yaml c = True"

text \<open>Handling a request completes it only by giving up.\<close>

definition gives_up :: "FencingRequest \<Rightarrow> bool" where
  "gives_up r \<longleftrightarrow> (Complete (Status r) \<longrightarrow> Result (Status r) \<in> {''NoConfig'', ''GivingUp''})"

fun good_update :: "call \<Rightarrow> bool" where
  "good_update (UpdateRequest r) = (recorded r \<and> gives_up r)"
| "good_update c = True"

lemma good_kinds:
  "is_read c \<Longrightarrow> good K yaml c \<and> good_update c" "for_node c \<Longrightarrow> good K yaml c"
  by (cases c; simp)+

lemma reads_good: "reads s t \<Longrightarrow> logs (good K yaml) s t" "reads s t \<Longrightarrow> logs good_update s t"
  by (erule logs_mono [OF only_logs], simp add: good_kinds)+

lemma recorded_update: "\<not> Complete (Status req) \<Longrightarrow> recorded (with_update req u)"
  by (simp add: recorded_def with_update_def)

lemma gives_up_update: "\<not> Complete (Status req) \<Longrightarrow> gives_up (with_update req u)"
  by (simp add: gives_up_def with_update_def)

lemma gives_up_final:
  "r \<in> {RequestFailedNoConfig, RequestFailed} \<Longrightarrow> gives_up (with_update (completed req r) u)"
  by (auto simp: gives_up_def with_update_def completed_def)

lemma recorded_final: "recorded (with_update (completed req r) (update_entry t m r e))"
  by (simp add: recorded_def with_update_def completed_def update_entry_def)

lemma good_SetFinalResult:
  "r \<in> {RequestFailedNoConfig, RequestFailed} \<Longrightarrow> logs good_update s (snd (SetFinalResult K p req r e s))"
  by (simp add: logs_def recorded_final gives_up_final)

lemma good_AddResult:
  "\<not> Complete (Status req) \<Longrightarrow> logs good_update s (snd (AddResult K p req m r e s))"
  by (simp add: logs_def recorded_update gives_up_update)

lemma good_report:
  "\<not> Complete (Status req) \<Longrightarrow> logs good_update s (snd (report K p req m e final s))"
  by (simp add: report_def good_SetFinalResult good_AddResult)

lemma good_schedule_job:
  assumes "\<not> Complete (Status req)"
  shows "logs good_update s (final_state (schedule_job K \<rho> p req key cfg i m final s))"
proof -
  obtain running s1 where act: "isFencingMethodActive K (sub \<rho> 2) req m s = (running, s1)"
    by (metis surj_pair)
  have r: "logs good_update s s1"
    using reads_good(2) [OF reads_isFencingMethodActive [of s K "sub \<rho> 2" req m]] act by simp
  have rep: "logs good_update s1 (final_state (let (req1, s1) = report K p req m e final s1 in
      Returned (b, req1) s1))" for e b
    using good_report [OF assms] by (simp add: split_beta Let_def)
  have "logs good_update s1 (final_state (schedule_job K \<rho> p req key cfg i m final s))"
  proof (cases "running \<or> (\<exists>e. createFencingJob (sub \<rho> 3) req cfg m = Inl e)")
    case True
    then show ?thesis by (auto simp: schedule_job_def act)
  next
    case False
    then obtain err jp where job: "createFencingJob (sub \<rho> 3) req cfg m = Inr (err, jp)"
      and run: "\<not> running" by (cases "createFencingJob (sub \<rho> 3) req cfg m") auto
    show ?thesis
    proof (cases "err = None \<and> jp \<noteq> None")
      case False
      then show ?thesis using run good_report [OF assms]
        by (cases err) (auto simp: schedule_job_def act job HandleFencingRequestError_eq
            split_beta Let_def)
    next
      case True
      then obtain j where j: "jp = Some j" by blast
      obtain err2 job' req' s2 where
        step: "ExponentialBackoff (api_clock K) defaultBackoff (create_job_closure K (key, i))
          ((j, req), s1) = (err2, (job', req'), s2)"
        and c: "s2 = snd (action_Create_job K (key, i) j s1)"
        and q: "req' = req \<or> (\<exists>n. req' = req\<lparr>Status := (Status req)\<lparr>ActiveJob := n\<rparr>\<rparr>)"
        using create_job_step by blast
      have s2: "logs good_update s1 s2" by (simp add: logs_def c)
      have o': "\<not> Complete (Status req')" using q assms by auto
      note upd = logs_trans [OF s2 good_report [OF o']] logs_trans [OF s2 good_AddResult [OF o']]
      show ?thesis
        using run True j upd
        by (cases err2) (simp_all add: schedule_job_def act job HandleFencingRequestError_eq step
            split_beta Let_def)
    qed
  qed
  with r show ?thesis by (rule logs_trans)
qed

lemma good_HandleFencingRequest:
  "logs good_update s (final_state (HandleFencingRequest K \<rho> req deleted s))"
proof (cases "deleted \<or> Complete (Status req)")
  case True
  then show ?thesis by (auto simp: HandleFencingRequest_def)
next
  case False
  let ?o = "chooseFencingConfig K (sub \<rho> 0) req s"
  have r: "logs good_update s (final_state ?o)" by (rule reads_good(2) [OF reads_chooseFencingConfig])
  have step: "logs good_update s1 (final_state
      (if err \<noteq> None then
         (let (req2, s2) = SetFinalResult K p req1 RequestFailedNoConfig err s1 in Returned (err, req2) s2)
       else (case cp of None \<Rightarrow> Panicked NilDeref s1
         | Some (key, cfg) \<Rightarrow>
             (let ((err2, method, final), s2) = chooseFencingMethod K (sub \<rho> 1) req1 cfg s1
              in and_then (HandleFencingRequestError K p req1 (map_option snd method) err2 final s2)
                (\<lambda>(handled, req2) s3. if handled then Returned (err2, req2) s3
                  else (case method of None \<Rightarrow> Panicked NilDeref s3
                    | Some (i, m) \<Rightarrow> schedule_job K \<rho> p req2 key cfg i m final s3))))))"
    if ret: "?o = Returned ((err, cp), req1, p) s1" for err cp req1 p s1
  proof -
    have o1: "\<not> Complete (Status req1)" using chooseFencingConfig_result [OF ret] False by auto
    have m: "logs good_update s1 (final_state
        (let ((err2, method, final), s2) = chooseFencingMethod K (sub \<rho> 1) req1 cfg s1
              in and_then (HandleFencingRequestError K p req1 (map_option snd method) err2 final s2)
                (\<lambda>(handled, req2) s3. if handled then Returned (err2, req2) s3
                  else (case method of None \<Rightarrow> Panicked NilDeref s3
                    | Some (i, m) \<Rightarrow> schedule_job K \<rho> p req2 key cfg i m final s3))))" for key cfg
    proof -
      obtain err2 mp fin s2 where ch: "chooseFencingMethod K (sub \<rho> 1) req1 cfg s1 = ((err2, mp, fin), s2)"
        by (metis surj_pair)
      have r2: "logs good_update s1 s2"
        using reads_good(2) [OF reads_chooseFencingMethod [of s1 K "sub \<rho> 1" req1 cfg]] ch by simp
      note r3 = logs_trans [OF r2 good_schedule_job [OF o1]]
      show ?thesis
        using chooseFencingMethod_result [OF ch] r2 r3
        by (cases mp) (auto simp: ch [unfolded One_nat_def] HandleFencingRequestError_nil
            HandleFencingRequestError_eq)
    qed
    show ?thesis
      using m by (auto simp: split_beta Let_def good_SetFinalResult simp del: One_nat_def split: option.split)
  qed
  have d: "\<not> deleted" "\<not> Complete (Status req)" using False by simp_all
  show ?thesis
    unfolding HandleFencingRequest_def if_not_P [OF d(1)] if_not_P [OF d(2)]
    by (rule logs_and_then [OF r], clarify, rule step)
qed

text \<open>
  Every configuration in the cache was decoded from some text, under its own name, up to the
  writes through shared memory.
\<close>

definition cfgs_loaded ::
    "'w api \<Rightarrow> (string \<Rightarrow> gmap \<times> error option) \<Rightarrow> (string, FencingConfig option) gomap \<Rightarrow> bool" where
  "cfgs_loaded K yaml cfgs \<longleftrightarrow>
     m_ok cfgs \<and> (\<forall>n c. map_of cfgs n = Some (Some c) \<longrightarrow>
       (\<exists>c0. loaded_from yaml n c0 \<and> config_outline c = config_outline c0 \<and> (echoes K \<longrightarrow> c = c0)))"

lemma cfgs_loaded_set:
  assumes "cfgs_loaded K yaml cfgs" and "(n, Some c) \<in> set cfgs"
  shows "\<exists>c0. loaded_from yaml n c0 \<and> config_outline c = config_outline c0 \<and> (echoes K \<longrightarrow> c = c0)"
proof -
  have "distinct (map fst cfgs)" using assms(1) by (simp add: cfgs_loaded_def m_ok_distinct)
  from map_of_is_SomeI [OF this assms(2)] show ?thesis using assms(1) by (simp add: cfgs_loaded_def)
qed

lemma cfgs_loaded_evolves:
  assumes "cfgs_loaded K yaml (fencingConfigs s)" and "evolves K s t"
  shows "cfgs_loaded K yaml (fencingConfigs t)"
  unfolding cfgs_loaded_def
proof (intro conjI allI impI)
  have out: "cache_outline (fencingConfigs t) = cache_outline (fencingConfigs s)"
    and same: "echoes K \<Longrightarrow> fencingConfigs t = fencingConfigs s"
    using assms by (simp_all add: evolves_def cfgs_loaded_def)
  show "m_ok (fencingConfigs t)" using assms(1) m_ok_outline [OF out] by (simp add: cfgs_loaded_def)
  fix n c assume c: "map_of (fencingConfigs t) n = Some (Some c)"
  have "table_outline (map_of (fencingConfigs t)) n = table_outline (map_of (fencingConfigs s)) n"
    using out by (simp flip: table_outline_cache)
  then obtain d where d: "map_of (fencingConfigs s) n = Some (Some d)"
    "config_outline c = config_outline d"
    using c by (cases "map_of (fencingConfigs s) n"; cases "the (map_of (fencingConfigs s) n)")
      (auto simp: table_outline_def)
  then obtain c0 where "loaded_from yaml n c0" "config_outline d = config_outline c0"
    "echoes K \<longrightarrow> d = c0" using assms(1) by (auto simp: cfgs_loaded_def)
  then show "\<exists>c0. loaded_from yaml n c0 \<and> config_outline c = config_outline c0 \<and> (echoes K \<longrightarrow> c = c0)"
    using d c same by auto
qed

text \<open>What the outline keeps of a configuration's methods.\<close>

lemma outline_methods:
  "config_outline c = config_outline c0 \<Longrightarrow> map method_outline (Methods c) = map method_outline (Methods c0)"
  by (metis FencingConfig.select_convs(3) FencingConfig.surjective FencingConfig.update_convs(3) config_outline_def)

lemma outline_first_method:
  assumes "config_outline c = config_outline c0" and "Methods c = m # ms"
  shows "\<exists>m0 ms0. Methods c0 = m0 # ms0 \<and> method_outline m = method_outline m0"
  using outline_methods [OF assms(1)] by (simp add: assms(2)) (metis map_eq_Cons_conv)

lemma createFencingJob_method: "createFencingJob \<rho> req c m = createFencingJob \<rho> req c' m"
  by (simp add: createFencingJob_def)

lemma job_for_first:
  assumes "cfgs_loaded K yaml cfgs" and "ActiveMethod (Status req) = None" and "job_for req cfgs j"
  shows "first_job K yaml j"
proof -
  obtain \<rho> name n c m where j: "(n, Some c) \<in> set cfgs" "m \<in> set (Methods c)" "m = hd (Methods c)"
    "createFencingJob \<rho> (req\<lparr>Status := (Status req)\<lparr>Config := name\<rparr>\<rparr>) c m = Inr (None, Some j)"
    using assms(2,3) by (auto simp: job_for_def)
  have m: "Methods c = m # tl (Methods c)" using j(2,3) by (cases "Methods c") auto
  obtain c0 where c0: "loaded_from yaml n c0" "config_outline c = config_outline c0"
    "echoes K \<longrightarrow> c = c0" using cfgs_loaded_set [OF assms(1) j(1)] by blast
  obtain m0 ms0 where m0: "Methods c0 = m0 # ms0" "method_outline m = method_outline m0"
    using outline_first_method [OF c0(2) m] by blast
  have "echoes K \<longrightarrow> m = m0" using c0(3) m m0(1) by auto
  with c0(1) m0 j(4) show ?thesis unfolding first_job_def createFencingJob_method [of _ _ c _ c0] by blast
qed

lemma good_request:
  assumes "cfgs_loaded K yaml (fencingConfigs s)" and "ActiveMethod (Status req) = None"
  shows "logs (good K yaml) s (final_state (HandleFencingRequest K \<rho> req deleted s))"
proof -
  let ?t = "final_state (HandleFencingRequest K \<rho> req deleted s)"
  obtain rs ws where w: "new_calls s ?t = rs @ ws" "list_all is_read rs"
    "ws = [] \<or> (\<exists>r. ws = [UpdateRequest r]) \<or>
      (\<exists>j r. ws = [CreateJob j, UpdateRequest r] \<and> job_for req (fencingConfigs s) j)"
    using handles_HandleFencingRequest [of K req s \<rho> deleted]
    by (auto simp: handles_def request_calls_def)
  have "list_all good_update ws"
    using logs_new_calls [OF good_HandleFencingRequest [of s K \<rho> req deleted]] w(1) by simp
  then have "list_all (good K yaml) ws" using w(3) job_for_first [OF assms] by auto
  moreover have "list_all (good K yaml) rs"
    using w(2) good_kinds(1) by (auto simp: list_all_iff)
  ultimately show ?thesis
    using calls_evolves [OF does_evolves [OF for_request_HandleFencingRequest]] w(1)
    unfolding logs_def by (metis list_all_append)
qed

lemma inactive_SetFinalResult:
  "wire_server K \<Longrightarrow>
   ActiveMethod (Status (fst (SetFinalResult K p req r e s))) = ActiveMethod (Status req)"
  by (simp add: SetFinalResult_eq AddResult_eq action_Update_def perform_def wire_server_def
      with_update_def completed_def split_beta Let_def)

lemma good_job:
  assumes "cfgs_loaded K yaml (fencingConfigs s)" and "ActiveMethod (Status req) = None"
    and "wire_server K"
  shows "logs (good K yaml) s (final_state (HandleFencingJob K \<rho> req job deleted s))"
proof -
  let ?f = "SetFinalResult K None req MethodComplete (Some (job_complete job)) s"
  have f: "logs (good K yaml) s (snd ?f)" by (simp add: logs_def recorded_final)
  have "cfgs_loaded K yaml (fencingConfigs (snd ?f))"
    using assms(1) fencingConfigs_ext [OF SetFinalResult_own_ext] by metis
  from logs_trans [OF f good_request [OF this]] inactive_SetFinalResult [OF assms(3)] assms(2)
  have done': "logs (good K yaml) s (final_state (HandleFencingRequest K \<rho> (fst ?f) False (snd ?f)))"
    by simp
  show ?thesis
    using done' good_request [OF assms(1,2)] assms(2)
    by (auto simp: HandleFencingJob_def split_beta Let_def)
qed

lemma listed_inactive:
  assumes "wire_server K"
  shows "\<forall>r \<in> set (snd (fst (listFencingRequests K node n s))). inactive r"
proof -
  have "fst (listFencingRequests K node n s) = fst (list_requests K all_namespaces
      (if 0 < length n then ''target='' @ Name (n_ObjectMeta node) @ '',metadata.name='' @ n
       else ''target='' @ Name (n_ObjectMeta node)) (world s))"
    by (simp add: listFencingRequests_def query_List_requests_def perform_def split_beta Let_def)
  with assms show ?thesis by (simp add: wire_server_def)
qed

lemma good_HandleJob:
  assumes "cfgs_loaded K yaml (fencingConfigs s)" and "wire_server K"
  shows "logs (good K yaml) s (final_state (HandleJob K \<rho> job deleted s))"
proof (cases "OwnerReferences (j_ObjectMeta job)")
  case Nil
  then show ?thesis by (simp add: HandleJob_def)
next
  case (Cons ow os)
  let ?target = "case map_of (entries (Labels (j_ObjectMeta job))) ''target'' of
    None \<Rightarrow> [] | Some t \<Rightarrow> t"
  obtain np err s1 where n: "getNode K ?target s = ((np, err), s1)" by (metis surj_pair)
  have r1: "reads s s1" using reads_queries(1) [of s K ?target] n by simp
  show ?thesis
  proof (cases np)
    case None
    then show ?thesis using r1 by (simp add: HandleJob_def Cons n reads_good)
  next
    case (Some node)
    obtain e qs s2 where q: "listFencingRequests K node (or_Name ow) s1 = ((e, qs), s2)"
      by (metis surj_pair)
    have r2: "reads s s2"
      using only_trans [OF r1 reads_queries(2) [of s1 K node "or_Name ow"]] q by simp
    show ?thesis
    proof (cases qs)
      case Nil
      then show ?thesis using r2 by (simp add: HandleJob_def Cons n Some q reads_good)
    next
      case c: (Cons r rs)
      have "\<forall>r \<in> set qs. inactive r"
        using listed_inactive [OF assms(2), of node "or_Name ow" s1] q by simp
      then have a: "ActiveMethod (Status r) = None" by (simp add: c inactive_def)
      have l: "cfgs_loaded K yaml (fencingConfigs s2)"
        using assms(1) fencingConfigs_ext [OF only_ext [OF r2]] by simp
      have "logs (good K yaml) s2 (final_state (and_then (HandleFencingJob K \<rho> r job deleted s2)
          (\<lambda>(err, _) s3. Returned err s3)))"
        by (rule logs_and_then [OF good_job [OF l a assms(2)]]) (simp add: split_beta)
      from logs_trans [OF reads_good(1) [OF r2] this] show ?thesis
        by (simp add: HandleJob_def Cons n Some q c)
    qed
  qed
qed

lemma HandleConfigMap_loaded:
  assumes "cfgs_loaded K yaml (fencingConfigs s)" and "yaml_ok yaml"
  shows "cfgs_loaded K yaml (fencingConfigs (snd (HandleConfigMap yaml \<rho> cm deleted s)))"
proof -
  have "m_ok (fencingConfigs (snd (HandleConfigMap yaml \<rho> cm deleted s)))"
    using assms(1) by (auto simp: HandleConfigMap_def cfgs_loaded_def split_beta Let_def gomap_rules
        simp del: m_put.simps split: option.split)
  moreover have "map_of (fencingConfigs (snd (HandleConfigMap yaml \<rho> cm deleted s))) =
      (map_of (fencingConfigs s)) (cm_Name cm :=
         cached_entry yaml cm deleted (map_of (fencingConfigs s) (cm_Name cm)))"
    using Handle_table_map [OF assms(2), where cm = cm and s = s and deleted = deleted
        and \<rho> = \<rho>] by (simp add: Handle_def)
  moreover have "\<exists>c0. loaded_from yaml (cm_Name cm) c0 \<and> config_outline c = config_outline c0 \<and>
      (echoes K \<longrightarrow> c = c0)"
    if "cached_entry yaml cm deleted (map_of (fencingConfigs s) (cm_Name cm)) = Some (Some c)" for c
  proof (cases "map_of (fencingConfigs s) (cm_Name cm) = Some (Some c)")
    case True
    then show ?thesis using assms(1) by (simp add: cfgs_loaded_def)
  next
    case False
    then have "loaded_from yaml (cm_Name cm) c"
      using that by (auto simp: cached_entry_def loaded_from_def
          split: option.splits if_splits prod.splits)
    then show ?thesis by blast
  qed
  ultimately show ?thesis using assms(1) by (auto simp: cfgs_loaded_def)
qed

lemma Handle_good:
  assumes "cfgs_loaded K yaml (fencingConfigs s)" and "wire_server K" and "yaml_ok yaml"
    and "deliverable obj"
  shows "list_all (good K yaml) (new_calls s (final_state (Handle K getenv yaml \<rho> obj deleted s)))"
    and "cfgs_loaded K yaml (fencingConfigs (final_state (Handle K getenv yaml \<rho> obj deleted s)))"
proof -
  have node: "only for_node s t \<Longrightarrow> logs (good K yaml) s t" for t
    by (erule logs_mono [OF only_logs]) (rule good_kinds(2))
  have "logs (good K yaml) s (final_state (and_then (HandleJob K \<rho> j deleted s)
      (\<lambda>err s1. Returned None s1)))" for j
    by (rule logs_and_then [OF good_HandleJob [OF assms(1,2)]]) simp
  moreover have "logs (good K yaml) s (final_state (and_then (HandleFencingRequest K \<rho> r deleted s)
      (\<lambda>(err, _) s1. Returned None s1)))" if "inactive r" for r
    by (rule logs_and_then [OF good_request [OF assms(1)]]) (use that in \<open>simp_all add: inactive_def split_beta\<close>)
  moreover note node [OF for_node_HandleNode] node [OF for_node_HandleEvent]
  ultimately have "logs (good K yaml) s (final_state (Handle K getenv yaml \<rho> obj deleted s))"
    if "\<nexists>cm. obj = EConfigMap cm"
    using that assms(4) by (cases obj) (simp_all add: Handle_def)
  then show "list_all (good K yaml) (new_calls s (final_state (Handle K getenv yaml \<rho> obj deleted s)))"
    by (cases "\<exists>cm. obj = EConfigMap cm")
      (auto simp: Handle_def new_calls_def HandleConfigMap_calls dest: logs_new_calls)
  show "cfgs_loaded K yaml (fencingConfigs (final_state (Handle K getenv yaml \<rho> obj deleted s)))"
  proof (cases "\<exists>cm. obj = EConfigMap cm")
    case True
    then show ?thesis using HandleConfigMap_loaded [OF assms(1,3)] by (auto simp: Handle_def)
  next
    case False
    show ?thesis by (rule cfgs_loaded_evolves [OF assms(1) Handle_evolves [OF False]])
  qed
qed

lemma calls_Handle:
  "calls (final_state (Handle K getenv yaml \<rho> obj deleted s)) =
   calls s @ new_calls s (final_state (Handle K getenv yaml \<rho> obj deleted s))"
proof (cases "\<exists>cm. obj = EConfigMap cm")
  case True
  then show ?thesis by (auto simp: Handle_def new_calls_def HandleConfigMap_calls)
next
  case False
  from Handle_evolves [OF this] show ?thesis by (rule calls_evolves)
qed

lemma reach_good:
  assumes "reach K getenv yaml evs x" and "wire_server K" and "yaml_ok yaml"
  shows "list_all (good K yaml) (calls (final_state x)) \<and> cfgs_loaded K yaml (fencingConfigs (final_state x))"
  using assms(1)
proof (induction rule: reach.induct)
  case (start w)
  show ?case by (simp add: cfgs_loaded_def)
next
  case (outside evs s w)
  then show ?case by simp
next
  case (handle evs s obj deleted \<rho>)
  from handle.IH have "cfgs_loaded K yaml (fencingConfigs s)" by simp
  from Handle_good [OF this assms(2,3) handle.hyps(2)] handle.IH show ?case
    by (simp add: calls_Handle)
qed

subsection \<open>Properties\<close>

text \<open>C3: after any sequence of events the cache of configurations is the table obtained by
  applying the ConfigMap events in order: an entry is what its name's last deciding ConfigMap
  made of it, and nodes, events, jobs, requests and crashes leave no mark in it, when the server
  gives back what it is sent (\<open>echoes\<close>). With any other server the two still have the same keys,
  \<open>nil\<close> entries and configurations up to the strings that its answers were decoded into: names of
  configurations, and elements of commands.\<close>

theorem cache_refines_table:
  assumes "reach K getenv yaml evs x" and "yaml_ok yaml"
  shows "if echoes K then map_of (fencingConfigs (final_state x)) = fold (table_step yaml) evs Map.empty
    else table_outline (map_of (fencingConfigs (final_state x))) =
      table_outline (fold (table_step yaml) evs Map.empty)"
  using reach_table [OF assms] by simp

text \<open>C2: every job that is ever created, in any sequence of events and with any answers of the
  server, is built from the first method of a configuration that the text of some ConfigMap
  decodes to; no other method is ever tried. The elements of the method's commands may be those
  of an earlier answer to the creation of a job, which is decoded into them; with a server that
  gives back what it is sent the method is as it was decoded.\<close>

theorem only_first_methods_run:
  assumes "reach K getenv yaml evs x" and "wire_server K" and "yaml_ok yaml"
    and "CreateJob j \<in> set (calls (final_state x))"
  shows "\<exists>\<rho> req str g name m0 ms m. yaml str = (g, None) \<and> Methods (config_of name g) = m0 # ms \<and>
    method_outline m = method_outline m0 \<and> (echoes K \<longrightarrow> m = m0) \<and>
    createFencingJob \<rho> req (config_of name g) m = Inr (None, Some j)"
proof -
  have "good K yaml (CreateJob j)"
    using reach_good [OF assms(1-3)] assms(4) by (auto simp: list_all_iff)
  then show ?thesis unfolding good.simps first_job_def loaded_from_def by blast
qed

text \<open>C17: every update of a request that is ever sent carries a history entry, and when it marks
  the request complete its result is the message of the last one; and the operator never sleeps
  to retry a write, although every write is wrapped in a backoff of five steps.\<close>

theorem updates_recorded_no_retry:
  assumes "reach K getenv yaml evs x" and "wire_server K" and "yaml_ok yaml"
  shows "(\<forall>r. UpdateRequest r \<in> set (calls (final_state x)) \<longrightarrow> Updates (Status r) \<noteq> [] \<and>
      (Complete (Status r) \<longrightarrow> Result (Status r) = Message (last (Updates (Status r))))) \<and>
    (\<forall>d. Slept d \<notin> set (calls (final_state x)))"
proof -
  have "\<forall>c \<in> set (calls (final_state x)). good K yaml c"
    using reach_good [OF assms] by (auto simp: list_all_iff)
  then show ?thesis by (fastforce simp: recorded_def)
qed

text \<open>A run of two events: a ConfigMap with one method, and a request assigned to it.\<close>

definition good_map :: ConfigMap where
  "good_map = \<lparr>cm_Name = ''all'', Data = Some [(''fencing-config'', ''good'')]\<rparr>"

definition good_gmap :: gmap where
  "good_gmap = [(''methods'', GSlice [GMapS [(''name'', GStr ''ipmi'')]])]"

lemma sample_yaml_good: "sample_yaml ''good'' = (good_gmap, None)"
  by (simp add: sample_yaml_def good_gmap_def)

lemma yaml_ok_sample: "yaml_ok sample_yaml"
  using sample_yaml_ok by (auto simp: yaml_ok_def)

lemma wire_quiet: "wire_server quiet"
  by (simp add: wire_server_def quiet_def quiet_api_def)

lemma echoes_quiet: "echoes quiet"
  by (auto simp: echoes_def quiet_def quiet_api_def list_all_iff in_set_zip)

lemma reach_good_map:
  "\<exists>s. reach quiet getenv sample_yaml [(EConfigMap good_map, False)] (Returned () s) \<and>
     map_of (fencingConfigs s) ''all'' = Some (Some (config_of ''all'' good_gmap))"
proof -
  let ?s0 = "\<lparr>world = (), fencingConfigs = [], calls = []\<rparr>"
  have r: "reach quiet getenv sample_yaml ([] @ [(EConfigMap good_map, False)])
      (and_then (Handle quiet getenv sample_yaml in_order (EConfigMap good_map) False ?s0)
        (\<lambda>_ t. Returned () t))" by (rule reach.handle [OF reach.start]) simp
  obtain s where s: "Handle quiet getenv sample_yaml in_order (EConfigMap good_map) False ?s0 =
      Returned None s" by (simp add: Handle_def)
  have "map_of (fencingConfigs s) = table_step sample_yaml (EConfigMap good_map, False) (map_of [])"
    using Handle_table_map [OF yaml_ok_sample, of quiet getenv in_order good_map False ?s0] s
    by simp
  then have "map_of (fencingConfigs s) ''all'' = Some (Some (config_of ''all'' good_gmap))"
    by (simp add: good_map_def cached_entry_def sample_yaml_good)
  with r s show ?thesis by auto
qed

theorem cache_refines_table_witness:
  "\<exists>s. reach quiet (\<lambda>v. []) sample_yaml [(EConfigMap good_map, False)] (Returned () s) \<and>
     map_of (fencingConfigs s) = Map.empty(''all'' \<mapsto> Some (config_of ''all'' good_gmap))"
proof -
  obtain s where r: "reach quiet (\<lambda>v. []) sample_yaml [(EConfigMap good_map, False)] (Returned () s)"
    using reach_good_map by blast
  from cache_refines_table [OF r yaml_ok_sample] r show ?thesis
    by (auto simp: echoes_quiet good_map_def cached_entry_def sample_yaml_good)
qed

lemma reach_job:
  "\<exists>x j r. reach quiet (\<lambda>v. []) sample_yaml
     [(EConfigMap good_map, False), (EFencingRequest (assigned_request None), False)] x \<and>
     CreateJob j \<in> set (calls (final_state x)) \<and> UpdateRequest r \<in> set (calls (final_state x))"
proof -
  let ?cfg = "config_of ''all'' good_gmap" and ?req = "assigned_request None"
  obtain s where r: "reach quiet (\<lambda>v. []) sample_yaml [(EConfigMap good_map, False)] (Returned () s)"
    and s: "map_of (fencingConfigs s) ''all'' = Some (Some ?cfg)" using reach_good_map by blast
  have ms: "Methods ?cfg = [method_of [(''name'', GStr ''ipmi'')]]"
    by (simp add: config_of_def good_gmap_def subs_at_def value_at_def m_index_def
        NewConfigFromMap_def)
  define m where "m = method_of [(''name'', GStr ''ipmi'')]"
  have mech: "Mechanisms m = []"
    by (simp add: m_def method_of_def subs_at_def value_at_def m_index_def)
  have a: "assigned_config ?req s = Some ?cfg"
    using s by (simp add: assigned_config_def assigned_request_def sample_defs)
  have c: "chooseFencingMethod quiet (sub in_order 1) ?req ?cfg s = ((None, Some (0, m), True), s)"
    by (simp add: chooseFencingMethod_def ms m_def assigned_request_def sample_defs)
  obtain s2 where i: "isFencingMethodActive quiet (sub in_order 2) ?req m s = (False, s2)"
    using quiet_inactive [of "sub in_order 2" ?req m s] by (metis prod.collapse)
  have e: "ext s s2"
    using only_ext [OF reads_isFencingMethodActive [of s quiet "sub in_order 2" ?req m]] i by simp
  obtain j where j: "createFencingJob (sub in_order 3) ?req ?cfg m = Inr (None, Some j)"
    by (simp add: createFencingJob_def mech)
  obtain req' t q where run: "HandleFencingRequest quiet in_order ?req False s = Returned (None, req') t"
    and t: "calls t = calls s2 @ [CreateJob j, UpdateRequest q]"
    using HandleFencingRequest_run [OF sample_open(1) a c i j sample_created] by blast
  note t
  moreover have "reach quiet (\<lambda>v. []) sample_yaml
      ([(EConfigMap good_map, False)] @ [(EFencingRequest ?req, False)])
      (and_then (Handle quiet (\<lambda>v. []) sample_yaml in_order (EFencingRequest ?req) False s)
        (\<lambda>_ t. Returned () t))"
    by (rule reach.handle [OF r]) (simp add: inactive_def assigned_request_def sample_defs)
  ultimately show ?thesis
    by (intro exI [of _ "Returned () t"] exI [of _ j] exI [of _ q]) (simp add: Handle_def run)
qed

theorem only_first_methods_run_witness:
  "\<exists>j \<rho> req str g name m ms. sample_yaml str = (g, None) \<and> Methods (config_of name g) = m # ms \<and>
     createFencingJob \<rho> req (config_of name g) m = Inr (None, Some j)"
proof -
  obtain x j where x: "reach quiet (\<lambda>v. []) sample_yaml
      [(EConfigMap good_map, False), (EFencingRequest (assigned_request None), False)] x"
    and j: "CreateJob j \<in> set (calls (final_state x))" using reach_job by blast
  from only_first_methods_run [OF x wire_quiet yaml_ok_sample j] echoes_quiet show ?thesis by blast
qed

theorem updates_recorded_no_retry_witness:
  "\<exists>x r. reach quiet (\<lambda>v. []) sample_yaml
      [(EConfigMap good_map, False), (EFencingRequest (assigned_request None), False)] x \<and>
    UpdateRequest r \<in> set (calls (final_state x)) \<and> Updates (Status r) \<noteq> []"
proof -
  obtain x j r where x: "reach quiet (\<lambda>v. []) sample_yaml
      [(EConfigMap good_map, False), (EFencingRequest (assigned_request None), False)] x"
    and r: "UpdateRequest r \<in> set (calls (final_state x))" using reach_job by blast
  from updates_recorded_no_retry [OF x wire_quiet yaml_ok_sample] x r show ?thesis by blast
qed

end
