(* ===== verification/Crashes.thy ===== *)
theory Crashes
  imports Workflow
begin

section \<open>Well-formed caches and crashes\<close>

text \<open>
  What type of configurations the cache can hold in a run of the operator, and from it exactly
  when the handling of a request crashes; then the handling of a ConfigMap as the two writes to
  \<open>fencingConfigs\<close> that a request, handled in another goroutine, can fall between.
\<close>

subsection \<open>The configurations of the cache\<close>

text \<open>
  The invariants of the data that the code relies on without checking: pointers the code follows
  are not \<open>nil\<close>, maps have distinct keys. None of it can be changed by writes through shared memory.
\<close>

definition wf_mechanism :: "FencingMechanism \<Rightarrow> bool" where
  "wf_mechanism k \<longleftrightarrow> mech_Container k \<noteq> None \<and> TimeoutSeconds k \<noteq> None \<and>
     m_ok (entries (mech_Config k)) \<and> m_ok (entries (Secrets k)) \<and>
     (\<forall>d \<in> set (DynamicConfig k). m_ok (entries (Values d)))"

definition wf_method :: "FencingMethod \<Rightarrow> bool" where
  "wf_method m \<longleftrightarrow> RequireAfterSeconds m \<noteq> None \<and> Retries m = 1 \<and> list_all wf_mechanism (Mechanisms m)"

definition wf_config :: "FencingConfig \<Rightarrow> bool" where
  "wf_config c \<longleftrightarrow> m_ok (entries (NodeSelector c)) \<and> list_all wf_method (Methods c)"

lemma wf_mechanism_outline [simp]: "wf_mechanism (mechanism_outline k) \<longleftrightarrow> wf_mechanism k"
  by (simp add: wf_mechanism_def mechanism_outline_def)

lemma wf_method_outline [simp]: "wf_method (method_outline m) \<longleftrightarrow> wf_method m"
  by (simp add: wf_method_def method_outline_def list.pred_map comp_def)

lemma wf_config_outline: "wf_config (config_outline c) \<longleftrightarrow> wf_config c"
  by (simp add: wf_config_def config_outline_def set_config_name_def list.pred_map comp_def)

lemma strmap_at_ok: "m_ok (entries (strmap_at g key))"
  by (auto simp: strmap_at_def gomap_rules split: list.split option.split)

lemma wf_mechanism_of: "wf_mechanism (mechanism_of g)"
  by (simp add: wf_mechanism_def mechanism_of_def dynamic_of_def strmap_at_ok)

lemma wf_method_of: "wf_method (method_of g)"
  by (simp add: wf_method_def method_of_def list_all_iff wf_mechanism_of)

lemma wf_config_of: "wf_config (config_of n g)"
  by (simp add: wf_config_def config_of_def list_all_iff wf_method_of strmap_at_ok)

lemma reach_loaded:
  assumes "reach K getenv yaml evs x" and "yaml_ok yaml"
  shows "cfgs_loaded K yaml (fencingConfigs (final_state x))"
  using assms(1)
proof (induction rule: reach.induct)
  case (handle evs s obj deleted \<rho>)
  then have l: "cfgs_loaded K yaml (fencingConfigs s)" by simp
  show ?case
  proof (cases "\<exists>cm. obj = EConfigMap cm")
    case True
    then show ?thesis using HandleConfigMap_loaded [OF l assms(2)] by (auto simp: Handle_def)
  next
    case False
    show ?thesis using cfgs_loaded_evolves [OF l Handle_evolves [OF False]] by simp
  qed
qed (simp_all add: cfgs_loaded_def)

definition wf_cache :: "(string, FencingConfig option) gomap \<Rightarrow> bool" where
  "wf_cache cfgs \<longleftrightarrow> m_ok cfgs \<and> (\<forall>n c. (n, Some c) \<in> set cfgs \<longrightarrow> wf_config c)"

definition named_by_keys :: "(string, FencingConfig option) gomap \<Rightarrow> bool" where
  "named_by_keys cfgs \<longleftrightarrow> (\<forall>n c. (n, Some c) \<in> set cfgs \<longrightarrow> Name (cfg_ObjectMeta c) = n)"

lemma loaded_wf: "cfgs_loaded K yaml cfgs \<Longrightarrow> wf_cache cfgs"
  unfolding wf_cache_def
proof (intro conjI allI impI)
  assume l: "cfgs_loaded K yaml cfgs"
  then show "m_ok cfgs" by (simp add: cfgs_loaded_def)
  fix n c assume "(n, Some c) \<in> set cfgs"
  from cfgs_loaded_set [OF l this] obtain c0 where
    "loaded_from yaml n c0" "config_outline c = config_outline c0" by blast
  moreover from this have "wf_config c0" by (auto simp: loaded_from_def wf_config_of)
  ultimately show "wf_config c" by (metis wf_config_outline)
qed

lemma loaded_named: "cfgs_loaded K yaml cfgs \<Longrightarrow> echoes K \<Longrightarrow> named_by_keys cfgs"
  unfolding named_by_keys_def using cfgs_loaded_set
  by (fastforce simp: loaded_from_def config_of_def)

lemmas reach_wf = loaded_wf [OF reach_loaded]

subsection \<open>Crashes\<close>

lemma createFencingJob_total:
  assumes "list_all wf_mechanism (Mechanisms m)"
  shows "\<exists>e j. createFencingJob \<rho> req cfg m = Inr (e, j) \<and> (e = None \<longrightarrow> j \<noteq> None)"
proof -
  have "\<forall>k \<in> set (Mechanisms m). mech_Container k \<noteq> None"
    using assms by (auto simp: list_all_iff wf_mechanism_def)
  from job_loop_no_panic [OF this] obtain r where
    "job_loop \<rho> (Target (Spec req)) (fm_Name m) 0 (Mechanisms m) [] [] = Inr r" by blast
  then show ?thesis
    by (cases "fst r") (auto simp: createFencingJob_def split_beta Let_def split: prod.split)
qed

lemma schedule_job_total:
  assumes "list_all wf_mechanism (Mechanisms m)"
  shows "\<not> panics (schedule_job K \<rho> p req key cfg i m final s)"
proof -
  obtain running s1 where act: "isFencingMethodActive K (sub \<rho> 2) req m s = (running, s1)"
    by (metis surj_pair)
  obtain e jp where job: "createFencingJob (sub \<rho> 3) req cfg m = Inr (e, jp)" "e = None \<longrightarrow> jp \<noteq> None"
    using createFencingJob_total [OF assms] by blast
  show ?thesis
  proof (cases e)
    case (Some err)
    then show ?thesis
      by (simp add: schedule_job_def act job(1) HandleFencingRequestError_eq split_beta Let_def)
  next
    case None
    with job(2) obtain j where j: "jp = Some j" by blast
    obtain err2 job' req' s2 where
      step: "ExponentialBackoff (api_clock K) defaultBackoff (create_job_closure K (key, i))
          ((j, req), s1) = (err2, (job', req'), s2)" using create_job_step by blast
    show ?thesis
      using None j by (cases err2) (simp_all add: schedule_job_def act job(1)
          HandleFencingRequestError_eq step split_beta Let_def)
  qed
qed

text \<open>The rest of the handler after a configuration was chosen.\<close>

lemma chosen_panics:
  assumes "ActiveMethod (Status req) = None" and "list_all wf_method (Methods cfg)"
    and "chooseFencingConfig K (sub \<rho> 0) req s = Returned ((None, Some (key, cfg)), req1, p) s1"
    and "\<not> Complete (Status req)"
  shows "panics (HandleFencingRequest K \<rho> req False s) \<longleftrightarrow> Methods cfg = []"
proof -
  have a: "ActiveMethod (Status req1) = None"
    using chooseFencingConfig_result [OF assms(3)] assms(1) by auto
  show ?thesis
  proof (cases "Methods cfg")
    case Nil
    then have "chooseFencingMethod K (sub \<rho> 1) req1 cfg s1 =
        ((Some (Errorf ''No remaining methods available''), None, True), s1)"
      by (simp add: chooseFencingMethod_def)
    then show ?thesis
      using assms(3,4) Nil
      by (simp add: HandleFencingRequest_def HandleFencingRequestError_nil del: One_nat_def)
  next
    case (Cons m ms)
    have "list_all wf_mechanism (Mechanisms m)" using assms(2) Cons by (simp add: wf_method_def)
    then show ?thesis
      using assms(3,4) Cons chooseFencingMethod_first [OF a Cons, of K "sub \<rho> 1" s1, unfolded One_nat_def]
      by (simp add: HandleFencingRequest_def HandleFencingRequestError_eq schedule_job_total)
  qed
qed

lemma HandleFencingRequest_panics:
  assumes "wf_cache (fencingConfigs s)" and "ActiveMethod (Status req) = None"
  shows "panics (HandleFencingRequest K \<rho> req deleted s) \<longleftrightarrow>
    \<not> deleted \<and> \<not> Complete (Status req) \<and>
    (assigned_config req s = None \<and> None \<in> snd ` set (fencingConfigs s) \<or>
     (\<exists>key cfg req1 p s1.
        chooseFencingConfig K (sub \<rho> 0) req s = Returned ((None, Some (key, cfg)), req1, p) s1 \<and>
        Methods cfg = []))"
proof (cases "\<not> deleted \<and> \<not> Complete (Status req)")
  case open_req: True
  show ?thesis
  proof (cases "chooseFencingConfig K (sub \<rho> 0) req s")
    case (Panicked e s1)
    then show ?thesis
      using open_req choice_panics [of K "sub \<rho> 0" req s] by (simp add: HandleFencingRequest_def)
  next
    case (Returned a s1)
    obtain err cp req1 p where a: "a = ((err, cp), req1, p)" by (metis surj_pair)
    have np: "\<not> (assigned_config req s = None \<and> None \<in> snd ` set (fencingConfigs s))"
      using choice_panics [of K "sub \<rho> 0" req s] by (simp add: Returned)
    note res = chooseFencingConfig_result [OF Returned [unfolded a]]
    show ?thesis
    proof (cases cp)
      case None
      with res obtain e where "err = Some e" by blast
      then show ?thesis using open_req np None
        by (simp add: HandleFencingRequest_def Returned a split_beta Let_def)
    next
      case (Some kc)
      obtain key cfg where kc: "kc = (key, cfg)" by (cases kc)
      from Some res have e: "err = None" by simp
      have "(key, Some cfg) \<in> set (fencingConfigs s)" using res Some kc by simp
      then have "list_all wf_method (Methods cfg)"
        using assms(1) by (auto simp: wf_cache_def wf_config_def)
      from chosen_panics [OF assms(2) this Returned [unfolded a e Some kc]] open_req np
      show ?thesis by (auto simp: Returned a e Some kc)
    qed
  qed
qed (auto simp: HandleFencingRequest_def)

subsection \<open>A ConfigMap in two steps\<close>

text \<open>
  \<open>HandleConfigMap\<close> writes an update of a loaded configuration in two steps: it sets the entry to
  \<open>nil\<close>, decodes the text, and stores the result. The SDK runs one goroutine per watched
  resource, and nothing keeps a request from being handled between the two writes.
\<close>

definition HandleConfigMap_begin :: "ConfigMap \<Rightarrow> bool \<Rightarrow> 'w opstate \<Rightarrow> bool \<times> 'w opstate" where
  "HandleConfigMap_begin configmap deleted s =
     (if map_of (entries (Data configmap)) ''fencing-config'' = None then (True, s)
      else if deleted then
        (True, s\<lparr>fencingConfigs := m_put (cm_Name configmap) None (fencingConfigs s)\<rparr>)
      else if map_of (fencingConfigs s) (cm_Name configmap) \<noteq> None then
        (False, s\<lparr>fencingConfigs := m_put (cm_Name configmap) None (fencingConfigs s)\<rparr>)
      else (False, s))"

definition HandleConfigMap_finish ::
    "(string \<Rightarrow> gmap \<times> error option) \<Rightarrow> chooser \<Rightarrow> ConfigMap \<Rightarrow> 'w opstate \<Rightarrow>
     error option \<times> 'w opstate" where
  "HandleConfigMap_finish yaml \<rho> configmap s =
     (let data = (case map_of (entries (Data configmap)) ''fencing-config'' of
                    None \<Rightarrow> [] | Some d \<Rightarrow> d);
          (cfg, err) = NewConfigFromString yaml data
      in if err \<noteq> None then (err, s)
         else
          (let (subcfgs, cfg1) = GetSubConfigArray (sub \<rho> 0) cfg ''methods'';
               (err2, methods) = methods_loop (sub \<rho> 1) 0 subcfgs []
           in if err2 \<noteq> None then (err2, s)
              else
               (let (selector, cfg2) = GetMapOfStrings (sub \<rho> 2) cfg1 ''nodeSelector'';
                    fc = \<lparr>cfg_ObjectMeta = empty_meta\<lparr>Name := cm_Name configmap\<rparr>,
                          NodeSelector = selector, Methods = methods\<rparr>
                in (None, s\<lparr>fencingConfigs :=
                          m_put (cm_Name configmap) (Some fc) (fencingConfigs s)\<rparr>))))"

lemma HandleConfigMap_steps:
  "HandleConfigMap yaml \<rho> cm deleted s =
     (let (finished, s1) = HandleConfigMap_begin cm deleted s
      in if finished then (None, s1) else HandleConfigMap_finish yaml \<rho> cm s1)"
  by (cases "map_of (entries (Data cm)) ''fencing-config''"; cases deleted;
      cases "map_of (fencingConfigs s) (cm_Name cm)")
    (simp_all add: HandleConfigMap_def HandleConfigMap_begin_def HandleConfigMap_finish_def
      split_beta Let_def del: One_nat_def)

lemma HandleConfigMap_finish_eq:
  assumes "map_of (entries (Data cm)) ''fencing-config'' = Some str" and "yaml str = (g, None)"
    and "gmap_ok g"
  shows "HandleConfigMap_finish yaml \<rho> cm s =
    (None, s\<lparr>fencingConfigs := m_put (cm_Name cm) (Some (config_of (cm_Name cm) g)) (fencingConfigs s)\<rparr>)"
proof -
  have ms: "methods_loop \<rho>' i (subs_at g key) [] =
      (None, map (\<lambda>d. method_of (config d)) (subs_at g key))" for \<rho>' i key
    using subs_at_ok [OF assms(3)] by (subst methods_loop_eq) (auto simp: list_all_iff)
  show ?thesis
    using assms by (simp add: HandleConfigMap_finish_def NewConfigFromString_def get_subs.result
        get_subs.keeps get_strmap.result ms config_of_def split_beta Let_def)
qed

lemma put_twice_entries:
  assumes "m_ok cfgs" and "(k, v) \<in> set (m_put n v2 (m_put n v1 cfgs))"
  shows "k = n \<and> v = v2 \<or> (k, v) \<in> set cfgs"
proof -
  have "distinct (map fst (m_put n v2 (m_put n v1 cfgs)))"
    by (intro m_ok_distinct gomap_rules assms(1))
  from map_of_is_SomeI [OF this assms(2)] show ?thesis
    by (auto split: if_splits intro: map_of_SomeD)
qed

lemma no_nil_entry_put:
  assumes "m_ok cfgs" and "None \<notin> snd ` set cfgs"
  shows "None \<notin> snd ` set (m_put n (Some c) (m_put n None cfgs))"
  using put_twice_entries [OF assms(1)] assms(2) by force

text \<open>A cache in good order, in which every configuration has methods, never crashes a request.\<close>

lemma HandleFencingRequest_no_panic:
  assumes "wf_cache (fencingConfigs s)" and "ActiveMethod (Status req) = None"
    and "None \<notin> snd ` set (fencingConfigs s)"
    and "\<forall>n c. (n, Some c) \<in> set (fencingConfigs s) \<longrightarrow> Methods c \<noteq> []"
  shows "\<not> panics (HandleFencingRequest K \<rho> req deleted s)"
  unfolding HandleFencingRequest_panics [OF assms(1,2)]
  using assms(3,4) chooseFencingConfig_result by fast

subsection \<open>Properties\<close>

text \<open>C25: In every state the operator can reach, with any answers of the server, each configuration
  in the cache is well formed: its selector and the maps of its mechanisms have distinct keys, every
  mechanism has a container and a timeout, every method its \<open>RequireAfterSeconds\<close> and one retry. With
  a server that gives back what it is sent each also carries the name it is stored under. (The YAML
  decoder builds maps without duplicate keys.)\<close>

theorem reachable_cache_well_formed:
  assumes "reach K getenv yaml evs x" and "yaml_ok yaml"
  shows "wf_cache (fencingConfigs (final_state x)) \<and>
    (echoes K \<longrightarrow> named_by_keys (fencingConfigs (final_state x)))"
  using reach_wf [OF assms] loaded_named [OF reach_loaded [OF assms]] by blast

text \<open>C4: Exactly when handling a request that comes from the server crashes, in any state the
  operator can reach: the request is neither deleted nor complete, and either no loaded
  configuration is assigned to it while the cache has a \<open>nil\<close> entry, or the configuration chosen
  for it has no methods. Nothing else a request, a configuration or the server's answers contain
  can crash it.\<close>

theorem HandleFencingRequest_crashes_iff:
  assumes "reach K getenv yaml evs (Returned () s)" and "yaml_ok yaml"
    and "deliverable (EFencingRequest req)"
  shows "panics (HandleFencingRequest K \<rho> req deleted s) \<longleftrightarrow>
    \<not> deleted \<and> \<not> Complete (Status req) \<and>
    (assigned_config req s = None \<and> None \<in> snd ` set (fencingConfigs s) \<or>
     (\<exists>key cfg req1 p s1.
        chooseFencingConfig K (sub \<rho> 0) req s = Returned ((None, Some (key, cfg)), req1, p) s1 \<and>
        Methods cfg = []))"
  using HandleFencingRequest_panics [OF reach_wf [OF assms(1,2), simplified]] assms(3)
  by (simp add: inactive_def)

text \<open>C33: Exactly when the handling of a job of a request that comes from the server crashes: the
  request is open, the job has counted something, and it is either not running with both failures
  and successes (\<open>*req.Status.ActiveMethod\<close> is \<open>nil\<close>), or, running or failed without a success,
  it makes the handler go on with the request and that crashes. A job that only succeeded crashes
  nothing.\<close>

theorem HandleFencingJob_crashes_iff:
  assumes "keeps_complete K" and "inactive req"
  shows "panics (HandleFencingJob K \<rho> req job deleted s) \<longleftrightarrow>
    \<not> Complete (Status req) \<and>
    (if Active job = 0
     then Failed job \<noteq> 0 \<and> (Succeeded job \<noteq> 0 \<or> panics (HandleFencingRequest K \<rho> req False s))
     else panics (HandleFencingRequest K \<rho> req False s))"
proof -
  let ?a = "SetFinalResult K None req MethodComplete (Some (job_complete job)) s"
  have "Complete (Status (fst ?a))"
    unfolding SetFinalResult_eq
    by (rule AddResult_keeps_complete [OF assms(1)]) (simp add: completed_def)
  then have "\<not> panics (HandleFencingRequest K \<rho> (fst ?a) False (snd ?a))"
    by (simp add: HandleFencingRequest_def)
  then show ?thesis
    using assms(2) by (auto simp: HandleFencingJob_def inactive_def split_beta Let_def)
qed

theorem HandleFencingJob_crashes_iff_witness:
  "panics (HandleFencingJob (quiet_api [] [] [] []) in_order (sample_request None)
     (sample_job_status 1 1) False (sample_state [])) \<and>
   \<not> panics (HandleFencingJob (quiet_api [] [] [] []) in_order (sample_request None)
     (sample_job_status 0 1) False (sample_state []))"
proof -
  have K: "keeps_complete (quiet_api [] [] [] [])" by (simp add: keeps_complete_def quiet_api_def)
  have i: "inactive (sample_request None)" by (simp add: inactive_def sample_defs)
  show ?thesis
    using HandleFencingJob_crashes_iff [OF K i, of in_order "sample_job_status 1 1" False "sample_state []"]
      HandleFencingJob_crashes_iff [OF K i, of in_order "sample_job_status 0 1" False "sample_state []"]
    by (simp add: sample_job_status_def sample_defs)
qed

text \<open>C29: The update of a loaded configuration to another valid text has a window in which any open
  request without an assigned configuration, or with this one, crashes the operator, although the
  operator is in good order before and after it: if no entry is \<open>nil\<close> and every configuration has
  methods, the updated one too, then handling the request crashes neither before the first nor after
  the second write of \<open>HandleConfigMap\<close>, and does between the two.\<close>

theorem config_update_window:
  assumes "reach K getenv yaml evs (Returned () s)" and "yaml_ok yaml"
    and "None \<notin> snd ` set (fencingConfigs s)"
    and "\<forall>n c. (n, Some c) \<in> set (fencingConfigs s) \<longrightarrow> Methods c \<noteq> []"
    and "map_of (fencingConfigs s) (cm_Name cm) \<noteq> None"
    and "map_of (entries (Data cm)) ''fencing-config'' = Some str" and "yaml str = (g, None)"
    and "Methods (config_of (cm_Name cm) g) \<noteq> []"
    and "FencingRequestStatus.Config (Status req) \<in> {None, Some (cm_Name cm)}"
    and "\<not> Complete (Status req)" and "deliverable (EFencingRequest req)"
  shows "\<exists>s1 s2. HandleConfigMap_begin cm False s = (False, s1) \<and>
    HandleConfigMap_finish yaml \<rho> cm s1 = (None, s2) \<and>
    HandleConfigMap yaml \<rho> cm False s = (None, s2) \<and>
    \<not> panics (HandleFencingRequest K \<rho>' req False s) \<and>
    panics (HandleFencingRequest K \<rho>' req False s1) \<and>
    \<not> panics (HandleFencingRequest K \<rho>' req False s2)"
proof -
  let ?s1 = "s\<lparr>fencingConfigs := m_put (cm_Name cm) None (fencingConfigs s)\<rparr>"
  let ?s2 = "?s1\<lparr>fencingConfigs :=
    m_put (cm_Name cm) (Some (config_of (cm_Name cm) g)) (fencingConfigs ?s1)\<rparr>"
  have g: "gmap_ok g" using assms(2,7) by (auto simp: yaml_ok_def)
  have a: "ActiveMethod (Status req) = None" using assms(11) by (simp add: inactive_def)
  have b: "HandleConfigMap_begin cm False s = (False, ?s1)"
    using assms(5,6) by (simp add: HandleConfigMap_begin_def)
  have f: "HandleConfigMap_finish yaml \<rho> cm ?s1 = (None, ?s2)"
    by (rule HandleConfigMap_finish_eq [where str = str and yaml = yaml, OF assms(6) assms(7) g])
  have run: "HandleConfigMap yaml \<rho> cm False s = (None, ?s2)"
    using b f by (simp add: HandleConfigMap_steps)
  have l: "cfgs_loaded K yaml (fencingConfigs s)" using reach_loaded [OF assms(1,2)] by simp
  then have wf: "wf_cache (fencingConfigs s)" by (rule loaded_wf)
  then have ok: "m_ok (fencingConfigs s)" by (simp add: wf_cache_def)
  have before: "\<not> panics (HandleFencingRequest K \<rho>' req False s)"
    using HandleFencingRequest_no_panic [OF wf a assms(3,4)] .
  have "wf_cache (fencingConfigs ?s2)"
    using loaded_wf [OF HandleConfigMap_loaded [OF l assms(2), of \<rho> cm False]] unfolding run by simp
  moreover have "\<forall>n c. (n, Some c) \<in> set (fencingConfigs ?s2) \<longrightarrow> Methods c \<noteq> []"
    using put_twice_entries [OF ok, where n = "cm_Name cm" and ?v2.0 = "Some (config_of (cm_Name cm) g)"
        and ?v1.0 = None] assms(4,8) by fastforce
  ultimately have after: "\<not> panics (HandleFencingRequest K \<rho>' req False ?s2)"
    using no_nil_entry_put [OF ok assms(3)] by (intro HandleFencingRequest_no_panic [OF _ a]) simp_all
  have nil: "map_of (fencingConfigs ?s1) (cm_Name cm) = Some None" by simp
  then have "assigned_config req ?s1 = None \<and> None \<in> snd ` set (fencingConfigs ?s1)"
    using assms(9) map_of_SomeD [OF nil] by (force simp: assigned_config_def)
  then have "panics (chooseFencingConfig K (sub \<rho>' 0) req ?s1)" by (simp add: choice_panics)
  then have "panics (HandleFencingRequest K \<rho>' req False ?s1)"
    using assms(10) by (cases "chooseFencingConfig K (sub \<rho>' 0) req ?s1")
      (simp_all add: HandleFencingRequest_def)
  with b f run before after show ?thesis by blast
qed

subsection \<open>Witnesses\<close>

lemma reach_good_cache:
  "\<exists>s. reach quiet (\<lambda>v. []) sample_yaml [(EConfigMap good_map, False)] (Returned () s) \<and>
     fencingConfigs s = [(''all'', Some (config_of ''all'' good_gmap))]"
proof -
  obtain s where r: "reach quiet (\<lambda>v. []) sample_yaml [(EConfigMap good_map, False)] (Returned () s)"
    using reach_good_map by blast
  have "m_ok (fencingConfigs s)"
    using reach_wf [OF r yaml_ok_sample] by (simp add: wf_cache_def)
  moreover have "map_of (fencingConfigs s) = map_of [(''all'', Some (config_of ''all'' good_gmap))]"
    using reach_table [OF r yaml_ok_sample] by (simp add: echoes_quiet good_map_def cached_entry_def sample_yaml_good)
  ultimately have "fencingConfigs s = [(''all'', Some (config_of ''all'' good_gmap))]"
    by (intro m_ok_ext) (simp_all add: m_ok_def)
  with r show ?thesis by blast
qed

theorem reachable_cache_well_formed_witness:
  "wf_cache [(''all'', Some (config_of ''all'' good_gmap))] \<and>
   named_by_keys [(''all'', Some (config_of ''all'' good_gmap))]"
proof -
  obtain s where r: "reach quiet (\<lambda>v. []) sample_yaml [(EConfigMap good_map, False)] (Returned () s)"
    and c: "fencingConfigs s = [(''all'', Some (config_of ''all'' good_gmap))]"
    using reach_good_cache by blast
  from reachable_cache_well_formed [OF r yaml_ok_sample] c echoes_quiet show ?thesis by simp
qed

theorem HandleFencingRequest_crashes_iff_witness:
  "\<exists>s. reach quiet (\<lambda>v. []) sample_yaml [(EConfigMap good_map, False)] (Returned () s) \<and>
     \<not> panics (HandleFencingRequest quiet in_order (assigned_request None) True s) \<and>
     \<not> panics (HandleFencingRequest quiet in_order (assigned_request None) False s)"
proof -
  obtain s where r: "reach quiet (\<lambda>v. []) sample_yaml [(EConfigMap good_map, False)] (Returned () s)"
    and c: "fencingConfigs s = [(''all'', Some (config_of ''all'' good_gmap))]"
    using reach_good_cache by blast
  have d: "deliverable (EFencingRequest (assigned_request None))"
    by (simp add: inactive_def assigned_request_def sample_defs)
  have a: "assigned_config (assigned_request None) s = Some (config_of ''all'' good_gmap)"
    by (simp add: assigned_config_def assigned_request_def sample_defs c)
  have "Methods (config_of ''all'' good_gmap) \<noteq> []"
    by (simp add: config_of_def good_gmap_def subs_at_def value_at_def m_index_def NewConfigFromMap_def)
  then have "\<not> panics (HandleFencingRequest quiet in_order (assigned_request None) False s)"
    using HandleFencingRequest_crashes_iff [OF r yaml_ok_sample d, of in_order False] a
      chooseFencingConfig_assigned [OF a, of quiet "sub in_order 0"] by auto
  moreover have "\<not> panics (HandleFencingRequest quiet in_order (assigned_request None) True s)"
    using HandleFencingRequest_crashes_iff [OF r yaml_ok_sample d, of in_order True] by simp
  ultimately show ?thesis using r by blast
qed

theorem config_update_window_witness:
  "\<exists>s s1 s2. HandleConfigMap_begin good_map False s = (False, s1) \<and>
     HandleConfigMap sample_yaml in_order good_map False s = (None, s2) \<and>
     \<not> panics (HandleFencingRequest quiet in_order (assigned_request None) False (s :: unit opstate)) \<and>
     panics (HandleFencingRequest quiet in_order (assigned_request None) False s1)"
proof -
  obtain s where r: "reach quiet (\<lambda>v. []) sample_yaml [(EConfigMap good_map, False)] (Returned () s)"
    and c: "fencingConfigs s = [(''all'', Some (config_of ''all'' good_gmap))]"
    using reach_good_cache by blast
  have ms: "Methods (config_of n good_gmap) \<noteq> []" for n
    by (simp add: config_of_def good_gmap_def subs_at_def value_at_def m_index_def NewConfigFromMap_def)
  have m: "None \<notin> snd ` set (fencingConfigs s)" "map_of (fencingConfigs s) (cm_Name good_map) \<noteq> None"
    "map_of (entries (Data good_map)) ''fencing-config'' = Some ''good''"
    by (simp_all add: c good_map_def)
  have all: "\<forall>n k. (n, Some k) \<in> set (fencingConfigs s) \<longrightarrow> Methods k \<noteq> []"
    using ms by (simp add: c)
  have q: "FencingRequestStatus.Config (Status (assigned_request None)) \<in> {None, Some (cm_Name good_map)}"
    by (simp add: assigned_request_def good_map_def)
  have d: "deliverable (EFencingRequest (assigned_request None))"
    by (simp add: inactive_def assigned_request_def sample_defs)
  show ?thesis
    using config_update_window [OF r yaml_ok_sample m(1) all m(2,3) sample_yaml_good ms q
        sample_open(1) d] by blast
qed

end
