(* ===== verification/Field_Selectors.thy ===== *)
theory Field_Selectors
  imports Workflow Handler_Props
begin

section \<open>Field selectors on fencing requests\<close>

text \<open>
  \<open>listFencingRequests\<close> of \<open>pkg/stub/handler.go\<close> selects the requests of a node by the field
  \<open>target\<close>. Of a custom resource the API server can only select the fields \<open>metadata.name\<close> and
  \<open>metadata.namespace\<close>; a selector with another field is refused, or selects nothing, so that the
  query has no items. This theory follows what that makes of the whole operator: no request is
  found again, so none is cancelled, none is recognised as a duplicate, and no job completes one.
\<close>

subsection \<open>The server's rule\<close>

definition field_keys :: "string \<Rightarrow> string list" where
  "field_keys sel = map (takeWhile (\<lambda>c. c \<noteq> CHR ''='')) (split_on CHR '','' sel)"

definition metadata_fields_only :: "'w api \<Rightarrow> bool" where
  "metadata_fields_only K \<longleftrightarrow> (\<forall>ns sel w.
     (\<exists>k \<in> set (field_keys sel). k \<notin> {''metadata.name'', ''metadata.namespace''}) \<longrightarrow>
     snd (fst (list_requests K ns sel w)) = [])"

lemma target_field: "''target'' \<in> set (field_keys (''target='' @ s))"
  using split_on_not_Nil [of "CHR '',''" s]
  by (cases "split_on CHR '','' s") (simp_all add: field_keys_def)

text \<open>What follows needs only its consequence: no query of the operator finds a request.\<close>

definition finds_no_requests :: "'w api \<Rightarrow> bool" where
  "finds_no_requests K \<longleftrightarrow> (\<forall>node n s. snd (fst (listFencingRequests K node n s)) = [])"

lemma metadata_finds_none:
  assumes "metadata_fields_only K"
  shows "finds_no_requests K"
proof -
  have "snd (fst (list_requests K ns (''target='' @ t) w)) = []" for ns t w
    using assms target_field [of t] unfolding metadata_fields_only_def by fastforce
  from this [of all_namespaces] show ?thesis
    by (simp add: finds_no_requests_def listFencingRequests_def query_List_requests_def perform_def
        split_beta Let_def)
qed

lemma requests_for_blind: "finds_no_requests K \<Longrightarrow> requests_for K node s = []"
  by (simp add: requests_for_def finds_no_requests_def)

subsection \<open>Calls of whole runs\<close>

text \<open>
  The contract that carries a property \<open>P\<close> of calls from the parts of the handlers to whole runs:
  reading satisfies it, and so do all calls of the creation and the cancellation of requests and
  of the handlers of jobs and of requests.
\<close>

locale run_contract =
  fixes K :: "'w api" and getenv :: "string \<Rightarrow> string" and P :: "call \<Rightarrow> bool"
  assumes on_read: "is_read c \<Longrightarrow> P c"
    and on_create: "logs P s (snd (CreateFencingRequest K getenv node cause s))"
    and on_cancel: "logs P s (snd (CancelFencingRequests K node [] s))"
    and on_job: "logs P s (final_state (HandleJob K \<rho> job deleted s))"
    and on_request: "logs P s (final_state (HandleFencingRequest K \<rho> req deleted s))"
begin

lemma on_reads: "reads s t \<Longrightarrow> logs P s t"
  by (erule logs_mono [OF only_logs]) (rule on_read)

lemma on_conditions: "logs P s (condition_loop K getenv node cs s)"
proof (induction cs arbitrary: s)
  case (Cons c cs)
  have "logs P s (condition_loop K getenv node cs (snd (CreateFencingRequest K getenv node cause
      (snd (isNodeDirty K node c s)))))" for cause
    by (rule logs_trans [OF on_reads [OF isNodeDirty_calls [THEN conjunct2]]],
        rule logs_trans [OF on_create], rule Cons.IH)
  moreover have "logs P s (condition_loop K getenv node cs (snd (CancelFencingRequests K node [] s)))"
    by (rule logs_trans [OF on_cancel], rule Cons.IH)
  ultimately show ?case using Cons.IH isNodeDirty_calls [of K node c s]
    by (simp add: split_beta Let_def)
qed simp

lemma on_event: "logs P s (snd (HandleEvent K getenv e deleted s))"
proof -
  have "logs P s (snd (getNode K h s))" for h by (rule on_reads) simp
  then show ?thesis
    using logs_trans [OF _ on_create]
    by (auto simp: HandleEvent_def split_beta Let_def split: option.split)
qed

lemma on_Handle: "list_all P (new_calls s (final_state (Handle K getenv yaml \<rho> obj deleted s)))"
proof -
  have "logs P s (final_state (and_then (HandleJob K \<rho> j deleted s) (\<lambda>err s1. Returned None s1)))" for j
    by (rule logs_and_then [OF on_job]) simp
  moreover have "logs P s (final_state (and_then (HandleFencingRequest K \<rho> r deleted s)
      (\<lambda>(err, _) s1. Returned None s1)))" for r
    by (rule logs_and_then [OF on_request]) (simp add: split_beta)
  moreover have "logs P s (snd (HandleNode K getenv n deleted s))" for n
    by (simp add: HandleNode_def on_cancel on_conditions)
  ultimately have "logs P s (final_state (Handle K getenv yaml \<rho> obj deleted s))"
    using on_event by (cases obj) (auto simp: Handle_def logs_def HandleConfigMap_calls)
  then show ?thesis by (rule logs_new_calls)
qed

lemma on_reach: "reach K getenv yaml evs x \<Longrightarrow> list_all P (calls (final_state x))"
  by (induction rule: reach.induct) (simp_all add: calls_Handle on_Handle)

end

subsection \<open>What no call does\<close>

fun unnoticed :: "call \<Rightarrow> bool" where
  "unnoticed (DeleteRequest r) = False"
| "unnoticed (UpdateRequest r) = gives_up r"
| "unnoticed c = True"

lemma unnoticed_kinds: "is_read c \<Longrightarrow> unnoticed c" "good_update c \<Longrightarrow> for_request c \<Longrightarrow> unnoticed c"
  by (cases c; simp)+

lemma reads_unnoticed: "reads s t \<Longrightarrow> only unnoticed s t"
  by (erule only_mono) (rule unnoticed_kinds(1))

lemma unnoticed_create: "only unnoticed s (snd (CreateFencingRequest K getenv node cause s))"
  using CreateFencingRequest_calls [of s K getenv node cause] unnoticed_kinds(1)
  by (auto simp: creates_unless_def only_def list_all_iff split: if_splits)

lemma unnoticed_cancel:
  "finds_no_requests K \<Longrightarrow> only unnoticed s (snd (CancelFencingRequests K node [] s))"
  using CancelFencingRequests_calls [of s K node] by (simp add: only_def requests_for_blind)

lemma HandleJob_blind:
  assumes "finds_no_requests K"
  shows "reads s (final_state (HandleJob K \<rho> job deleted s))"
proof (cases "OwnerReferences (j_ObjectMeta job)")
  case Nil
  then show ?thesis by (simp add: HandleJob_def)
next
  case (Cons ow os)
  let ?target = "case map_of (entries (Labels (j_ObjectMeta job))) ''target'' of
    None \<Rightarrow> [] | Some t \<Rightarrow> t"
  obtain np err s1 where n: "getNode K ?target s = ((np, err), s1)" by (metis surj_pair)
  have r1: "reads s s1" using reads_queries(1) [of s K ?target] n by simp
  show ?thesis
  proof (cases np)
    case None
    then show ?thesis using r1 by (simp add: HandleJob_def Cons n)
  next
    case (Some node)
    obtain e qs s2 where q: "listFencingRequests K node (or_Name ow) s1 = ((e, qs), s2)"
      by (metis surj_pair)
    have "qs = []" using assms q unfolding finds_no_requests_def by (metis fst_conv snd_conv)
    then show ?thesis
      using only_trans [OF r1 reads_queries(2) [of s1 K node "or_Name ow"]] q
      by (simp add: HandleJob_def Cons n Some)
  qed
qed

lemma unnoticed_request: "logs unnoticed s (final_state (HandleFencingRequest K \<rho> req deleted s))"
proof -
  let ?t = "final_state (HandleFencingRequest K \<rho> req deleted s)"
  have d: "does K for_request s ?t" by (rule for_request_HandleFencingRequest)
  then have "list_all good_update (new_calls s ?t)" "list_all for_request (new_calls s ?t)"
    using logs_new_calls [OF good_HandleFencingRequest] by (simp_all add: does_def)
  then have "list_all unnoticed (new_calls s ?t)"
    using unnoticed_kinds(2) by (auto simp: list_all_iff)
  then show ?thesis
    using calls_evolves [OF does_evolves [OF d]] unfolding logs_def by blast
qed

interpretation unnoticed_runs: run_contract K getenv "\<lambda>c. finds_no_requests K \<longrightarrow> unnoticed c"
  for K :: "'w api" and getenv
proof unfold_locales
  let ?P = "\<lambda>c. finds_no_requests K \<longrightarrow> unnoticed c"
  note weaken = logs_mono [where P = unnoticed]
  fix s :: "'w opstate" and c node cause \<rho> job req deleted
  show "is_read c \<Longrightarrow> ?P c" by (simp add: unnoticed_kinds)
  show "logs ?P s (snd (CreateFencingRequest K getenv node cause s))"
    by (rule weaken [OF only_logs [OF unnoticed_create]]) simp
  show "logs ?P s (snd (CancelFencingRequests K node [] s))"
    using weaken [OF only_logs [OF unnoticed_cancel]]
      logs_mono [OF only_logs [OF for_node_cancel], of "\<lambda>c. True"]
    by (cases "finds_no_requests K") simp_all
  show "logs ?P s (final_state (HandleJob K \<rho> job deleted s))"
    using weaken [OF only_logs [OF reads_unnoticed [OF HandleJob_blind]]]
      logs_mono [OF does_logs [OF for_request_HandleJob], of "\<lambda>c. True"]
    by (cases "finds_no_requests K") simp_all
  show "logs ?P s (final_state (HandleFencingRequest K \<rho> req deleted s))"
    by (rule weaken [OF unnoticed_request]) simp
qed

lemma reach_unnoticed:
  assumes "reach K getenv yaml evs x" and "finds_no_requests K"
  shows "list_all unnoticed (calls (final_state x))"
  using unnoticed_runs.on_reach [OF assms(1)] assms(2) by (simp add: list_all_iff)

subsection \<open>How many requests are created\<close>

fun creation :: "call \<Rightarrow> bool" where
  "creation (CreateRequest r) = True"
| "creation c = False"

definition creations :: "call list \<Rightarrow> nat" where
  "creations cs = length (filter creation cs)"

text \<open>A node reports to be lost once per \<open>Ready\<close> condition that is \<open>Unknown\<close>.\<close>

definition lost :: "NodeCondition \<Rightarrow> bool" where
  "lost c \<longleftrightarrow> cond_Type c = ''Ready'' \<and> cond_Status c = ''Unknown''"

fun lost_reports :: "event_object \<times> bool \<Rightarrow> nat" where
  "lost_reports (ENode node, deleted) =
     (if deleted then 0 else length (filter lost (Conditions node)))"
| "lost_reports _ = 0"

text \<open>
  A warning is an event of type \<open>Warning\<close> that comes from one of the five sources that report
  problems of nodes, deleted or not.
\<close>

fun warnings :: "event_object \<times> bool \<Rightarrow> nat" where
  "warnings (EEvent e, deleted) =
     (if ev_Type e = ''Warning'' \<and> Component e \<in> {''abrt-notification'', ''abrt-adaptor'',
           ''docker-monitor'', ''kernel-monitor'', ''kernel''} then 1 else 0)"
| "warnings _ = 0"

lemma creations_append [simp]: "creations (cs @ ds) = creations cs + creations ds"
  by (simp add: creations_def)

lemma creations_Nil [simp]: "creations [] = 0"
  by (simp add: creations_def)

lemma creations_none: "list_all (\<lambda>c. \<not> creation c) cs \<Longrightarrow> creations cs = 0"
  by (auto simp: creations_def list_all_iff filter_empty_conv)

lemma not_creation: "is_read c \<Longrightarrow> \<not> creation c" "for_request c \<Longrightarrow> \<not> creation c"
  by (cases c; simp)+

lemma reads_creations: "reads s t \<Longrightarrow> creations (new_calls s t) = 0"
  by (rule creations_none) (auto simp: only_def list_all_iff not_creation)

lemma for_request_creations: "does K for_request s t \<Longrightarrow> creations (new_calls s t) = 0"
  by (rule creations_none) (auto simp: does_def list_all_iff not_creation)

lemma creations_trans:
  "ext s t \<Longrightarrow> ext t u \<Longrightarrow> creations (new_calls s u) = creations (new_calls s t) + creations (new_calls t u)"
  using new_calls_trans [of s t u] by simp

lemma creations_create:
  assumes "finds_no_requests K"
  shows "creations (new_calls s (snd (CreateFencingRequest K getenv node cause s))) = 1"
proof -
  obtain rs r where "new_calls s (snd (CreateFencingRequest K getenv node cause s)) = rs @ [CreateRequest r]"
    "list_all is_read rs"
    using CreateFencingRequest_calls [of s K getenv node cause]
    by (auto simp: creates_unless_def requests_for_blind [OF assms])
  moreover have "creations rs = 0"
    using \<open>list_all is_read rs\<close> by (intro creations_none) (auto simp: list_all_iff not_creation)
  ultimately show ?thesis by (simp add: creations_def)
qed

lemma creations_cancel:
  "finds_no_requests K \<Longrightarrow> creations (new_calls s (snd (CancelFencingRequests K node [] s))) = 0"
  using CancelFencingRequests_calls [of s K node] by (simp add: requests_for_blind creations_def)

lemma creations_conditions:
  assumes "finds_no_requests K"
  shows "creations (new_calls s (condition_loop K getenv node cs s)) = length (filter lost cs)"
proof (induction cs arbitrary: s)
  case Nil
  show ?case by (simp add: new_calls_def creations_def)
next
  case (Cons c cs)
  let ?d = "snd (isNodeDirty K node c s)"
  let ?t = "snd (CreateFencingRequest K getenv node (condition_text c) ?d)"
  have d: "fst (isNodeDirty K node c s)" "reads s ?d" using isNodeDirty_calls by blast+
  have e: "ext t (condition_loop K getenv node cs t)" for t by (rule only_ext [OF for_node_conditions])
  have t: "ext ?d ?t" using CreateFencingRequest_calls by blast
  have "creations (new_calls s (condition_loop K getenv node cs ?t)) = Suc (length (filter lost cs))"
    using Cons.IH [of ?t] creations_create [OF assms, of ?d getenv node "condition_text c"]
    by (simp add: creations_trans [OF ext_trans [OF only_ext [OF d(2)] t] e]
        creations_trans [OF only_ext [OF d(2)] t] reads_creations [OF d(2)])
  moreover have "creations (new_calls s (condition_loop K getenv node cs
      (snd (CancelFencingRequests K node [] s)))) = length (filter lost cs)"
    using Cons.IH creations_cancel [OF assms, of s node]
    by (simp add: creations_trans [OF CancelFencingRequests_calls [THEN conjunct1] e])
  ultimately show ?case using Cons.IH d(1) by (simp add: lost_def [of c] split_beta Let_def)
qed

lemma creations_event:
  "creations (new_calls s (snd (HandleEvent K getenv e deleted s))) \<le> warnings (EEvent e, deleted)"
proof (cases "warnings (EEvent e, deleted) = 0")
  case True
  then have "snd (HandleEvent K getenv e deleted s) = s"
    by (auto simp: HandleEvent_def supportedNodeProblemSources_def split: if_splits)
  then show ?thesis by simp
next
  case False
  then have one: "warnings (EEvent e, deleted) = 1" by (simp split: if_splits)
  have c: "creations (new_calls t (snd (CreateFencingRequest K getenv node cause t))) \<le> 1" for node cause t
  proof -
    obtain rs ws where w: "new_calls t (snd (CreateFencingRequest K getenv node cause t)) = rs @ ws"
      "list_all is_read rs" and ws: "ws = [] \<or> (\<exists>r. ws = [CreateRequest r])"
      using CreateFencingRequest_calls [of t K getenv node cause]
      unfolding creates_unless_def by metis
    have "creations rs = 0"
      using w(2) by (intro creations_none) (auto simp: list_all_iff not_creation)
    moreover have "creations ws \<le> 1" using ws by (auto simp: creations_def)
    ultimately show ?thesis using w(1) by simp
  qed
  obtain np err s1 where g: "getNode K (Host e) s = ((np, err), s1)" by (metis surj_pair)
  have r: "reads s s1" using reads_queries(1) [of s K "Host e"] g by simp
  show ?thesis
    using c [of s1] reads_creations [OF r]
      creations_trans [OF only_ext [OF r] CreateFencingRequest_calls [THEN conjunct1]]
    unfolding one by (auto simp: HandleEvent_def g creations_def new_calls_def split: option.split)
qed

lemma Handle_creations:
  assumes "finds_no_requests K"
  shows "lost_reports (obj, deleted) \<le>
      creations (new_calls s (final_state (Handle K getenv yaml \<rho> obj deleted s))) \<and>
    creations (new_calls s (final_state (Handle K getenv yaml \<rho> obj deleted s))) \<le>
      lost_reports (obj, deleted) + warnings (obj, deleted)"
proof -
  have same: "creations (new_calls s t) = 0" if "calls t = calls s" for t
    using that by (simp add: new_calls_def creations_def)
  show ?thesis
    using for_request_creations [OF does_Handle_job] for_request_creations [OF does_Handle_request] same
      creations_event [of s K getenv _ deleted]
    by (cases obj) (simp_all add: Handle_def HandleNode_def HandleConfigMap_calls
        creations_cancel [OF assms(1)] creations_conditions [OF assms(1)] del: warnings.simps(1))
qed

lemma reach_creations:
  assumes "reach K getenv yaml evs x" and "finds_no_requests K"
  shows "sum_list (map lost_reports evs) \<le> creations (calls (final_state x)) \<and>
    creations (calls (final_state x)) \<le> sum_list (map lost_reports evs) + sum_list (map warnings evs)"
  using assms(1)
proof (induction rule: reach.induct)
  case (handle evs s obj deleted \<rho>)
  from handle.IH Handle_creations [OF assms(2), of obj deleted s getenv yaml \<rho>] show ?case
    by (auto simp: calls_Handle)
qed (simp_all add: creations_def)

subsection \<open>Properties\<close>

text \<open>C15: With a server that selects custom resources by their two metadata fields only, the
  operator never finds a request again: in any run, no request is ever deleted, not even for a
  node that returned, and no update ever completes a request but to say that it was given up
  (\<open>NoConfig\<close> or \<open>GivingUp\<close>); the job that fences the node never completes its request.\<close>

theorem no_request_found_again:
  assumes "reach K getenv yaml evs x" and "metadata_fields_only K"
  shows "\<forall>r. DeleteRequest r \<notin> set (calls (final_state x)) \<and>
    (UpdateRequest r \<in> set (calls (final_state x)) \<and> Complete (Status r) \<longrightarrow>
       Result (Status r) \<in> {''NoConfig'', ''GivingUp''})"
  using reach_unnoticed [OF assms(1) metadata_finds_none [OF assms(2)]] by (fastforce simp: list_all_iff gives_up_def)

text \<open>C28: With such a server every report that a node is lost creates a further request for it:
  in any run the number of requests created is the number of lost reports, and at most one more
  for each warning, that is, for each event of type \<open>Warning\<close> from one of the five supported
  sources; no other event, whatever its type and source, creates any. The check for existing
  requests prevents none.\<close>

theorem every_lost_report_creates:
  assumes "reach K getenv yaml evs x" and "metadata_fields_only K"
  shows "sum_list (map lost_reports evs) \<le> creations (calls (final_state x)) \<and>
    creations (calls (final_state x)) \<le> sum_list (map lost_reports evs) + sum_list (map warnings evs)"
  using reach_creations [OF assms(1) metadata_finds_none [OF assms(2)]] .

lemma quiet_fields: "metadata_fields_only quiet"
  by (simp add: metadata_fields_only_def quiet_def quiet_api_def)

text \<open>Two reports of the same lost node.\<close>

lemma reach_lost_twice:
  "\<exists>s. reach quiet (\<lambda>v. []) sample_yaml
     [(ENode (lost_node ''Unknown''), False), (ENode (lost_node ''Unknown''), False)] (Returned () s)"
proof -
  let ?e = "(ENode (lost_node ''Unknown''), False)"
  have step: "\<exists>t. reach quiet (\<lambda>v. []) sample_yaml (evs @ [?e]) (Returned () t)"
    if r: "reach quiet (\<lambda>v. []) sample_yaml evs (Returned () s)" for evs and s :: "unit opstate"
    using reach.handle [OF r, of "ENode (lost_node ''Unknown'')" False in_order]
    by (auto simp: Handle_def)
  obtain t where "reach quiet (\<lambda>v. []) sample_yaml ([] @ [?e]) (Returned () (t::unit opstate))"
    using step [OF reach.start] by blast
  from step [OF this] show ?thesis by simp
qed

theorem no_request_found_again_witness:
  "\<exists>s. reach quiet (\<lambda>v. []) sample_yaml
     [(ENode (lost_node ''Unknown''), False), (ENode (lost_node ''Unknown''), False)] (Returned () s) \<and>
   (\<forall>r. DeleteRequest r \<notin> set (calls s))"
proof -
  obtain s where r: "reach quiet (\<lambda>v. []) sample_yaml
     [(ENode (lost_node ''Unknown''), False), (ENode (lost_node ''Unknown''), False)] (Returned () s)"
    using reach_lost_twice by blast
  from no_request_found_again [OF r quiet_fields] r show ?thesis by auto
qed

theorem every_lost_report_creates_witness:
  "\<exists>s. reach quiet (\<lambda>v. []) sample_yaml
     [(ENode (lost_node ''Unknown''), False), (ENode (lost_node ''Unknown''), False)] (Returned () s) \<and>
   creations (calls s) = 2"
proof -
  obtain s where r: "reach quiet (\<lambda>v. []) sample_yaml
     [(ENode (lost_node ''Unknown''), False), (ENode (lost_node ''Unknown''), False)] (Returned () s)"
    using reach_lost_twice by blast
  from every_lost_report_creates [OF r quiet_fields] r show ?thesis
    by (auto simp: lost_node_def lost_def)
qed

end
