(* ===== verification/Store.thy ===== *)
theory Store
  imports Types
begin

section \<open>A store of pointers and the contract of a deep copy\<close>

text \<open>
  The generated deep copies (\<open>pkg/apis/fencing/v1alpha1/zz_generated.deepcopy.go\<close>) are about
  sharing, so this theory keeps Go's pointers: a store is the list of the cells allocated so
  far, an address an index into it, and the structs of \<open>types.go\<close> hold addresses where the
  source has pointers, maps and slices (\<open>None\<close> is \<open>nil\<close>). Metadata and \<open>v1.Container\<close> come with
  deep copies of their own in the API machinery and are values here.
\<close>

subsection \<open>Structs with pointers\<close>

type_synonym addr = nat

record pDynamic =
  pd_Field :: string
  pd_Default :: string
  pd_Values :: "addr option"

record pMechanism =
  pm_Container :: "addr option"
  pm_ArgumentFormat :: string
  pm_PassTargetAs :: string
  pm_TimeoutSeconds :: "addr option"
  pm_Config :: "addr option"
  pm_DynamicConfig :: "addr option"
  pm_Secrets :: "addr option"

record pMethod =
  pt_Name :: string
  pt_StopOnSuccess :: bool
  pt_RequireAfterSeconds :: "addr option"
  pt_Retries :: "32 word"
  pt_Mechanisms :: "addr option"

record pConfig =
  pc_TypeMeta :: TypeMeta
  pc_ObjectMeta :: ObjectMeta
  pc_NodeSelector :: "addr option"
  pc_Methods :: "addr option"

record pSpec =
  ps_Target :: string
  ps_Origin :: string
  ps_Operation :: string
  ps_PodList :: "addr option"
  ps_ValidAfter :: "64 word"

record pStatus =
  st_Complete :: bool
  st_Result :: string
  st_Config :: "addr option"
  st_ActiveMethod :: "addr option"
  st_ActiveJob :: "addr option"
  st_Updates :: "addr option"

record pRequest =
  pr_TypeMeta :: TypeMeta
  pr_ObjectMeta :: ObjectMeta
  pr_Spec :: pSpec
  pr_Status :: pStatus

text \<open>\<open>metav1.ListMeta\<close>, and the empty structs \<open>FencingSetStatus\<close> and \<open>FencingMethodStatus\<close>.\<close>

record ListMeta =
  SelfLink :: string
  ResourceVersion :: string
  Continue :: string

datatype FencingSetStatus = FencingSetStatus

datatype FencingMethodStatus = FencingMethodStatus

record pRequestList =
  pl_TypeMeta :: TypeMeta
  pl_ListMeta :: ListMeta
  pl_Items :: "addr option"

record pSet =
  px_TypeMeta :: TypeMeta
  px_ObjectMeta :: ObjectMeta
  px_Spec :: pConfig
  px_Status :: FencingSetStatus

record pSetList =
  pxl_TypeMeta :: TypeMeta
  pxl_ListMeta :: ListMeta
  pxl_Items :: "addr option"

subsection \<open>Cells\<close>

text \<open>
  One constructor per type that is allocated: strings and integers behind pointers, containers,
  maps, the arrays of slices, and the structs that \<open>new\<close> makes. A slice is the address of its
  array, which it covers as a whole.
\<close>

datatype cell =
    CString string
  | CInt32 "32 word"
  | CContainer Container
  | CMap strmap
  | CStrings "string list"
  | CUpdates "FencingRequestStatusUpdate list"
  | CDynamics "pDynamic list"
  | CMechanisms "pMechanism list"
  | CMethods "pMethod list"
  | CRequests "pRequest list"
  | CSets "pSet list"
  | CDynamic pDynamic
  | CMechanism pMechanism
  | CMethod pMethod
  | CConfig pConfig
  | CSpec pSpec
  | CStatus pStatus
  | CUpdate FencingRequestStatusUpdate
  | CRequest pRequest
  | CRequestList pRequestList
  | CSet pSet
  | CSetList pSetList
  | CSetStatus FencingSetStatus
  | CMethodStatus FencingMethodStatus

type_synonym heap = "cell list"

definition look :: "heap \<Rightarrow> addr \<Rightarrow> cell option" where
  "look h a = (if a < length h then Some (h ! a) else None)"

definition alloc :: "cell \<Rightarrow> heap \<Rightarrow> addr \<times> heap" where
  "alloc c h = (length h, h @ [c])"

text \<open>Go's maps have distinct keys: in every map cell they are sorted.\<close>

definition heap_ok :: "heap \<Rightarrow> bool" where
  "heap_ok h \<longleftrightarrow> (\<forall>m. CMap m \<in> set h \<longrightarrow> m_ok m)"

definition agree :: "addr set \<Rightarrow> heap \<Rightarrow> heap \<Rightarrow> bool" where
  "agree S h h' \<longleftrightarrow> (\<forall>a \<in> S. look h' a = look h a)"

lemma look_append [simp]: "a < length h \<Longrightarrow> look (h @ cs) a = look h a"
  by (simp add: look_def nth_append)

lemma look_last [simp]: "look (h @ c # cs) (length h) = Some c"
  by (simp add: look_def)

lemma look_update: "look (h[b := c]) a = (if a = b \<and> b < length h then Some c else look h a)"
  by (simp add: look_def)

lemma heap_ok_look: "heap_ok h \<Longrightarrow> look h a = Some (CMap m) \<Longrightarrow> m_ok m"
  unfolding heap_ok_def look_def by (metis nth_mem option.distinct(1) option.inject)

lemma heap_ok_append [simp]: "heap_ok (h @ cs) \<longleftrightarrow> heap_ok h \<and> heap_ok cs"
  by (auto simp: heap_ok_def)

lemma heap_ok_update: "heap_ok h \<Longrightarrow> (\<And>m. c = CMap m \<Longrightarrow> m_ok m) \<Longrightarrow> heap_ok (h[b := c])"
  unfolding heap_ok_def by (metis insert_iff set_update_subset_insert subset_iff)

lemma agree_append: "S \<subseteq> {..<length h} \<Longrightarrow> agree S h (h @ cs)"
  by (auto simp: agree_def)

lemma agree_update: "b \<notin> S \<Longrightarrow> agree S h (h[b := c])"
  by (auto simp: agree_def look_update)

lemma agree_trans: "agree S h h1 \<Longrightarrow> agree S h1 h2 \<Longrightarrow> agree S h h2"
  by (simp add: agree_def)

lemma agree_mono: "agree S h h' \<Longrightarrow> T \<subseteq> S \<Longrightarrow> agree T h h'"
  by (auto simp: agree_def)

subsection \<open>The contract\<close>

text \<open>
  A copier for things \<open>'e\<close> with addresses: \<open>val\<close> is the value a thing stands for in a store,
  \<open>foot\<close> the addresses it depends on, \<open>shared\<close> those a copy has in common with the original. A
  copy only allocates; its value is the original's; and but for \<open>shared\<close> its addresses are new.
\<close>

locale copier =
  fixes copy :: "chooser \<Rightarrow> 'e \<Rightarrow> heap \<Rightarrow> 'e \<times> heap"
    and val :: "heap \<Rightarrow> 'e \<Rightarrow> 'v"
    and foot :: "heap \<Rightarrow> 'e \<Rightarrow> addr set"
    and shared :: "heap \<Rightarrow> 'e \<Rightarrow> addr set"
  assumes frame: "agree (foot h x) h h' \<Longrightarrow>
      val h' x = val h x \<and> foot h' x = foot h x \<and> shared h' x = shared h x"
    and shared_foot: "shared h x \<subseteq> foot h x"
    and copies: "heap_ok h \<Longrightarrow> foot h x \<subseteq> {..<length h} \<Longrightarrow> copy \<rho> x h = (y, h') \<Longrightarrow>
      (\<exists>cs. h' = h @ cs) \<and> heap_ok h' \<and> val h' y = val h x \<and>
      foot h' y \<subseteq> shared h x \<union> {length h..<length h'}"
begin

lemma stable:
  "foot h x \<subseteq> {..<length h} \<Longrightarrow>
   val (h @ cs) x = val h x \<and> foot (h @ cs) x = foot h x \<and> shared (h @ cs) x = shared h x"
  by (rule frame [OF agree_append])

lemma in_range:
  assumes "heap_ok h" "foot h x \<subseteq> {..<length h}" "copy \<rho> x h = (y, h')"
  shows "foot h' y \<subseteq> {..<length h'}"
proof -
  have "length h \<le> length h'" "foot h' y \<subseteq> shared h x \<union> {length h..<length h'}"
    using copies [OF assms] by auto
  then show ?thesis using shared_foot [of h x] assms(2) by fastforce
qed

lemma meets:
  assumes "heap_ok h" "foot h x \<subseteq> {..<length h}" "copy \<rho> x h = (y, h')"
  shows "foot h' x \<inter> foot h' y \<subseteq> shared h x"
proof -
  obtain cs where cs: "h' = h @ cs" and new: "foot h' y \<subseteq> shared h x \<union> {length h..<length h'}"
    using copies [OF assms] by auto
  have "foot h' x = foot h x" unfolding cs using stable [OF assms(2)] by blast
  with new assms(2) show ?thesis by fastforce
qed

text \<open>Writing to an address of the copy that is not shared leaves the original as it was.\<close>

lemma independent:
  assumes "heap_ok h" "foot h x \<subseteq> {..<length h}" "copy \<rho> x h = (y, h')"
    and "a \<in> foot h' y" "a \<notin> shared h x"
  shows "val (h'[a := c]) x = val h x"
proof -
  obtain cs where cs: "h' = h @ cs" and a: "length h \<le> a"
    using copies [OF assms(1-3)] assms(4,5) by auto
  have "agree (foot h x) h (h'[a := c])"
    unfolding cs by (rule agree_trans [OF agree_append [OF assms(2)] agree_update]) (use a assms(2) in auto)
  then show ?thesis using frame by blast
qed

end

text \<open>A deep copy that keeps its promise: no address of the original is reachable from the copy.\<close>

locale separating = copier +
  assumes nothing_shared: "shared h x = {}"
begin

lemma disjoint:
  "heap_ok h \<Longrightarrow> foot h x \<subseteq> {..<length h} \<Longrightarrow> copy \<rho> x h = (y, h') \<Longrightarrow> foot h' x \<inter> foot h' y = {}"
  using meets nothing_shared by blast

lemma writes_apart:
  assumes "heap_ok h" "foot h x \<subseteq> {..<length h}" "copy \<rho> x h = (y, h')"
  shows "a \<in> foot h' y \<Longrightarrow> val (h'[a := c]) x = val h x"
    and "a \<in> foot h' x \<Longrightarrow> val (h'[a := c]) y = val h x"
proof -
  show "val (h'[a := c]) x = val h x" if "a \<in> foot h' y"
    by (rule independent [OF assms that]) (simp add: nothing_shared)
  show "val (h'[a := c]) y = val h x" if "a \<in> foot h' x"
  proof -
    have "a \<notin> foot h' y" using disjoint [OF assms] that by blast
    then have "val (h'[a := c]) y = val h' y" using frame [OF agree_update] by blast
    then show ?thesis using copies [OF assms] by simp
  qed
qed

end

subsection \<open>Pointers to cells without pointers\<close>

definition copy_leaf :: "(chooser \<Rightarrow> cell option \<Rightarrow> cell) \<Rightarrow> chooser \<Rightarrow> addr option \<Rightarrow> heap \<Rightarrow>
    addr option \<times> heap" where
  "copy_leaf dup \<rho> p h =
     (case p of
        None \<Rightarrow> (None, h)
      | Some a \<Rightarrow> (let (b, h') = alloc (dup \<rho> (look h a)) h in (Some b, h')))"

definition val_leaf :: "(cell option \<Rightarrow> 'v) \<Rightarrow> heap \<Rightarrow> addr option \<Rightarrow> 'v option" where
  "val_leaf get h p = map_option (\<lambda>a. get (look h a)) p"

definition foot_leaf :: "heap \<Rightarrow> addr option \<Rightarrow> addr set" where
  "foot_leaf h p = set_option p"

definition no_share :: "heap \<Rightarrow> 'e \<Rightarrow> addr set" where
  "no_share h x = {}"

lemma copier_leaf:
  assumes "\<And>\<rho> h a. heap_ok h \<Longrightarrow> get (Some (dup \<rho> (look h a))) = get (look h a)"
    and "\<And>\<rho> h a m. heap_ok h \<Longrightarrow> dup \<rho> (look h a) = CMap m \<Longrightarrow> m_ok m"
  shows "copier (copy_leaf dup) (val_leaf get) foot_leaf no_share"
proof unfold_locales
  fix h x h' assume "agree (foot_leaf h x) h h'"
  then show "val_leaf get h' x = val_leaf get h x \<and> foot_leaf h' x = foot_leaf h x \<and>
      no_share h' x = no_share h x"
    by (cases x) (auto simp: agree_def foot_leaf_def val_leaf_def no_share_def)
next
  fix h \<rho> x y h'
  assume h: "heap_ok h" "foot_leaf h x \<subseteq> {..<length h}" "copy_leaf dup \<rho> x h = (y, h')"
  show "(\<exists>cs. h' = h @ cs) \<and> heap_ok h' \<and> val_leaf get h' y = val_leaf get h x \<and>
      foot_leaf h' y \<subseteq> no_share h x \<union> {length h..<length h'}"
    using h assms(1) [OF h(1)] assms(2) [OF h(1)]
    by (cases x) (auto simp: copy_leaf_def val_leaf_def foot_leaf_def alloc_def heap_ok_def Let_def)
qed (simp add: no_share_def)

subsection \<open>Closure rules\<close>

text \<open>Two copies one after the other.\<close>

definition copy_pair where
  "copy_pair c1 c2 \<rho> xy h =
     (let (x', h1) = c1 \<rho> (fst xy) h; (y', h2) = c2 \<rho> (snd xy) h1 in ((x', y'), h2))"

definition val_pair where
  "val_pair v1 v2 h xy = (v1 h (fst xy), v2 h (snd xy))"

definition foot_pair where
  "foot_pair f1 f2 h xy = f1 h (fst xy) \<union> f2 h (snd xy)"

lemma copier_pair:
  assumes "copier c1 v1 f1 s1" and "copier c2 v2 f2 s2"
  shows "copier (copy_pair c1 c2) (val_pair v1 v2) (foot_pair f1 f2) (foot_pair s1 s2)"
proof -
  note a = copier.frame [OF assms(1)] copier.frame [OF assms(2)]
    and sf = copier.shared_foot [OF assms(1)] copier.shared_foot [OF assms(2)]
  show ?thesis
  proof unfold_locales
    fix h xy h' assume ag: "agree (foot_pair f1 f2 h xy) h h'"
    have "agree (f1 h (fst xy)) h h'" "agree (f2 h (snd xy)) h h'"
      using ag by (auto simp: foot_pair_def elim: agree_mono)
    from a(1) [OF this(1)] a(2) [OF this(2)] show "val_pair v1 v2 h' xy = val_pair v1 v2 h xy \<and>
        foot_pair f1 f2 h' xy = foot_pair f1 f2 h xy \<and> foot_pair s1 s2 h' xy = foot_pair s1 s2 h xy"
      by (simp add: val_pair_def foot_pair_def)
  next
    fix h xy show "foot_pair s1 s2 h xy \<subseteq> foot_pair f1 f2 h xy"
      unfolding foot_pair_def using sf by blast
  next
    fix h \<rho> xy z h'
    assume h: "heap_ok h" "foot_pair f1 f2 h xy \<subseteq> {..<length h}" "copy_pair c1 c2 \<rho> xy h = (z, h')"
    obtain x y where xy: "xy = (x, y)" by (cases xy)
    obtain x' h1 y' where c: "c1 \<rho> x h = (x', h1)" "c2 \<rho> y h1 = (y', h')" and z: "z = (x', y')"
      using h(3) by (auto simp: copy_pair_def xy split_beta Let_def prod_eq_iff)
    have r: "f1 h x \<subseteq> {..<length h}" "f2 h y \<subseteq> {..<length h}"
      using h(2) by (auto simp: foot_pair_def xy)
    obtain cs1 where 1: "h1 = h @ cs1" "heap_ok h1" "v1 h1 x' = v1 h x"
      "f1 h1 x' \<subseteq> s1 h x \<union> {length h..<length h1}"
      using copier.copies [OF assms(1), OF h(1) r(1) c(1)] by blast
    have y: "v2 h1 y = v2 h y" "f2 h1 y = f2 h y" "s2 h1 y = s2 h y"
      using copier.stable [OF assms(2), OF r(2)] 1(1) by simp_all
    have r2: "f2 h1 y \<subseteq> {..<length h1}" using y(2) r(2) 1(1) by auto
    obtain cs2 where 2: "h' = h1 @ cs2" "heap_ok h'" "v2 h' y' = v2 h1 y"
      "f2 h' y' \<subseteq> s2 h1 y \<union> {length h1..<length h'}"
      using copier.copies [OF assms(2), OF 1(2) r2 c(2)] by blast
    have x': "v1 h' x' = v1 h1 x'" "f1 h' x' = f1 h1 x'"
      using copier.stable [OF assms(1) copier.in_range [OF assms(1), OF h(1) r(1) c(1)]] 2(1) by simp_all
    show "(\<exists>cs. h' = h @ cs) \<and> heap_ok h' \<and> val_pair v1 v2 h' z = val_pair v1 v2 h xy \<and>
        foot_pair f1 f2 h' z \<subseteq> foot_pair s1 s2 h xy \<union> {length h..<length h'}"
      using 1 2 x' y by (auto simp: xy z val_pair_def foot_pair_def)
  qed
qed

text \<open>
  A struct whose fields with addresses are the tuple \<open>dest\<close>, replaced by \<open>build\<close>; the other
  fields are assigned as they are.
\<close>

definition copy_struct where
  "copy_struct dest build c \<rho> x h = (let (t, h') = c \<rho> (dest x) h in (build x t, h'))"

lemma copier_struct:
  assumes "copier c v f s"
    and "\<And>x t. dest (build x t) = t" and "\<And>x t u. V (build x t) u = V x u"
  shows "copier (copy_struct dest build c) (\<lambda>h x. V x (v h (dest x))) (\<lambda>h x. f h (dest x))
    (\<lambda>h x. s h (dest x))"
proof unfold_locales
  fix h x h' assume "agree (f h (dest x)) h h'"
  from copier.frame [OF assms(1), OF this]
  show "V x (v h' (dest x)) = V x (v h (dest x)) \<and> f h' (dest x) = f h (dest x) \<and>
      s h' (dest x) = s h (dest x)" by simp
next
  fix h x show "s h (dest x) \<subseteq> f h (dest x)" by (rule copier.shared_foot [OF assms(1)])
next
  fix h \<rho> x y h'
  assume h: "heap_ok h" "f h (dest x) \<subseteq> {..<length h}" "copy_struct dest build c \<rho> x h = (y, h')"
  then obtain t where "c \<rho> (dest x) h = (t, h')" "y = build x t"
    by (auto simp: copy_struct_def split_beta Let_def prod_eq_iff)
  with copier.copies [OF assms(1), OF h(1,2)] assms(2,3)
  show "(\<exists>cs. h' = h @ cs) \<and> heap_ok h' \<and> V y (v h' (dest y)) = V x (v h (dest x)) \<and>
      f h' (dest y) \<subseteq> s h (dest x) \<union> {length h..<length h'}" by simp
qed

lemma copier_reindex: "copier c v f s \<Longrightarrow> copier (\<lambda>\<rho>. c (sub \<rho> i)) v f s"
  by (simp add: copier_def)

text \<open>
  A slice of structs: an array of zero values is made, then each element is copied and written to
  its place in the array.
\<close>

fun fill :: "(chooser \<Rightarrow> 'e \<Rightarrow> heap \<Rightarrow> 'e \<times> heap) \<Rightarrow> ('e list \<Rightarrow> cell) \<Rightarrow> (cell option \<Rightarrow> 'e list) \<Rightarrow>
    chooser \<Rightarrow> addr \<Rightarrow> nat \<Rightarrow> 'e list \<Rightarrow> heap \<Rightarrow> heap" where
  "fill c mk get \<rho> b i [] h = h"
| "fill c mk get \<rho> b i (x # xs) h =
     (let (y, h1) = c (sub \<rho> i) x h
      in fill c mk get \<rho> b (Suc i) xs (h1[b := mk ((get (look h1 b))[i := y])]))"

definition copy_array :: "(chooser \<Rightarrow> 'e \<Rightarrow> heap \<Rightarrow> 'e \<times> heap) \<Rightarrow> ('e list \<Rightarrow> cell) \<Rightarrow>
    (cell option \<Rightarrow> 'e list) \<Rightarrow> 'e \<Rightarrow> chooser \<Rightarrow> addr option \<Rightarrow> heap \<Rightarrow> addr option \<times> heap" where
  "copy_array c mk get zero \<rho> p h =
     (case p of
        None \<Rightarrow> (None, h)
      | Some a \<Rightarrow>
          (let xs = get (look h a);
               (b, h1) = alloc (mk (replicate (length xs) zero)) h
           in (Some b, fill c mk get \<rho> b 0 xs h1)))"

definition val_array :: "(cell option \<Rightarrow> 'e list) \<Rightarrow> (heap \<Rightarrow> 'e \<Rightarrow> 'v) \<Rightarrow> heap \<Rightarrow> addr option \<Rightarrow>
    'v list option" where
  "val_array get v h p = map_option (\<lambda>a. map (v h) (get (look h a))) p"

definition foot_array :: "(cell option \<Rightarrow> 'e list) \<Rightarrow> (heap \<Rightarrow> 'e \<Rightarrow> addr set) \<Rightarrow> heap \<Rightarrow> addr option \<Rightarrow>
    addr set" where
  "foot_array get f h p =
     (case p of None \<Rightarrow> {} | Some a \<Rightarrow> insert a (\<Union>x \<in> set (get (look h a)). f h x))"

definition shared_array :: "(cell option \<Rightarrow> 'e list) \<Rightarrow> (heap \<Rightarrow> 'e \<Rightarrow> addr set) \<Rightarrow> heap \<Rightarrow>
    addr option \<Rightarrow> addr set" where
  "shared_array get s h p =
     (case p of None \<Rightarrow> {} | Some a \<Rightarrow> (\<Union>x \<in> set (get (look h a)). s h x))"

lemma fill_copies:
  assumes cp: "copier c v f s" and get: "\<And>xs. get (Some (mk xs)) = xs" and mk: "\<And>xs m. mk xs \<noteq> CMap m"
  shows "heap_ok h \<Longrightarrow> look h b = Some (mk ys) \<Longrightarrow> length ys = i + length xs \<Longrightarrow>
    \<forall>x \<in> set xs. f h x \<subseteq> {..<length h} - {b} \<Longrightarrow> h' = fill c mk get \<rho> b i xs h \<Longrightarrow>
    \<exists>es cs. h' = h[b := mk (take i ys @ es)] @ cs \<and> heap_ok h' \<and> map (v h') es = map (v h) xs \<and>
      (\<Union>e \<in> set es. f h' e) \<subseteq> (\<Union>x \<in> set xs. s h x) \<union> {length h..<length h'}"
proof (induction xs arbitrary: h i ys)
  case Nil
  then have "h[b := mk ys] = h" by (metis list_update_id look_def option.distinct(1) option.inject)
  with Nil show ?case by auto
next
  case (Cons x xs)
  have b: "b < length h" using Cons.prems(2) by (auto simp: look_def split: if_splits)
  obtain y h1 where c: "c (sub \<rho> i) x h = (y, h1)" by fastforce
  have x: "f h x \<subseteq> {..<length h}" "b \<notin> f h x" using Cons.prems(4) by auto
  obtain cs1 where 1: "h1 = h @ cs1" "heap_ok h1" "v h1 y = v h x"
    "f h1 y \<subseteq> s h x \<union> {length h..<length h1}"
    using copier.copies [OF cp, OF Cons.prems(1) x(1) c] by blast
  define h2 where "h2 = h1[b := mk (ys[i := y])]"
  have h2: "heap_ok h2" "look h2 b = Some (mk (ys[i := y]))" "length h2 = length h1"
    using 1(1,2) b mk by (auto simp: h2_def look_update intro!: heap_ok_update)
  have same: "v h2 z = v h z \<and> f h2 z = f h z \<and> s h2 z = s h z" if "f h z \<subseteq> {..<length h} - {b}" for z
    by (rule copier.frame [OF cp]) (use that 1(1) in \<open>auto simp: h2_def agree_def look_update\<close>)
  have xs: "\<forall>z \<in> set xs. f h z \<subseteq> {..<length h} - {b}" using Cons.prems(4) by simp
  then have in2: "\<forall>z \<in> set xs. f h2 z \<subseteq> {..<length h2} - {b}" using same h2(3) 1(1) by fastforce
  have fill: "h' = fill c mk get \<rho> b (Suc i) xs h2"
    using Cons.prems(2,5) 1(1) b by (simp add: c h2_def get)
  have len: "length (ys[i := y]) = Suc i + length xs" "i < length ys" using Cons.prems(3) by simp_all
  obtain es cs where 2: "h' = h2[b := mk (take (Suc i) (ys[i := y]) @ es)] @ cs" "heap_ok h'"
    "map (v h') es = map (v h2) xs"
    "(\<Union>e \<in> set es. f h' e) \<subseteq> (\<Union>z \<in> set xs. s h2 z) \<union> {length h2..<length h'}"
    using Cons.IH [OF h2(1,2) len(1) in2 fill] by blast
  have tk: "take (Suc i) (ys[i := y]) = take i ys @ [y]"
    using len(2) by (simp add: take_Suc_conv_app_nth)
  have h': "h' = h[b := mk (take i ys @ y # es)] @ (cs1 @ cs)"
    using 2(1) b by (simp add: tk h2_def 1(1) list_update_append1)
  have ny: "b \<notin> f h1 y" "f h1 y \<subseteq> {..<length h1}"
    using 1(1,4) b x copier.shared_foot [OF cp, of h x] by fastforce+
  have "agree (f h1 y) h1 h'"
    unfolding 2(1) h2_def
    by (rule agree_trans [OF agree_update [OF ny(1)]], rule agree_trans [OF agree_update [OF ny(1)]],
        rule agree_append) (use ny(2) in simp)
  then have y: "v h' y = v h x" "f h' y = f h1 y" using copier.frame [OF cp] 1(3) by simp_all
  have mv: "map (v h2) xs = map (v h) xs" and ms: "(\<Union>z \<in> set xs. s h2 z) = (\<Union>z \<in> set xs. s h z)"
    using xs same by auto
  have l: "length h \<le> length h1" "length h1 \<le> length h'" using 1(1) 2(1) h2(3) by simp_all
  have "(\<Union>e \<in> set (y # es). f h' e) \<subseteq> (\<Union>z \<in> set (x # xs). s h z) \<union> {length h..<length h'}"
    using 1(4) 2(4) y(2) l h2(3) unfolding ms by fastforce
  moreover have "map (v h') (y # es) = map (v h) (x # xs)" using 2(3) y(1) mv by simp
  ultimately show ?case using h' 2(2) by blast
qed

lemma copier_array:
  assumes cp: "copier c v f s" and get: "\<And>xs. get (Some (mk xs)) = xs" and mk: "\<And>xs m. mk xs \<noteq> CMap m"
  shows "copier (copy_array c mk get zero) (val_array get v) (foot_array get f) (shared_array get s)"
proof unfold_locales
  fix h p h' assume ag: "agree (foot_array get f h p) h h'"
  show "val_array get v h' p = val_array get v h p \<and> foot_array get f h' p = foot_array get f h p \<and>
      shared_array get s h' p = shared_array get s h p"
  proof (cases p)
    case (Some a)
    have a: "look h' a = look h a" using ag by (simp add: Some foot_array_def agree_def)
    have "v h' x = v h x \<and> f h' x = f h x \<and> s h' x = s h x" if "x \<in> set (get (look h a))" for x
      by (rule copier.frame [OF cp]) (use ag that in \<open>auto simp: Some foot_array_def agree_def\<close>)
    then show ?thesis by (simp add: Some a val_array_def foot_array_def shared_array_def)
  qed (simp add: val_array_def foot_array_def shared_array_def)
next
  fix h p show "shared_array get s h p \<subseteq> foot_array get f h p"
    by (cases p) (auto simp: shared_array_def foot_array_def
        dest: subsetD [OF copier.shared_foot [OF cp]])
next
  fix h \<rho> p q h'
  assume h: "heap_ok h" "foot_array get f h p \<subseteq> {..<length h}" "copy_array c mk get zero \<rho> p h = (q, h')"
  show "(\<exists>cs. h' = h @ cs) \<and> heap_ok h' \<and> val_array get v h' q = val_array get v h p \<and>
      foot_array get f h' q \<subseteq> shared_array get s h p \<union> {length h..<length h'}"
  proof (cases p)
    case None
    with h show ?thesis by (simp add: copy_array_def val_array_def foot_array_def)
  next
    case (Some a)
    define xs h1 where "xs = get (look h a)" and "h1 = h @ [mk (replicate (length xs) zero)]"
    have q: "q = Some (length h)" "h' = fill c mk get \<rho> (length h) 0 xs h1"
      using h(3) by (auto simp: copy_array_def Some alloc_def Let_def xs_def h1_def)
    have r: "\<forall>x \<in> set xs. f h x \<subseteq> {..<length h}"
      using h(2) by (auto simp: Some foot_array_def xs_def)
    have same: "\<forall>x \<in> set xs. v h1 x = v h x \<and> f h1 x = f h x \<and> s h1 x = s h x"
      using copier.stable [OF cp] r unfolding h1_def by blast
    have ok: "heap_ok h1" using h(1) by (simp add: h1_def) (simp add: heap_ok_def mk [symmetric])
    have r1: "\<forall>x \<in> set xs. f h1 x \<subseteq> {..<length h1} - {length h}"
      using r same by (force simp: h1_def)
    obtain es cs where e: "h' = h1[length h := mk (take 0 (replicate (length xs) zero) @ es)] @ cs"
      "heap_ok h'" "map (v h') es = map (v h1) xs"
      "(\<Union>e \<in> set es. f h' e) \<subseteq> (\<Union>x \<in> set xs. s h1 x) \<union> {length h1..<length h'}"
      using fill_copies [OF cp get mk, OF ok _ _ r1 q(2), of "replicate (length xs) zero"]
      by (auto simp: h1_def)
    have h': "h' = h @ mk es # cs" using e(1) by (simp add: h1_def)
    have "map (v h1) xs = map (v h) xs" "(\<Union>x \<in> set xs. s h1 x) = (\<Union>x \<in> set xs. s h x)"
      using same by auto
    have "val_array get v h' q = val_array get v h p"
      using e(3) \<open>map (v h1) xs = map (v h) xs\<close>
      by (simp add: Some q(1) val_array_def h' get xs_def [symmetric])
    moreover have "foot_array get f h' q \<subseteq> shared_array get s h p \<union> {length h..<length h'}"
    proof -
      have "foot_array get f h' q = insert (length h) (\<Union>e \<in> set es. f h' e)"
        by (simp add: q(1) foot_array_def h' get)
      moreover have "shared_array get s h p = (\<Union>x \<in> set xs. s h x)"
        by (simp add: Some shared_array_def xs_def)
      moreover have "length h < length h'" "{length h1..<length h'} \<subseteq> {length h..<length h'}"
        by (simp_all add: h' h1_def)
      ultimately show ?thesis using e(4) \<open>(\<Union>x \<in> set xs. s h1 x) = (\<Union>x \<in> set xs. s h x)\<close> by auto
    qed
    ultimately show ?thesis using h' e(2) by blast
  qed
qed

text \<open>A pointer that the copy takes over as it is.\<close>

definition copy_alias :: "chooser \<Rightarrow> addr option \<Rightarrow> heap \<Rightarrow> addr option \<times> heap" where
  "copy_alias \<rho> p h = (p, h)"

lemma copier_alias: "copier copy_alias (val_leaf get) foot_leaf foot_leaf"
proof unfold_locales
  fix h x h' assume "agree (foot_leaf h x) h h'"
  then show "val_leaf get h' x = val_leaf get h x \<and> foot_leaf h' x = foot_leaf h x \<and>
      foot_leaf h' x = foot_leaf h x"
    by (cases x) (auto simp: agree_def foot_leaf_def val_leaf_def)
qed (auto simp: copy_alias_def)

text \<open>\<open>DeepCopy\<close>: \<open>nil\<close> for \<open>nil\<close>; otherwise \<open>new\<close>, then \<open>DeepCopyInto\<close> the new struct.\<close>

definition deep_copy :: "(chooser \<Rightarrow> 'e \<Rightarrow> heap \<Rightarrow> 'e \<times> heap) \<Rightarrow> ('e \<Rightarrow> cell) \<Rightarrow> (cell option \<Rightarrow> 'e) \<Rightarrow>
    'e \<Rightarrow> chooser \<Rightarrow> addr option \<Rightarrow> heap \<Rightarrow> addr option \<times> heap" where
  "deep_copy into mk get zero \<rho> p h =
     (case p of
        None \<Rightarrow> (None, h)
      | Some a \<Rightarrow>
          (let (b, h1) = alloc (mk zero) h;
               (out, h2) = into \<rho> (get (look h1 a)) h1
           in (Some b, h2[b := mk out])))"

definition val_new :: "(cell option \<Rightarrow> 'e) \<Rightarrow> (heap \<Rightarrow> 'e \<Rightarrow> 'v) \<Rightarrow> heap \<Rightarrow> addr option \<Rightarrow> 'v option" where
  "val_new get v h p = map_option (\<lambda>a. v h (get (look h a))) p"

definition foot_new :: "(cell option \<Rightarrow> 'e) \<Rightarrow> (heap \<Rightarrow> 'e \<Rightarrow> addr set) \<Rightarrow> heap \<Rightarrow> addr option \<Rightarrow>
    addr set" where
  "foot_new get f h p = (case p of None \<Rightarrow> {} | Some a \<Rightarrow> insert a (f h (get (look h a))))"

definition shared_new :: "(cell option \<Rightarrow> 'e) \<Rightarrow> (heap \<Rightarrow> 'e \<Rightarrow> addr set) \<Rightarrow> heap \<Rightarrow> addr option \<Rightarrow>
    addr set" where
  "shared_new get s h p = (case p of None \<Rightarrow> {} | Some a \<Rightarrow> s h (get (look h a)))"

lemma copier_new:
  assumes cp: "copier c v f s" and get: "\<And>x. get (Some (mk x)) = x" and mk: "\<And>x m. mk x \<noteq> CMap m"
  shows "copier (deep_copy c mk get zero) (val_new get v) (foot_new get f) (shared_new get s)"
proof unfold_locales
  fix h p h' assume ag: "agree (foot_new get f h p) h h'"
  show "val_new get v h' p = val_new get v h p \<and> foot_new get f h' p = foot_new get f h p \<and>
      shared_new get s h' p = shared_new get s h p"
  proof (cases p)
    case (Some a)
    have a: "look h' a = look h a" using ag by (simp add: Some foot_new_def agree_def)
    have "agree (f h (get (look h a))) h h'" using ag by (simp add: Some foot_new_def agree_def)
    from copier.frame [OF cp, OF this] show ?thesis
      by (simp add: Some a val_new_def foot_new_def shared_new_def)
  qed (simp add: val_new_def foot_new_def shared_new_def)
next
  fix h p show "shared_new get s h p \<subseteq> foot_new get f h p"
    by (cases p) (auto simp: shared_new_def foot_new_def dest: subsetD [OF copier.shared_foot [OF cp]])
next
  fix h \<rho> p q h'
  assume h: "heap_ok h" "foot_new get f h p \<subseteq> {..<length h}" "deep_copy c mk get zero \<rho> p h = (q, h')"
  show "(\<exists>cs. h' = h @ cs) \<and> heap_ok h' \<and> val_new get v h' q = val_new get v h p \<and>
      foot_new get f h' q \<subseteq> shared_new get s h p \<union> {length h..<length h'}"
  proof (cases p)
    case None
    with h show ?thesis by (simp add: deep_copy_def val_new_def foot_new_def)
  next
    case (Some a)
    define x h1 where "x = get (look h a)" and "h1 = h @ [mk zero]"
    have a: "a < length h" "f h x \<subseteq> {..<length h}" using h(2) by (auto simp: Some foot_new_def x_def)
    obtain y h2 where c: "c \<rho> x h1 = (y, h2)" by fastforce
    have q: "q = Some (length h)" "h' = h2[length h := mk y]"
      using h(3) a(1) c by (simp_all add: deep_copy_def Some alloc_def x_def h1_def)
    have same: "v h1 x = v h x" "f h1 x = f h x" "s h1 x = s h x"
      using copier.stable [OF cp, OF a(2)] by (simp_all add: h1_def)
    have ok: "heap_ok h1" using h(1) by (simp add: h1_def) (simp add: heap_ok_def mk [symmetric])
    have r: "f h1 x \<subseteq> {..<length h1}" using a(2) same(2) by (auto simp: h1_def)
    obtain cs where 1: "h2 = h1 @ cs" "heap_ok h2" "v h2 y = v h x"
      "f h2 y \<subseteq> s h x \<union> {length h1..<length h2}"
      using copier.copies [OF cp, OF ok r c] same by auto
    have h': "h' = h @ mk y # cs" using q(2) 1(1) by (simp add: h1_def)
    have b: "length h \<notin> f h2 y" using 1(4) a(2) copier.shared_foot [OF cp, of h x] by (fastforce simp: h1_def)
    have y: "v h' y = v h x" "f h' y = f h2 y"
      using copier.frame [OF cp, OF agree_update [OF b]] 1(3) by (simp_all add: q(2))
    have ok': "heap_ok h'" unfolding q(2) by (rule heap_ok_update) (use 1(2) mk in auto)
    have "val_new get v h' q = val_new get v h p"
      using y(1) by (simp add: Some q(1) val_new_def h' get x_def)
    moreover have "foot_new get f h' q \<subseteq> shared_new get s h p \<union> {length h..<length h'}"
    proof -
      have "foot_new get f h' q = insert (length h) (f h2 y)"
        using y(2) by (simp add: q(1) foot_new_def h' get)
      moreover have "shared_new get s h p = s h x" by (simp add: Some shared_new_def x_def)
      moreover have "length h < length h'" "{length h1..<length h2} \<subseteq> {length h..<length h'}"
        using 1(1) by (auto simp: q(2) h1_def)
      ultimately show ?thesis using 1(4) by auto
    qed
    ultimately show ?thesis using h' ok' by blast
  qed
qed

end
