(* ===== verification/DeepCopy.thy ===== *)
theory DeepCopy
  imports Store
begin

section \<open>The generated deep copies\<close>

text \<open>
  Every function of \<open>pkg/apis/fencing/v1alpha1/zz_generated.deepcopy.go\<close>, on the store of
  \<open>Store\<close>. \<open>DeepCopyInto\<close> takes the struct it reads and returns the struct it leaves in
  \<open>*out\<close> (first \<open>*out = *in\<close>, then the pointers one after the other); \<open>DeepCopy\<close> and
  \<open>DeepCopyObject\<close> take and return pointers. The order in which a map is ranged over is the
  oracle \<open>\<rho>\<close>. Each copy is an interpretation of the contract \<open>copier\<close>.
\<close>

subsection \<open>Reading cells\<close>

fun string_at :: "cell option \<Rightarrow> string" where
  "string_at (Some (CString s)) = s" | "string_at _ = []"

fun int32_at :: "cell option \<Rightarrow> 32 word" where
  "int32_at (Some (CInt32 i)) = i" | "int32_at _ = 0"

definition zero_container :: Container where
  "zero_container = \<lparr>c_Name = [], Image = [], Command = [], Env = [], VolumeMounts = []\<rparr>"

fun container_at :: "cell option \<Rightarrow> Container" where
  "container_at (Some (CContainer c)) = c" | "container_at _ = zero_container"

fun map_at :: "cell option \<Rightarrow> strmap" where
  "map_at (Some (CMap m)) = m" | "map_at _ = []"

fun strings_at :: "cell option \<Rightarrow> string list" where
  "strings_at (Some (CStrings xs)) = xs" | "strings_at _ = []"

fun updates_at :: "cell option \<Rightarrow> FencingRequestStatusUpdate list" where
  "updates_at (Some (CUpdates xs)) = xs" | "updates_at _ = []"

fun dynamics_at :: "cell option \<Rightarrow> pDynamic list" where
  "dynamics_at (Some (CDynamics xs)) = xs" | "dynamics_at _ = []"

fun mechanisms_at :: "cell option \<Rightarrow> pMechanism list" where
  "mechanisms_at (Some (CMechanisms xs)) = xs" | "mechanisms_at _ = []"

fun methods_at :: "cell option \<Rightarrow> pMethod list" where
  "methods_at (Some (CMethods xs)) = xs" | "methods_at _ = []"

fun requests_at :: "cell option \<Rightarrow> pRequest list" where
  "requests_at (Some (CRequests xs)) = xs" | "requests_at _ = []"

fun sets_at :: "cell option \<Rightarrow> pSet list" where
  "sets_at (Some (CSets xs)) = xs" | "sets_at _ = []"

subsection \<open>Zero values\<close>

definition zero_type :: TypeMeta where
  "zero_type = \<lparr>Kind = [], APIVersion = []\<rparr>"

definition zero_list :: ListMeta where
  "zero_list = \<lparr>SelfLink = [], ResourceVersion = [], Continue = []\<rparr>"

definition zero_dynamic :: pDynamic where
  "zero_dynamic = \<lparr>pd_Field = [], pd_Default = [], pd_Values = None\<rparr>"

definition zero_mechanism :: pMechanism where
  "zero_mechanism = \<lparr>pm_Container = None, pm_ArgumentFormat = [], pm_PassTargetAs = [],
     pm_TimeoutSeconds = None, pm_Config = None, pm_DynamicConfig = None, pm_Secrets = None\<rparr>"

definition zero_method :: pMethod where
  "zero_method = \<lparr>pt_Name = [], pt_StopOnSuccess = False, pt_RequireAfterSeconds = None,
     pt_Retries = 0, pt_Mechanisms = None\<rparr>"

definition zero_config :: pConfig where
  "zero_config = \<lparr>pc_TypeMeta = zero_type, pc_ObjectMeta = empty_meta, pc_NodeSelector = None,
     pc_Methods = None\<rparr>"

definition zero_spec :: pSpec where
  "zero_spec = \<lparr>ps_Target = [], ps_Origin = [], ps_Operation = [], ps_PodList = None,
     ps_ValidAfter = 0\<rparr>"

definition zero_status :: pStatus where
  "zero_status = \<lparr>st_Complete = False, st_Result = [], st_Config = None, st_ActiveMethod = None,
     st_ActiveJob = None, st_Updates = None\<rparr>"

definition zero_update :: FencingRequestStatusUpdate where
  "zero_update = \<lparr>Timestamp = [], Method = [], Message = [], Output = [], Error = []\<rparr>"

definition zero_request :: pRequest where
  "zero_request = \<lparr>pr_TypeMeta = zero_type, pr_ObjectMeta = empty_meta, pr_Spec = zero_spec,
     pr_Status = zero_status\<rparr>"

definition zero_request_list :: pRequestList where
  "zero_request_list = \<lparr>pl_TypeMeta = zero_type, pl_ListMeta = zero_list, pl_Items = None\<rparr>"

definition zero_set :: pSet where
  "zero_set = \<lparr>px_TypeMeta = zero_type, px_ObjectMeta = empty_meta, px_Spec = zero_config,
     px_Status = FencingSetStatus\<rparr>"

definition zero_set_list :: pSetList where
  "zero_set_list = \<lparr>pxl_TypeMeta = zero_type, pxl_ListMeta = zero_list, pxl_Items = None\<rparr>"

subsection \<open>Reading structs\<close>

fun dynamic_at :: "cell option \<Rightarrow> pDynamic" where
  "dynamic_at (Some (CDynamic x)) = x" | "dynamic_at _ = zero_dynamic"

fun mechanism_at :: "cell option \<Rightarrow> pMechanism" where
  "mechanism_at (Some (CMechanism x)) = x" | "mechanism_at _ = zero_mechanism"

fun method_at :: "cell option \<Rightarrow> pMethod" where
  "method_at (Some (CMethod x)) = x" | "method_at _ = zero_method"

fun config_at :: "cell option \<Rightarrow> pConfig" where
  "config_at (Some (CConfig x)) = x" | "config_at _ = zero_config"

fun spec_at :: "cell option \<Rightarrow> pSpec" where
  "spec_at (Some (CSpec x)) = x" | "spec_at _ = zero_spec"

fun status_at :: "cell option \<Rightarrow> pStatus" where
  "status_at (Some (CStatus x)) = x" | "status_at _ = zero_status"

fun update_at :: "cell option \<Rightarrow> FencingRequestStatusUpdate" where
  "update_at (Some (CUpdate x)) = x" | "update_at _ = zero_update"

fun request_at :: "cell option \<Rightarrow> pRequest" where
  "request_at (Some (CRequest x)) = x" | "request_at _ = zero_request"

fun request_list_at :: "cell option \<Rightarrow> pRequestList" where
  "request_list_at (Some (CRequestList x)) = x" | "request_list_at _ = zero_request_list"

fun set_at :: "cell option \<Rightarrow> pSet" where
  "set_at (Some (CSet x)) = x" | "set_at _ = zero_set"

fun set_list_at :: "cell option \<Rightarrow> pSetList" where
  "set_list_at (Some (CSetList x)) = x" | "set_list_at _ = zero_set_list"

fun set_status_at :: "cell option \<Rightarrow> FencingSetStatus" where
  "set_status_at _ = FencingSetStatus"

fun method_status_at :: "cell option \<Rightarrow> FencingMethodStatus" where
  "method_status_at _ = FencingMethodStatus"

subsection \<open>Pointers to plain values, maps and slices of plain values\<close>

text \<open>\<open>*out = new(T); **out = **in\<close>, for containers with their own \<open>DeepCopyInto\<close>.\<close>

definition copy_string :: "chooser \<Rightarrow> addr option \<Rightarrow> heap \<Rightarrow> addr option \<times> heap" where
  "copy_string = copy_leaf (\<lambda>\<rho> c. CString (string_at c))"

definition copy_int32 :: "chooser \<Rightarrow> addr option \<Rightarrow> heap \<Rightarrow> addr option \<times> heap" where
  "copy_int32 = copy_leaf (\<lambda>\<rho> c. CInt32 (int32_at c))"

definition copy_container :: "chooser \<Rightarrow> addr option \<Rightarrow> heap \<Rightarrow> addr option \<times> heap" where
  "copy_container = copy_leaf (\<lambda>\<rho> c. CContainer (container_at c))"

text \<open>\<open>for key, val := range *in { (*out)[key] = val }\<close> on a new map.\<close>

definition copy_map :: "chooser \<Rightarrow> addr option \<Rightarrow> heap \<Rightarrow> addr option \<times> heap" where
  "copy_map = copy_leaf (\<lambda>\<rho> c. CMap (m_puts (range_over \<rho> (map_at c)) []))"

text \<open>\<open>*out = make([]T, len(*in)); copy(*out, *in)\<close>.\<close>

definition copy_strings :: "chooser \<Rightarrow> addr option \<Rightarrow> heap \<Rightarrow> addr option \<times> heap" where
  "copy_strings = copy_leaf (\<lambda>\<rho> c. CStrings (strings_at c))"

definition copy_updates :: "chooser \<Rightarrow> addr option \<Rightarrow> heap \<Rightarrow> addr option \<times> heap" where
  "copy_updates = copy_leaf (\<lambda>\<rho> c. CUpdates (updates_at c))"

subsection \<open>\<open>DeepCopyInto\<close>\<close>

definition FencingDynamicConfig_DeepCopyInto :: "chooser \<Rightarrow> pDynamic \<Rightarrow> heap \<Rightarrow> pDynamic \<times> heap" where
  "FencingDynamicConfig_DeepCopyInto \<rho> inn h =
     (let out = inn;
          (p, h) = copy_map \<rho> (pd_Values inn) h
      in (out\<lparr>pd_Values := p\<rparr>, h))"

definition FencingMechanism_DeepCopyInto :: "chooser \<Rightarrow> pMechanism \<Rightarrow> heap \<Rightarrow> pMechanism \<times> heap" where
  "FencingMechanism_DeepCopyInto \<rho> inn h =
     (let out = inn;
          (p, h) = copy_container \<rho> (pm_Container inn) h;
          out = out\<lparr>pm_Container := p\<rparr>;
          (p, h) = copy_int32 \<rho> (pm_TimeoutSeconds inn) h;
          out = out\<lparr>pm_TimeoutSeconds := p\<rparr>;
          (p, h) = copy_map (sub \<rho> 0) (pm_Config inn) h;
          out = out\<lparr>pm_Config := p\<rparr>;
          (p, h) = copy_array FencingDynamicConfig_DeepCopyInto CDynamics dynamics_at zero_dynamic
                     (sub \<rho> 1) (pm_DynamicConfig inn) h;
          out = out\<lparr>pm_DynamicConfig := p\<rparr>;
          (p, h) = copy_map (sub \<rho> 2) (pm_Secrets inn) h
      in (out\<lparr>pm_Secrets := p\<rparr>, h))"

definition FencingMethod_DeepCopyInto :: "chooser \<Rightarrow> pMethod \<Rightarrow> heap \<Rightarrow> pMethod \<times> heap" where
  "FencingMethod_DeepCopyInto \<rho> inn h =
     (let out = inn;
          (p, h) = copy_int32 \<rho> (pt_RequireAfterSeconds inn) h;
          out = out\<lparr>pt_RequireAfterSeconds := p\<rparr>;
          (p, h) = copy_array FencingMechanism_DeepCopyInto CMechanisms mechanisms_at zero_mechanism
                     \<rho> (pt_Mechanisms inn) h
      in (out\<lparr>pt_Mechanisms := p\<rparr>, h))"

definition FencingConfig_DeepCopyInto :: "chooser \<Rightarrow> pConfig \<Rightarrow> heap \<Rightarrow> pConfig \<times> heap" where
  "FencingConfig_DeepCopyInto \<rho> inn h =
     (let out = inn;
          out = out\<lparr>pc_TypeMeta := pc_TypeMeta inn\<rparr>;
          out = out\<lparr>pc_ObjectMeta := pc_ObjectMeta inn\<rparr>;
          (p, h) = copy_map (sub \<rho> 0) (pc_NodeSelector inn) h;
          out = out\<lparr>pc_NodeSelector := p\<rparr>;
          (p, h) = copy_array FencingMethod_DeepCopyInto CMethods methods_at zero_method
                     (sub \<rho> 1) (pc_Methods inn) h
      in (out\<lparr>pc_Methods := p\<rparr>, h))"

definition FencingRequestSpec_DeepCopyInto :: "chooser \<Rightarrow> pSpec \<Rightarrow> heap \<Rightarrow> pSpec \<times> heap" where
  "FencingRequestSpec_DeepCopyInto \<rho> inn h =
     (let out = inn;
          (p, h) = copy_strings \<rho> (ps_PodList inn) h
      in (out\<lparr>ps_PodList := p\<rparr>, h))"

text \<open>There is no block for \<open>ActiveJob\<close>: the copy keeps the pointer that \<open>*out = *in\<close> gave it.\<close>

definition FencingRequestStatus_DeepCopyInto :: "chooser \<Rightarrow> pStatus \<Rightarrow> heap \<Rightarrow> pStatus \<times> heap" where
  "FencingRequestStatus_DeepCopyInto \<rho> inn h =
     (let out = inn;
          (p, h) = copy_string \<rho> (st_Config inn) h;
          out = out\<lparr>st_Config := p\<rparr>;
          (p, h) = copy_string \<rho> (st_ActiveMethod inn) h;
          out = out\<lparr>st_ActiveMethod := p\<rparr>;
          (p, h) = copy_updates \<rho> (st_Updates inn) h
      in (out\<lparr>st_Updates := p\<rparr>, h))"

definition FencingRequestStatusUpdate_DeepCopyInto ::
    "chooser \<Rightarrow> FencingRequestStatusUpdate \<Rightarrow> heap \<Rightarrow> FencingRequestStatusUpdate \<times> heap" where
  "FencingRequestStatusUpdate_DeepCopyInto \<rho> inn h = (inn, h)"

definition FencingRequest_DeepCopyInto :: "chooser \<Rightarrow> pRequest \<Rightarrow> heap \<Rightarrow> pRequest \<times> heap" where
  "FencingRequest_DeepCopyInto \<rho> inn h =
     (let out = inn;
          out = out\<lparr>pr_TypeMeta := pr_TypeMeta inn\<rparr>;
          out = out\<lparr>pr_ObjectMeta := pr_ObjectMeta inn\<rparr>;
          (s, h) = FencingRequestSpec_DeepCopyInto \<rho> (pr_Spec inn) h;
          out = out\<lparr>pr_Spec := s\<rparr>;
          (s, h) = FencingRequestStatus_DeepCopyInto \<rho> (pr_Status inn) h
      in (out\<lparr>pr_Status := s\<rparr>, h))"

definition FencingRequestList_DeepCopyInto :: "chooser \<Rightarrow> pRequestList \<Rightarrow> heap \<Rightarrow> pRequestList \<times> heap" where
  "FencingRequestList_DeepCopyInto \<rho> inn h =
     (let out = inn;
          out = out\<lparr>pl_TypeMeta := pl_TypeMeta inn\<rparr>;
          out = out\<lparr>pl_ListMeta := pl_ListMeta inn\<rparr>;
          (p, h) = copy_array FencingRequest_DeepCopyInto CRequests requests_at zero_request
                     \<rho> (pl_Items inn) h
      in (out\<lparr>pl_Items := p\<rparr>, h))"

definition FencingSetStatus_DeepCopyInto ::
    "chooser \<Rightarrow> FencingSetStatus \<Rightarrow> heap \<Rightarrow> FencingSetStatus \<times> heap" where
  "FencingSetStatus_DeepCopyInto \<rho> inn h = (inn, h)"

definition FencingMethodStatus_DeepCopyInto ::
    "chooser \<Rightarrow> FencingMethodStatus \<Rightarrow> heap \<Rightarrow> FencingMethodStatus \<times> heap" where
  "FencingMethodStatus_DeepCopyInto \<rho> inn h = (inn, h)"

definition FencingSet_DeepCopyInto :: "chooser \<Rightarrow> pSet \<Rightarrow> heap \<Rightarrow> pSet \<times> heap" where
  "FencingSet_DeepCopyInto \<rho> inn h =
     (let out = inn;
          out = out\<lparr>px_TypeMeta := px_TypeMeta inn\<rparr>;
          out = out\<lparr>px_ObjectMeta := px_ObjectMeta inn\<rparr>;
          (s, h) = FencingConfig_DeepCopyInto \<rho> (px_Spec inn) h;
          out = out\<lparr>px_Spec := s\<rparr>
      in (out\<lparr>px_Status := px_Status inn\<rparr>, h))"

definition FencingSetList_DeepCopyInto :: "chooser \<Rightarrow> pSetList \<Rightarrow> heap \<Rightarrow> pSetList \<times> heap" where
  "FencingSetList_DeepCopyInto \<rho> inn h =
     (let out = inn;
          out = out\<lparr>pxl_TypeMeta := pxl_TypeMeta inn\<rparr>;
          out = out\<lparr>pxl_ListMeta := pxl_ListMeta inn\<rparr>;
          (p, h) = copy_array FencingSet_DeepCopyInto CSets sets_at zero_set \<rho> (pxl_Items inn) h
      in (out\<lparr>pxl_Items := p\<rparr>, h))"

subsection \<open>\<open>DeepCopy\<close>\<close>

definition FencingConfig_DeepCopy :: "chooser \<Rightarrow> addr option \<Rightarrow> heap \<Rightarrow> addr option \<times> heap" where
  "FencingConfig_DeepCopy = deep_copy FencingConfig_DeepCopyInto CConfig config_at zero_config"

definition FencingDynamicConfig_DeepCopy :: "chooser \<Rightarrow> addr option \<Rightarrow> heap \<Rightarrow> addr option \<times> heap" where
  "FencingDynamicConfig_DeepCopy = deep_copy FencingDynamicConfig_DeepCopyInto CDynamic dynamic_at zero_dynamic"

definition FencingMechanism_DeepCopy :: "chooser \<Rightarrow> addr option \<Rightarrow> heap \<Rightarrow> addr option \<times> heap" where
  "FencingMechanism_DeepCopy = deep_copy FencingMechanism_DeepCopyInto CMechanism mechanism_at zero_mechanism"

definition FencingMethod_DeepCopy :: "chooser \<Rightarrow> addr option \<Rightarrow> heap \<Rightarrow> addr option \<times> heap" where
  "FencingMethod_DeepCopy = deep_copy FencingMethod_DeepCopyInto CMethod method_at zero_method"

definition FencingMethodStatus_DeepCopy :: "chooser \<Rightarrow> addr option \<Rightarrow> heap \<Rightarrow> addr option \<times> heap" where
  "FencingMethodStatus_DeepCopy = deep_copy FencingMethodStatus_DeepCopyInto CMethodStatus method_status_at FencingMethodStatus"

definition FencingRequest_DeepCopy :: "chooser \<Rightarrow> addr option \<Rightarrow> heap \<Rightarrow> addr option \<times> heap" where
  "FencingRequest_DeepCopy = deep_copy FencingRequest_DeepCopyInto CRequest request_at zero_request"

definition FencingRequestList_DeepCopy :: "chooser \<Rightarrow> addr option \<Rightarrow> heap \<Rightarrow> addr option \<times> heap" where
  "FencingRequestList_DeepCopy = deep_copy FencingRequestList_DeepCopyInto CRequestList request_list_at zero_request_list"

definition FencingRequestSpec_DeepCopy :: "chooser \<Rightarrow> addr option \<Rightarrow> heap \<Rightarrow> addr option \<times> heap" where
  "FencingRequestSpec_DeepCopy = deep_copy FencingRequestSpec_DeepCopyInto CSpec spec_at zero_spec"

definition FencingRequestStatus_DeepCopy :: "chooser \<Rightarrow> addr option \<Rightarrow> heap \<Rightarrow> addr option \<times> heap" where
  "FencingRequestStatus_DeepCopy = deep_copy FencingRequestStatus_DeepCopyInto CStatus status_at zero_status"

definition FencingRequestStatusUpdate_DeepCopy :: "chooser \<Rightarrow> addr option \<Rightarrow> heap \<Rightarrow> addr option \<times> heap" where
  "FencingRequestStatusUpdate_DeepCopy = deep_copy FencingRequestStatusUpdate_DeepCopyInto CUpdate update_at zero_update"

definition FencingSet_DeepCopy :: "chooser \<Rightarrow> addr option \<Rightarrow> heap \<Rightarrow> addr option \<times> heap" where
  "FencingSet_DeepCopy = deep_copy FencingSet_DeepCopyInto CSet set_at zero_set"

definition FencingSetList_DeepCopy :: "chooser \<Rightarrow> addr option \<Rightarrow> heap \<Rightarrow> addr option \<times> heap" where
  "FencingSetList_DeepCopy = deep_copy FencingSetList_DeepCopyInto CSetList set_list_at zero_set_list"

definition FencingSetStatus_DeepCopy :: "chooser \<Rightarrow> addr option \<Rightarrow> heap \<Rightarrow> addr option \<times> heap" where
  "FencingSetStatus_DeepCopy = deep_copy FencingSetStatus_DeepCopyInto CSetStatus set_status_at FencingSetStatus"

subsection \<open>\<open>DeepCopyObject\<close>\<close>

text \<open>
  A \<open>runtime.Object\<close> is an interface value: \<open>None\<close> is the \<open>nil\<close> interface, \<open>Some (T, p)\<close> the
  pointer \<open>p\<close> of type \<open>*T\<close>, which may itself be \<open>nil\<close>. The functions test \<open>c != nil\<close> so that a
  \<open>nil\<close> pointer becomes the \<open>nil\<close> interface.
\<close>

datatype object_type = TFencingConfig | TFencingRequest | TFencingRequestList | TFencingSet
  | TFencingSetList

type_synonym object = "(object_type \<times> addr option) option"

definition as_object :: "object_type \<Rightarrow> addr option \<times> heap \<Rightarrow> object \<times> heap" where
  "as_object T ch = (case ch of (c, h) \<Rightarrow> if c \<noteq> None then (Some (T, c), h) else (None, h))"

definition FencingConfig_DeepCopyObject :: "chooser \<Rightarrow> addr option \<Rightarrow> heap \<Rightarrow> object \<times> heap" where
  "FencingConfig_DeepCopyObject \<rho> inn h = as_object TFencingConfig (FencingConfig_DeepCopy \<rho> inn h)"

definition FencingRequest_DeepCopyObject :: "chooser \<Rightarrow> addr option \<Rightarrow> heap \<Rightarrow> object \<times> heap" where
  "FencingRequest_DeepCopyObject \<rho> inn h = as_object TFencingRequest (FencingRequest_DeepCopy \<rho> inn h)"

definition FencingRequestList_DeepCopyObject :: "chooser \<Rightarrow> addr option \<Rightarrow> heap \<Rightarrow> object \<times> heap" where
  "FencingRequestList_DeepCopyObject \<rho> inn h = as_object TFencingRequestList (FencingRequestList_DeepCopy \<rho> inn h)"

definition FencingSet_DeepCopyObject :: "chooser \<Rightarrow> addr option \<Rightarrow> heap \<Rightarrow> object \<times> heap" where
  "FencingSet_DeepCopyObject \<rho> inn h = as_object TFencingSet (FencingSet_DeepCopy \<rho> inn h)"

definition FencingSetList_DeepCopyObject :: "chooser \<Rightarrow> addr option \<Rightarrow> heap \<Rightarrow> object \<times> heap" where
  "FencingSetList_DeepCopyObject \<rho> inn h = as_object TFencingSetList (FencingSetList_DeepCopy \<rho> inn h)"

end
