(* ===== verification/DeepCopy_Props.thy ===== *)
theory DeepCopy_Props
  imports DeepCopy
begin

section \<open>What the deep copies copy\<close>

text \<open>
  The value and the footprint of each type, the proof that each generated function keeps the
  contract \<open>copier\<close>, and what follows: a copied configuration shares nothing with the original, a
  copied request shares the cell of its active job.
\<close>

lemma copier_cong:
  "copier c v f s \<Longrightarrow> (\<And>\<rho> x h. c' \<rho> x h = c \<rho> x h) \<Longrightarrow> (\<And>h x. v' h x = v h x) \<Longrightarrow>
   (\<And>h x. f' h x = f h x) \<Longrightarrow> (\<And>h x. s' h x = s h x) \<Longrightarrow> copier c' v' f' s'"
proof -
  assume "copier c v f s" and eq: "\<And>\<rho> x h. c' \<rho> x h = c \<rho> x h" "\<And>h x. v' h x = v h x"
    "\<And>h x. f' h x = f h x" "\<And>h x. s' h x = s h x"
  have "c' = c" "v' = v" "f' = f" "s' = s" by (rule ext, (rule ext)?, (rule ext)?, rule eq)+
  with \<open>copier c v f s\<close> show ?thesis by simp
qed

lemmas copy_unfold = copy_struct_def copy_pair_def Let_def split_beta val_pair_def foot_pair_def
  no_share_def

subsection \<open>Plain values\<close>

lemma copier_string: "copier copy_string (val_leaf string_at) foot_leaf no_share"
  unfolding copy_string_def by (rule copier_leaf) auto

lemma copier_int32: "copier copy_int32 (val_leaf int32_at) foot_leaf no_share"
  unfolding copy_int32_def by (rule copier_leaf) auto

lemma copier_container: "copier copy_container (val_leaf container_at) foot_leaf no_share"
  unfolding copy_container_def by (rule copier_leaf) auto

lemma copier_strings: "copier copy_strings (val_leaf strings_at) foot_leaf no_share"
  unfolding copy_strings_def by (rule copier_leaf) auto

lemma copier_updates: "copier copy_updates (val_leaf updates_at) foot_leaf no_share"
  unfolding copy_updates_def by (rule copier_leaf) auto

lemma map_at_ok: "heap_ok h \<Longrightarrow> m_ok (map_at (look h a))"
proof (cases "look h a")
  case (Some c)
  then show "heap_ok h \<Longrightarrow> ?thesis" by (cases c) (auto dest: heap_ok_look)
qed simp

lemma copied_map: "m_ok m \<Longrightarrow> m_puts (range_over \<rho> m) [] = m"
  by (simp add: order_rules gomap_rules)

lemma copier_map: "copier copy_map (val_leaf map_at) foot_leaf no_share"
  unfolding copy_map_def by (rule copier_leaf) (auto simp: map_at_ok copied_map gomap_rules)

subsection \<open>Structs\<close>

definition dynamic_val where
  "dynamic_val h x = (x\<lparr>pd_Values := None\<rparr>, val_leaf map_at h (pd_Values x))"

definition dynamic_foot where
  "dynamic_foot h x = foot_leaf h (pd_Values x)"

lemma copier_dynamic: "copier FencingDynamicConfig_DeepCopyInto dynamic_val dynamic_foot no_share"
  by (rule copier_cong [OF copier_struct
        [where dest = pd_Values and build = "\<lambda>x p. x\<lparr>pd_Values := p\<rparr>"
           and V = "\<lambda>x u. (x\<lparr>pd_Values := None\<rparr>, u)", OF copier_map]])
     (simp_all add: FencingDynamicConfig_DeepCopyInto_def dynamic_val_def dynamic_foot_def copy_unfold)

abbreviation val_dynamics where "val_dynamics \<equiv> val_array dynamics_at dynamic_val"
abbreviation foot_dynamics where "foot_dynamics \<equiv> foot_array dynamics_at dynamic_foot"

definition mechanism_val where
  "mechanism_val h x =
     (x\<lparr>pm_Container := None, pm_TimeoutSeconds := None, pm_Config := None, pm_DynamicConfig := None,
        pm_Secrets := None\<rparr>,
      val_leaf container_at h (pm_Container x), val_leaf int32_at h (pm_TimeoutSeconds x),
      val_leaf map_at h (pm_Config x), val_dynamics h (pm_DynamicConfig x),
      val_leaf map_at h (pm_Secrets x))"

definition mechanism_foot where
  "mechanism_foot h x =
     foot_leaf h (pm_Container x) \<union> foot_leaf h (pm_TimeoutSeconds x) \<union> foot_leaf h (pm_Config x) \<union>
     foot_dynamics h (pm_DynamicConfig x) \<union> foot_leaf h (pm_Secrets x)"

lemma shared_array_none [simp]: "shared_array get no_share h p = {}"
  by (cases p) (auto simp: shared_array_def no_share_def)

lemma shared_new_none [simp]: "shared_new get no_share h p = {}"
  by (cases p) (auto simp: shared_new_def no_share_def)

lemma copier_dynamics:
  "copier (copy_array FencingDynamicConfig_DeepCopyInto CDynamics dynamics_at zero_dynamic)
     val_dynamics foot_dynamics (shared_array dynamics_at no_share)"
  by (rule copier_array [OF copier_dynamic]) auto

lemma copier_mechanism: "copier FencingMechanism_DeepCopyInto mechanism_val mechanism_foot no_share"
  by (rule copier_cong [OF copier_struct
        [where dest = "\<lambda>x. (pm_Container x, pm_TimeoutSeconds x, pm_Config x, pm_DynamicConfig x,
             pm_Secrets x)"
           and build = "\<lambda>x (p, q, r, s, t). x\<lparr>pm_Container := p, pm_TimeoutSeconds := q,
             pm_Config := r, pm_DynamicConfig := s, pm_Secrets := t\<rparr>"
           and V = "\<lambda>x u. (x\<lparr>pm_Container := None, pm_TimeoutSeconds := None, pm_Config := None,
             pm_DynamicConfig := None, pm_Secrets := None\<rparr>, u)",
         OF copier_pair [OF copier_container copier_pair [OF copier_int32 copier_pair
           [OF copier_reindex [OF copier_map, of 0] copier_pair
             [OF copier_reindex [OF copier_dynamics, of 1] copier_reindex [OF copier_map, of 2]]]]]]])
     (auto simp: FencingMechanism_DeepCopyInto_def mechanism_val_def mechanism_foot_def copy_unfold)

abbreviation val_mechanisms where "val_mechanisms \<equiv> val_array mechanisms_at mechanism_val"
abbreviation foot_mechanisms where "foot_mechanisms \<equiv> foot_array mechanisms_at mechanism_foot"

lemma copier_mechanisms:
  "copier (copy_array FencingMechanism_DeepCopyInto CMechanisms mechanisms_at zero_mechanism)
     val_mechanisms foot_mechanisms (shared_array mechanisms_at no_share)"
  by (rule copier_array [OF copier_mechanism]) auto

definition method_val where
  "method_val h x =
     (x\<lparr>pt_RequireAfterSeconds := None, pt_Mechanisms := None\<rparr>,
      val_leaf int32_at h (pt_RequireAfterSeconds x), val_mechanisms h (pt_Mechanisms x))"

definition method_foot where
  "method_foot h x =
     foot_leaf h (pt_RequireAfterSeconds x) \<union> foot_mechanisms h (pt_Mechanisms x)"

lemma copier_method: "copier FencingMethod_DeepCopyInto method_val method_foot no_share"
  by (rule copier_cong [OF copier_struct
        [where dest = "\<lambda>x. (pt_RequireAfterSeconds x, pt_Mechanisms x)"
           and build = "\<lambda>x (p, q). x\<lparr>pt_RequireAfterSeconds := p, pt_Mechanisms := q\<rparr>"
           and V = "\<lambda>x u. (x\<lparr>pt_RequireAfterSeconds := None, pt_Mechanisms := None\<rparr>, u)",
         OF copier_pair [OF copier_int32 copier_mechanisms]]])
     (auto simp: FencingMethod_DeepCopyInto_def method_val_def method_foot_def copy_unfold)

abbreviation val_methods where "val_methods \<equiv> val_array methods_at method_val"
abbreviation foot_methods where "foot_methods \<equiv> foot_array methods_at method_foot"

lemma copier_methods:
  "copier (copy_array FencingMethod_DeepCopyInto CMethods methods_at zero_method)
     val_methods foot_methods (shared_array methods_at no_share)"
  by (rule copier_array [OF copier_method]) auto

definition config_val where
  "config_val h x =
     (x\<lparr>pc_NodeSelector := None, pc_Methods := None\<rparr>,
      val_leaf map_at h (pc_NodeSelector x), val_methods h (pc_Methods x))"

definition config_foot where
  "config_foot h x = foot_leaf h (pc_NodeSelector x) \<union> foot_methods h (pc_Methods x)"

lemma copier_config: "copier FencingConfig_DeepCopyInto config_val config_foot no_share"
  by (rule copier_cong [OF copier_struct
        [where dest = "\<lambda>x. (pc_NodeSelector x, pc_Methods x)"
           and build = "\<lambda>x (p, q). x\<lparr>pc_NodeSelector := p, pc_Methods := q\<rparr>"
           and V = "\<lambda>x u. (x\<lparr>pc_NodeSelector := None, pc_Methods := None\<rparr>, u)",
         OF copier_pair [OF copier_reindex [OF copier_map, of 0] copier_reindex [OF copier_methods, of 1]]]])
     (auto simp: FencingConfig_DeepCopyInto_def config_val_def config_foot_def copy_unfold)

definition spec_val where
  "spec_val h x = (x\<lparr>ps_PodList := None\<rparr>, val_leaf strings_at h (ps_PodList x))"

definition spec_foot where
  "spec_foot h x = foot_leaf h (ps_PodList x)"

lemma copier_spec: "copier FencingRequestSpec_DeepCopyInto spec_val spec_foot no_share"
  by (rule copier_cong [OF copier_struct
        [where dest = ps_PodList and build = "\<lambda>x p. x\<lparr>ps_PodList := p\<rparr>"
           and V = "\<lambda>x u. (x\<lparr>ps_PodList := None\<rparr>, u)", OF copier_strings]])
     (simp_all add: FencingRequestSpec_DeepCopyInto_def spec_val_def spec_foot_def copy_unfold)

definition status_val where
  "status_val h x =
     (x\<lparr>st_Config := None, st_ActiveMethod := None, st_ActiveJob := None, st_Updates := None\<rparr>,
      val_leaf string_at h (st_Config x), val_leaf string_at h (st_ActiveMethod x),
      val_leaf string_at h (st_ActiveJob x), val_leaf updates_at h (st_Updates x))"

definition status_foot where
  "status_foot h x =
     foot_leaf h (st_Config x) \<union> foot_leaf h (st_ActiveMethod x) \<union> foot_leaf h (st_ActiveJob x) \<union>
     foot_leaf h (st_Updates x)"

definition status_shared :: "heap \<Rightarrow> pStatus \<Rightarrow> addr set" where
  "status_shared h x = set_option (st_ActiveJob x)"

lemma copier_status: "copier FencingRequestStatus_DeepCopyInto status_val status_foot status_shared"
  by (rule copier_cong [OF copier_struct
        [where dest = "\<lambda>x. (st_Config x, st_ActiveMethod x, st_ActiveJob x, st_Updates x)"
           and build = "\<lambda>x (p, q, r, s). x\<lparr>st_Config := p, st_ActiveMethod := q, st_ActiveJob := r,
             st_Updates := s\<rparr>"
           and V = "\<lambda>x u. (x\<lparr>st_Config := None, st_ActiveMethod := None, st_ActiveJob := None,
             st_Updates := None\<rparr>, u)",
         OF copier_pair [OF copier_string copier_pair [OF copier_string copier_pair
           [OF copier_alias copier_updates]]]]])
     (auto simp: FencingRequestStatus_DeepCopyInto_def status_val_def status_foot_def
        status_shared_def copy_unfold copy_alias_def foot_leaf_def)

definition request_val where
  "request_val h x = ((pr_TypeMeta x, pr_ObjectMeta x), spec_val h (pr_Spec x), status_val h (pr_Status x))"

definition request_foot where
  "request_foot h x = spec_foot h (pr_Spec x) \<union> status_foot h (pr_Status x)"

definition request_shared where
  "request_shared h x = status_shared h (pr_Status x)"

lemma copier_request: "copier FencingRequest_DeepCopyInto request_val request_foot request_shared"
  by (rule copier_cong [OF copier_struct
        [where dest = "\<lambda>x. (pr_Spec x, pr_Status x)"
           and build = "\<lambda>x (p, q). x\<lparr>pr_Spec := p, pr_Status := q\<rparr>"
           and V = "\<lambda>x u. ((pr_TypeMeta x, pr_ObjectMeta x), u)",
         OF copier_pair [OF copier_spec copier_status]]])
     (auto simp: FencingRequest_DeepCopyInto_def request_val_def request_foot_def
        request_shared_def copy_unfold)

lemma copier_requests:
  "copier (copy_array FencingRequest_DeepCopyInto CRequests requests_at zero_request)
     (val_array requests_at request_val) (foot_array requests_at request_foot)
     (shared_array requests_at request_shared)"
  by (rule copier_array [OF copier_request]) auto

definition request_list_val where
  "request_list_val h x = (x\<lparr>pl_Items := None\<rparr>, val_array requests_at request_val h (pl_Items x))"

definition request_list_foot where
  "request_list_foot h x = foot_array requests_at request_foot h (pl_Items x)"

definition request_list_shared where
  "request_list_shared h x = shared_array requests_at request_shared h (pl_Items x)"

lemma copier_request_list:
  "copier FencingRequestList_DeepCopyInto request_list_val request_list_foot request_list_shared"
  by (rule copier_cong [OF copier_struct
        [where dest = pl_Items and build = "\<lambda>x p. x\<lparr>pl_Items := p\<rparr>"
           and V = "\<lambda>x u. (x\<lparr>pl_Items := None\<rparr>, u)", OF copier_requests]])
     (simp_all add: FencingRequestList_DeepCopyInto_def request_list_val_def request_list_foot_def
        request_list_shared_def copy_unfold)

definition set_val where
  "set_val h x = ((px_TypeMeta x, px_ObjectMeta x, px_Status x), config_val h (px_Spec x))"

definition set_foot where
  "set_foot h x = config_foot h (px_Spec x)"

lemma copier_set: "copier FencingSet_DeepCopyInto set_val set_foot no_share"
  by (rule copier_cong [OF copier_struct
        [where dest = px_Spec and build = "\<lambda>x p. x\<lparr>px_Spec := p\<rparr>"
           and V = "\<lambda>x u. ((px_TypeMeta x, px_ObjectMeta x, px_Status x), u)", OF copier_config]])
     (simp_all add: FencingSet_DeepCopyInto_def set_val_def set_foot_def copy_unfold)

lemma copier_sets:
  "copier (copy_array FencingSet_DeepCopyInto CSets sets_at zero_set)
     (val_array sets_at set_val) (foot_array sets_at set_foot) (shared_array sets_at no_share)"
  by (rule copier_array [OF copier_set]) auto

definition set_list_val where
  "set_list_val h x = (x\<lparr>pxl_Items := None\<rparr>, val_array sets_at set_val h (pxl_Items x))"

definition set_list_foot where
  "set_list_foot h x = foot_array sets_at set_foot h (pxl_Items x)"

lemma copier_set_list: "copier FencingSetList_DeepCopyInto set_list_val set_list_foot no_share"
  by (rule copier_cong [OF copier_struct
        [where dest = pxl_Items and build = "\<lambda>x p. x\<lparr>pxl_Items := p\<rparr>"
           and V = "\<lambda>x u. (x\<lparr>pxl_Items := None\<rparr>, u)", OF copier_sets]])
     (simp_all add: FencingSetList_DeepCopyInto_def set_list_val_def set_list_foot_def copy_unfold)

lemma copier_plain: "copier (\<lambda>\<rho> x h. (x, h)) (\<lambda>h x. x) (\<lambda>h x. {}) no_share"
  by unfold_locales (auto simp: no_share_def)

subsection \<open>Pointers to structs\<close>

lemma separating_new:
  assumes "copier c v f no_share" "\<And>x. get (Some (mk x)) = x" "\<And>x m. mk x \<noteq> CMap m"
  shows "separating (deep_copy c mk get zero) (val_new get v) (foot_new get f) no_share"
proof (rule separating.intro)
  show "copier (deep_copy c mk get zero) (val_new get v) (foot_new get f) no_share"
    by (rule copier_cong [OF copier_new [OF assms]]) (simp_all add: no_share_def)
qed (simp add: separating_axioms_def no_share_def)

interpretation dynamic_copy: separating FencingDynamicConfig_DeepCopy
    "val_new dynamic_at dynamic_val" "foot_new dynamic_at dynamic_foot" no_share
  unfolding FencingDynamicConfig_DeepCopy_def by (rule separating_new [OF copier_dynamic]) auto

interpretation mechanism_copy: separating FencingMechanism_DeepCopy
    "val_new mechanism_at mechanism_val" "foot_new mechanism_at mechanism_foot" no_share
  unfolding FencingMechanism_DeepCopy_def by (rule separating_new [OF copier_mechanism]) auto

interpretation method_copy: separating FencingMethod_DeepCopy
    "val_new method_at method_val" "foot_new method_at method_foot" no_share
  unfolding FencingMethod_DeepCopy_def by (rule separating_new [OF copier_method]) auto

interpretation config_copy: separating FencingConfig_DeepCopy
    "val_new config_at config_val" "foot_new config_at config_foot" no_share
  unfolding FencingConfig_DeepCopy_def by (rule separating_new [OF copier_config]) auto

interpretation spec_copy: separating FencingRequestSpec_DeepCopy
    "val_new spec_at spec_val" "foot_new spec_at spec_foot" no_share
  unfolding FencingRequestSpec_DeepCopy_def by (rule separating_new [OF copier_spec]) auto

interpretation update_copy: separating FencingRequestStatusUpdate_DeepCopy
    "val_new update_at (\<lambda>h x. x)" "foot_new update_at (\<lambda>h x. {})" no_share
  unfolding FencingRequestStatusUpdate_DeepCopy_def
  by (rule separating_new [OF copier_cong [OF copier_plain]])
     (auto simp: FencingRequestStatusUpdate_DeepCopyInto_def)

interpretation set_status_copy: separating FencingSetStatus_DeepCopy
    "val_new set_status_at (\<lambda>h x. x)" "foot_new set_status_at (\<lambda>h x. {})" no_share
  unfolding FencingSetStatus_DeepCopy_def
  by (rule separating_new [OF copier_cong [OF copier_plain]])
     (simp_all add: FencingSetStatus_DeepCopyInto_def, metis FencingSetStatus.exhaust)

interpretation method_status_copy: separating FencingMethodStatus_DeepCopy
    "val_new method_status_at (\<lambda>h x. x)" "foot_new method_status_at (\<lambda>h x. {})" no_share
  unfolding FencingMethodStatus_DeepCopy_def
  by (rule separating_new [OF copier_cong [OF copier_plain]])
     (simp_all add: FencingMethodStatus_DeepCopyInto_def, metis FencingMethodStatus.exhaust)

interpretation set_copy: separating FencingSet_DeepCopy
    "val_new set_at set_val" "foot_new set_at set_foot" no_share
  unfolding FencingSet_DeepCopy_def by (rule separating_new [OF copier_set]) auto

interpretation set_list_copy: separating FencingSetList_DeepCopy
    "val_new set_list_at set_list_val" "foot_new set_list_at set_list_foot" no_share
  unfolding FencingSetList_DeepCopy_def by (rule separating_new [OF copier_set_list]) auto

interpretation status_copy: copier FencingRequestStatus_DeepCopy
    "val_new status_at status_val" "foot_new status_at status_foot" "shared_new status_at status_shared"
  unfolding FencingRequestStatus_DeepCopy_def by (rule copier_new [OF copier_status]) auto

interpretation request_copy: copier FencingRequest_DeepCopy
    "val_new request_at request_val" "foot_new request_at request_foot"
    "shared_new request_at request_shared"
  unfolding FencingRequest_DeepCopy_def by (rule copier_new [OF copier_request]) auto

interpretation request_list_copy: copier FencingRequestList_DeepCopy
    "val_new request_list_at request_list_val" "foot_new request_list_at request_list_foot"
    "shared_new request_list_at request_list_shared"
  unfolding FencingRequestList_DeepCopy_def by (rule copier_new [OF copier_request_list]) auto

lemmas read_defs = val_new_def foot_new_def shared_new_def config_val_def config_foot_def
  method_val_def method_foot_def mechanism_val_def mechanism_foot_def dynamic_val_def
  dynamic_foot_def request_val_def request_foot_def request_shared_def status_val_def
  status_foot_def status_shared_def spec_val_def spec_foot_def val_array_def foot_array_def
  val_leaf_def foot_leaf_def

subsection \<open>The values as the records of \<open>Types\<close>\<close>

definition list_of :: "'a list option \<Rightarrow> 'a list" where
  "list_of xs = (case xs of None \<Rightarrow> [] | Some ys \<Rightarrow> ys)"

fun dynamic_abs :: "pDynamic \<times> strmap option \<Rightarrow> FencingDynamicConfig" where
  "dynamic_abs (x, m) = \<lparr>Field = pd_Field x, Default = pd_Default x, Values = m\<rparr>"

fun mechanism_abs where
  "mechanism_abs (x, c, t, cfg, ds, s) =
     \<lparr>mech_Container = c, ArgumentFormat = pm_ArgumentFormat x, PassTargetAs = pm_PassTargetAs x,
      TimeoutSeconds = t, mech_Config = cfg, DynamicConfig = map dynamic_abs (list_of ds),
      Secrets = s\<rparr>"

fun method_abs where
  "method_abs (x, r, ms) =
     \<lparr>fm_Name = pt_Name x, StopOnSuccess = pt_StopOnSuccess x, RequireAfterSeconds = r,
      Retries = pt_Retries x, Mechanisms = map mechanism_abs (list_of ms)\<rparr>"

fun config_abs where
  "config_abs (x, sel, ms) =
     \<lparr>cfg_ObjectMeta = pc_ObjectMeta x, NodeSelector = sel, Methods = map method_abs (list_of ms)\<rparr>"

fun request_abs where
  "request_abs ((t, m), (s, pods), (st, c, am, aj, us)) =
     \<lparr>fr_TypeMeta = t, fr_ObjectMeta = m,
      Spec = \<lparr>Target = ps_Target s, Origin = ps_Origin s, Operation = ps_Operation s,
              PodList = list_of pods, ValidAfter = ps_ValidAfter s\<rparr>,
      Status = \<lparr>Complete = st_Complete st, Result = st_Result st, Config = c, ActiveMethod = am,
                ActiveJob = aj, Updates = list_of us\<rparr>\<rparr>"

text \<open>What a pointer to a configuration or a request reads as, and the addresses it reaches.\<close>

definition read_config :: "heap \<Rightarrow> addr option \<Rightarrow> FencingConfig option" where
  "read_config h p = map_option config_abs (val_new config_at config_val h p)"

definition reach_config :: "heap \<Rightarrow> addr option \<Rightarrow> addr set" where
  "reach_config = foot_new config_at config_foot"

definition read_request :: "heap \<Rightarrow> addr option \<Rightarrow> FencingRequest option" where
  "read_request h p = map_option request_abs (val_new request_at request_val h p)"

definition reach_request :: "heap \<Rightarrow> addr option \<Rightarrow> addr set" where
  "reach_request = foot_new request_at request_foot"

definition active_job_of :: "heap \<Rightarrow> addr \<Rightarrow> addr option" where
  "active_job_of h a = st_ActiveJob (pr_Status (request_at (look h a)))"

lemma active_job_copied:
  assumes "FencingRequest_DeepCopy \<rho> (Some a) h = (q, h')" "heap_ok h"
    "reach_request h (Some a) \<subseteq> {..<length h}"
  shows "q = Some (length h) \<and> active_job_of h' (length h) = active_job_of h a"
proof -
  define h1 where "h1 = h @ [CRequest zero_request]"
  have a: "a < length h" using assms(3) by (simp add: reach_request_def foot_new_def)
  obtain y h2 where c: "FencingRequest_DeepCopyInto \<rho> (request_at (look h a)) h1 = (y, h2)" by fastforce
  have q: "q = Some (length h)" "h' = h2[length h := CRequest y]"
    using assms(1) a c
    by (simp_all add: FencingRequest_DeepCopy_def deep_copy_def alloc_def h1_def)
  have ok: "heap_ok h1" using assms(2) by (simp add: h1_def) (simp add: heap_ok_def)
  have "request_foot h1 (request_at (look h a)) = request_foot h (request_at (look h a))"
    and r: "request_foot h (request_at (look h a)) \<subseteq> {..<length h}"
    using copier.stable [OF copier_request, of h] assms(3)
    by (auto simp: h1_def reach_request_def foot_new_def)
  then have "request_foot h1 (request_at (look h a)) \<subseteq> {..<length h1}" by (auto simp: h1_def)
  from copier.copies [OF copier_request, OF ok this c] have "length h < length h2"
    by (auto simp: h1_def)
  moreover have "st_ActiveJob (pr_Status y) = st_ActiveJob (pr_Status (request_at (look h a)))"
    using c by (auto simp: FencingRequest_DeepCopyInto_def FencingRequestStatus_DeepCopyInto_def
        Let_def split_beta)
  ultimately show ?thesis by (simp add: q active_job_of_def look_update)
qed

lemma active_job_reached: "set_option (active_job_of h a) \<subseteq> reach_request h (Some a)"
  by (auto simp: active_job_of_def reach_request_def foot_new_def request_foot_def status_foot_def
      foot_leaf_def)

lemma active_job_read:
  "active_job_of h a = Some j \<Longrightarrow> look h j = Some (CString s) \<Longrightarrow>
   map_option (ActiveJob \<circ> Status) (read_request h (Some a)) = Some (Some s)"
  by (simp add: active_job_of_def read_request_def val_new_def request_val_def status_val_def
      spec_val_def val_leaf_def)

subsection \<open>Lists and objects\<close>

text \<open>Of a list of requests a copy shares at most the active jobs of its items.\<close>

lemma FencingRequestList_DeepCopy_shares:
  assumes "heap_ok h" and "foot_new request_list_at request_list_foot h p \<subseteq> {..<length h}"
    and "FencingRequestList_DeepCopy \<rho> p h = (q, h')"
  shows "foot_new request_list_at request_list_foot h' p \<inter> foot_new request_list_at request_list_foot h' q
    \<subseteq> (\<Union>r \<in> set (case p of None \<Rightarrow> [] | Some a \<Rightarrow>
          (case pl_Items (request_list_at (look h a)) of None \<Rightarrow> [] | Some b \<Rightarrow> requests_at (look h b))).
        set_option (st_ActiveJob (pr_Status r)))"
  using request_list_copy.meets [OF assms]
  by (auto simp: shared_new_def request_list_shared_def shared_array_def request_shared_def
      status_shared_def split: option.splits)

lemma deep_copy_nil: "fst (deep_copy c mk get zero \<rho> p h) = None \<longleftrightarrow> p = None"
  by (cases p) (simp_all add: deep_copy_def split_beta Let_def)

lemma as_object_nil:
  "fst (as_object T ch) = (if fst ch = None then None else Some (T, fst ch))"
  by (simp add: as_object_def split_beta)

text \<open>The copied object is the \<open>nil\<close> interface for \<open>nil\<close>, and never a \<open>nil\<close> pointer with a type.\<close>

lemma DeepCopyObject_nil:
  "fst (FencingConfig_DeepCopyObject \<rho> p h) = None \<longleftrightarrow> p = None"
  "fst (FencingRequest_DeepCopyObject \<rho> p h) = None \<longleftrightarrow> p = None"
  "fst (FencingRequestList_DeepCopyObject \<rho> p h) = None \<longleftrightarrow> p = None"
  "fst (FencingSet_DeepCopyObject \<rho> p h) = None \<longleftrightarrow> p = None"
  "fst (FencingSetList_DeepCopyObject \<rho> p h) = None \<longleftrightarrow> p = None"
  by (simp_all add: FencingConfig_DeepCopyObject_def FencingRequest_DeepCopyObject_def
      FencingRequestList_DeepCopyObject_def FencingSet_DeepCopyObject_def
      FencingSetList_DeepCopyObject_def as_object_nil FencingConfig_DeepCopy_def
      FencingRequest_DeepCopy_def FencingRequestList_DeepCopy_def FencingSet_DeepCopy_def
      FencingSetList_DeepCopy_def deep_copy_nil)

subsection \<open>Properties\<close>

text \<open>C24: A deep copy of a fencing configuration reads as the original and shares no address with
  it, so that a write through either one, of any value, leaves the other as it was. (Under a store
  whose maps have distinct keys and in which the configuration is allocated; in any map order.)\<close>

theorem FencingConfig_DeepCopy_separates:
  assumes "heap_ok h" and "reach_config h p \<subseteq> {..<length h}"
    and "FencingConfig_DeepCopy \<rho> p h = (q, h')"
  shows "read_config h' q = read_config h p \<and> reach_config h' p \<inter> reach_config h' q = {} \<and>
    (\<forall>a c. a \<in> reach_config h' q \<longrightarrow> read_config (h'[a := c]) p = read_config h p) \<and>
    (\<forall>a c. a \<in> reach_config h' p \<longrightarrow> read_config (h'[a := c]) q = read_config h p)"
  using config_copy.copies [OF assms(1) assms(2) [unfolded reach_config_def] assms(3)]
    config_copy.disjoint [OF assms(1) assms(2) [unfolded reach_config_def] assms(3)]
    config_copy.writes_apart [OF assms(1) assms(2) [unfolded reach_config_def] assms(3)]
  unfolding reach_config_def read_config_def by simp

definition sample_store :: heap where
  "sample_store =
     [CConfig (zero_config\<lparr>pc_NodeSelector := Some 1, pc_Methods := Some 2\<rparr>),
      CMap [(''zone'', ''a'')],
      CMethods [zero_method\<lparr>pt_Name := ''ipmi'', pt_RequireAfterSeconds := Some 3, pt_Mechanisms := Some 4\<rparr>],
      CInt32 30,
      CMechanisms [zero_mechanism\<lparr>pm_Container := Some 5, pm_DynamicConfig := Some 6\<rparr>],
      CContainer zero_container,
      CDynamics [zero_dynamic\<lparr>pd_Field := ''ip'', pd_Values := Some 7\<rparr>],
      CMap [(''n1'', ''10.0.0.1'')],
      CRequest (zero_request\<lparr>pr_Spec := zero_spec\<lparr>ps_Target := ''n1''\<rparr>,
        pr_Status := zero_status\<lparr>st_ActiveJob := Some 9\<rparr>\<rparr>),
      CString ''fence-n1'']"

lemma sample_store_ok: "heap_ok sample_store"
  by (auto simp: heap_ok_def sample_store_def m_ok_def)

lemma sample_store_length: "length sample_store = 10"
  by (simp add: sample_store_def)

lemma sample_store_look:
  "look sample_store 0 = Some (CConfig (zero_config\<lparr>pc_NodeSelector := Some 1, pc_Methods := Some 2\<rparr>))"
  "look sample_store 2 = Some (CMethods [zero_method\<lparr>pt_Name := ''ipmi'',
     pt_RequireAfterSeconds := Some 3, pt_Mechanisms := Some 4\<rparr>])"
  "look sample_store 4 =
     Some (CMechanisms [zero_mechanism\<lparr>pm_Container := Some 5, pm_DynamicConfig := Some 6\<rparr>])"
  "look sample_store 6 = Some (CDynamics [zero_dynamic\<lparr>pd_Field := ''ip'', pd_Values := Some 7\<rparr>])"
  "look sample_store 8 = Some (CRequest (zero_request\<lparr>pr_Spec := zero_spec\<lparr>ps_Target := ''n1''\<rparr>,
        pr_Status := zero_status\<lparr>st_ActiveJob := Some 9\<rparr>\<rparr>))"
  unfolding look_def sample_store_length by (simp_all add: sample_store_def)

lemma sample_store_reach:
  "reach_config sample_store (Some 0) = {0, 1, 2, 3, 4, 5, 6, 7}"
  "reach_request sample_store (Some 8) = {8, 9}"
  by (auto simp: reach_config_def reach_request_def read_defs sample_store_look zero_config_def
      zero_method_def zero_mechanism_def zero_dynamic_def zero_request_def zero_spec_def
      zero_status_def)

theorem FencingConfig_DeepCopy_separates_witness:
  "case FencingConfig_DeepCopy in_order (Some 0) sample_store of (q, h') \<Rightarrow>
     read_config h' q = read_config sample_store (Some 0)"
proof -
  obtain q h' where c: "FencingConfig_DeepCopy in_order (Some 0) sample_store = (q, h')" by fastforce
  show ?thesis
    using FencingConfig_DeepCopy_separates [OF sample_store_ok _ c]
    by (simp add: c sample_store_reach sample_store_length)
qed

text \<open>C32: A deep copy of a fencing request reads as the original, but the two are not apart: what
  both reach is exactly the cell of the active job, so that writing a job's name through the copy
  changes the request it was copied from.\<close>

theorem FencingRequest_DeepCopy_shares_active_job:
  assumes "heap_ok h" and "reach_request h (Some a) \<subseteq> {..<length h}"
    and "FencingRequest_DeepCopy \<rho> (Some a) h = (q, h')"
  shows "read_request h' q = read_request h (Some a) \<and>
    reach_request h' (Some a) \<inter> reach_request h' q = set_option (active_job_of h a) \<and>
    (\<forall>j s. active_job_of h a = Some j \<longrightarrow> j \<noteq> a \<longrightarrow>
       map_option (ActiveJob \<circ> Status) (read_request (h'[j := CString s]) (Some a)) = Some (Some s))"
proof -
  note r = assms(2) [unfolded reach_request_def]
  have q: "q = Some (length h)" "active_job_of h' (length h) = active_job_of h a"
    using active_job_copied [OF assms(3,1,2)] by simp_all
  obtain cs where cs: "h' = h @ cs" using request_copy.copies [OF assms(1) r assms(3)] by blast
  have a: "a < length h" using assms(2) by (simp add: reach_request_def foot_new_def)
  then have aj: "active_job_of h' a = active_job_of h a" by (simp add: cs active_job_of_def)
  have "read_request h' q = read_request h (Some a)"
    using request_copy.copies [OF assms(1) r assms(3)] unfolding read_request_def by metis
  moreover have "reach_request h' (Some a) \<inter> reach_request h' q = set_option (active_job_of h a)"
  proof
    show "reach_request h' (Some a) \<inter> reach_request h' q \<subseteq> set_option (active_job_of h a)"
      using request_copy.meets [OF assms(1) r assms(3)]
      unfolding reach_request_def shared_new_def request_shared_def status_shared_def active_job_of_def
      by simp
    show "set_option (active_job_of h a) \<subseteq> reach_request h' (Some a) \<inter> reach_request h' q"
      using active_job_reached [of h' a] active_job_reached [of h' "length h"] by (simp add: q aj)
  qed
  moreover have "map_option (ActiveJob \<circ> Status) (read_request (h'[j := CString s]) (Some a)) =
      Some (Some s)" if j: "active_job_of h a = Some j" "j \<noteq> a" for j s
  proof (rule active_job_read)
    have "j \<in> reach_request h (Some a)" using active_job_reached [of h a] j(1) by auto
    then have "j < length h'" using assms(2) by (auto simp: cs)
    then show "look (h'[j := CString s]) j = Some (CString s)" by (simp add: look_update)
    show "active_job_of (h'[j := CString s]) a = Some j"
      using j aj by (simp add: active_job_of_def look_update)
  qed
  ultimately show ?thesis by blast
qed

theorem FencingRequest_DeepCopy_shares_active_job_witness:
  "case FencingRequest_DeepCopy in_order (Some 8) sample_store of (q, h') \<Rightarrow>
     9 \<in> reach_request h' (Some 8) \<inter> reach_request h' q"
proof -
  obtain q h' where c: "FencingRequest_DeepCopy in_order (Some 8) sample_store = (q, h')" by fastforce
  have "active_job_of sample_store 8 = Some 9"
    by (simp add: active_job_of_def sample_store_look)
  then have "reach_request h' (Some 8) \<inter> reach_request h' q = {9}"
    using FencingRequest_DeepCopy_shares_active_job [OF sample_store_ok _ c]
    by (simp add: sample_store_reach sample_store_length)
  then show ?thesis by (simp add: c) blast
qed

end
