(* ===== verification/Logging.thy ===== *)
theory Logging
  imports Prelude
begin

section \<open>Logging of objects (pkg/util/logging.go)\<close>

text \<open>
  \<open>JsonLogObject\<close> writes an object to the log, a line of its indented JSON at a time, and
  \<open>Version\<close> of \<open>cmd/fencing-operator/main.go\<close> logs the versions in use. The log is the list of the
  lines written so far; \<open>json.MarshalIndent\<close> is the argument \<open>marshal\<close>, which returns bytes and an
  error, and the runtime's versions are arguments. The models of the handlers leave their log lines
  out, since nothing reads the log back.
\<close>

datatype level = Info | ErrorLevel

type_synonym log = "(level \<times> string) list"

definition logrus_Info :: "string \<Rightarrow> log \<Rightarrow> log" where
  "logrus_Info msg l = l @ [(Info, msg)]"

definition logrus_Error :: "string \<Rightarrow> log \<Rightarrow> log" where
  "logrus_Error msg l = l @ [(ErrorLevel, msg)]"

definition newline :: char where
  "newline = CHR 0x0A"

fun info_loop :: "string list \<Rightarrow> log \<Rightarrow> log" where
  "info_loop [] l = l"
| "info_loop (m # ms) l = info_loop ms (logrus_Info m l)"

definition JsonLogObject :: "('a \<Rightarrow> string \<times> error option) \<Rightarrow> string \<Rightarrow> 'a \<Rightarrow> log \<Rightarrow> log" where
  "JsonLogObject marshal title spec l =
     (let (specBytes, err) = marshal spec;
          l1 = (if err \<noteq> None
                then logrus_Error (''failed to marshal spec for '' @ [CHR 0x27] @ title @ [CHR 0x27] @
                       '': '' @ fmt_err err) l
                else l);
          l2 = logrus_Info title l1
      in info_loop (split_on newline specBytes) l2)"

definition Version_log :: "string \<Rightarrow> string \<Rightarrow> string \<Rightarrow> string \<Rightarrow> log \<Rightarrow> log" where
  "Version_log go_version goos goarch sdk_version l =
     logrus_Info (''operator-sdk Version: '' @ sdk_version)
       (logrus_Info (''Go OS/Arch: '' @ goos @ ''/'' @ goarch)
         (logrus_Info (''Go Version: '' @ go_version) l))"

subsection \<open>What is logged\<close>

lemma info_loop_eq: "info_loop ms l = l @ map (Pair Info) ms"
  by (induction ms l rule: info_loop.induct) (simp_all add: logrus_Info_def)

lemma join_split: "join_with [c] (split_on c s) = s"
proof (induction s)
  case (Cons x xs)
  then show ?case
    using split_on_not_Nil [of c xs]
    by (cases "split_on c xs" rule: list.exhaust; cases "tl (split_on c xs)")
      (auto split: list.splits)
qed simp

lemma split_on_lines: "\<forall>m \<in> set (split_on c s). c \<notin> set m"
  by (induction s) (auto split: list.splits)

text \<open>The lines an operation adds to the log.\<close>

definition logged :: "log \<Rightarrow> log \<Rightarrow> log" where
  "logged l l' = drop (length l) l'"

text \<open>An object that can be marshalled is logged without loss: the operation appends the title
  and then lines without line breaks, all at level info, and joining these by line breaks gives
  the JSON text back. One that cannot is reported by one error line first.\<close>

theorem JsonLogObject_lossless:
  "\<exists>lines. logged l (JsonLogObject marshal title spec l) =
     (case snd (marshal spec) of
        None \<Rightarrow> []
      | Some e \<Rightarrow> [(ErrorLevel, ''failed to marshal spec for '' @ [CHR 0x27] @ title @ [CHR 0x27] @
                      '': '' @ err_text e)]) @
     (Info, title) # map (Pair Info) lines \<and>
     join_with [newline] lines = fst (marshal spec) \<and> list_all (\<lambda>m. newline \<notin> set m) lines \<and>
     take (length l) (JsonLogObject marshal title spec l) = l"
proof (intro exI conjI)
  let ?lines = "split_on newline (fst (marshal spec))"
  show "logged l (JsonLogObject marshal title spec l) =
     (case snd (marshal spec) of
        None \<Rightarrow> []
      | Some e \<Rightarrow> [(ErrorLevel, ''failed to marshal spec for '' @ [CHR 0x27] @ title @ [CHR 0x27] @
                      '': '' @ err_text e)]) @
     (Info, title) # map (Pair Info) ?lines"
    by (simp add: logged_def JsonLogObject_def info_loop_eq logrus_Info_def logrus_Error_def
        fmt_err_def split_beta Let_def split: option.split)
  show "join_with [newline] ?lines = fst (marshal spec)" by (rule join_split)
  show "list_all (\<lambda>m. newline \<notin> set m) ?lines" using split_on_lines by (simp add: list_all_iff)
  show "take (length l) (JsonLogObject marshal title spec l) = l"
    by (simp add: JsonLogObject_def info_loop_eq logrus_Info_def logrus_Error_def split_beta Let_def)
qed

end
