(* ===== verification/Scheme.thy ===== *)
theory Scheme
  imports Bootstrap
begin

section \<open>Registration of the types (pkg/apis/fencing/v1alpha1/register.go)\<close>

text \<open>
  The types that decoders know are entered in a scheme, a map from group, version and kind to the
  Go type. \<open>AddKnownTypes\<close> is that of the vendored \<open>apimachinery/pkg/runtime/scheme.go\<close> on the map
  it fills; a type is its name with its package. \<open>metav1.AddToGroupVersion\<close>, which enters the types
  of the API machinery itself, is the argument \<open>add_group\<close>.
\<close>

record GVK =
  gvk_Group :: string
  gvk_Version :: string
  gvk_Kind :: string

record go_type =
  package :: string
  type_name :: string

type_synonym scheme = "GVK \<Rightarrow> go_type option"

definition AddKnownTypeWithName :: "GVK \<Rightarrow> go_type \<Rightarrow> scheme \<Rightarrow> panic + scheme" where
  "AddKnownTypeWithName gvk t s =
     (if length (gvk_Version gvk) = 0 then Inl (Explicit ''version is required on all types'')
      else if s gvk \<noteq> None \<and> s gvk \<noteq> Some t
      then Inl (Explicit ''Double registration of different types'')
      else Inr (s(gvk \<mapsto> t)))"

fun AddKnownTypes :: "string \<Rightarrow> string \<Rightarrow> go_type list \<Rightarrow> scheme \<Rightarrow> panic + scheme" where
  "AddKnownTypes grp ver [] s = Inr s"
| "AddKnownTypes grp ver (t # ts) s =
     (case AddKnownTypeWithName \<lparr>gvk_Group = grp, gvk_Version = ver, gvk_Kind = type_name t\<rparr> t s of
        Inl p \<Rightarrow> Inl p
      | Inr s1 \<Rightarrow> AddKnownTypes grp ver ts s1)"

definition api_type :: "string \<Rightarrow> go_type" where
  "api_type n = \<lparr>package = ''github.com/beekhof/fencing-operator/pkg/apis/fencing/v1alpha1'', type_name = n\<rparr>"

definition SchemeGroupVersion :: "string \<Rightarrow> GVK" where
  "SchemeGroupVersion k = \<lparr>gvk_Group = groupName, gvk_Version = version, gvk_Kind = k\<rparr>"

definition addKnownTypes ::
    "(string \<Rightarrow> string \<Rightarrow> scheme \<Rightarrow> panic + scheme) \<Rightarrow> scheme \<Rightarrow> panic + (error option \<times> scheme)" where
  "addKnownTypes add_group s =
     (case AddKnownTypes groupName version [api_type ''FencingRequest'', api_type ''FencingRequestList''] s of
        Inl p \<Rightarrow> Inl p
      | Inr s1 \<Rightarrow>
          (case add_group groupName version s1 of
             Inl p \<Rightarrow> Inl p
           | Inr s2 \<Rightarrow> Inr (None, s2)))"

text \<open>\<open>AddToScheme\<close> of a \<open>SchemeBuilder\<close>: its functions in order, up to the first error.\<close>

fun AddToScheme :: "(scheme \<Rightarrow> panic + (error option \<times> scheme)) list \<Rightarrow> scheme \<Rightarrow>
    panic + (error option \<times> scheme)" where
  "AddToScheme [] s = Inr (None, s)"
| "AddToScheme (f # fs) s =
     (case f s of
        Inl p \<Rightarrow> Inl p
      | Inr (Some e, s1) \<Rightarrow> Inr (Some e, s1)
      | Inr (None, s1) \<Rightarrow> AddToScheme fs s1)"

text \<open>\<open>init\<close>: the package's builder has one function; the SDK drops the error.\<close>

definition register_init ::
    "(string \<Rightarrow> string \<Rightarrow> scheme \<Rightarrow> panic + scheme) \<Rightarrow> scheme \<Rightarrow> panic + scheme" where
  "register_init add_group s =
     (case AddToScheme [addKnownTypes add_group] s of
        Inl p \<Rightarrow> Inl p
      | Inr (err, s1) \<Rightarrow> Inr s1)"

text \<open>The API machinery's own types never replace a type that is already there.\<close>

definition only_adds :: "(string \<Rightarrow> string \<Rightarrow> scheme \<Rightarrow> panic + scheme) \<Rightarrow> bool" where
  "only_adds add_group \<longleftrightarrow> (\<forall>g v s. \<exists>s'. add_group g v s = Inr s' \<and> s \<subseteq>\<^sub>m s')"

subsection \<open>What is registered\<close>

definition clash :: "scheme \<Rightarrow> bool" where
  "clash s \<longleftrightarrow> (\<exists>n \<in> {''FencingRequest'', ''FencingRequestList''}.
     s (SchemeGroupVersion n) \<notin> {None, Some (api_type n)})"

lemma register_step:
  "AddKnownTypes groupName version (api_type n # ts) s =
     (if s (SchemeGroupVersion n) \<notin> {None, Some (api_type n)}
      then Inl (Explicit ''Double registration of different types'')
      else AddKnownTypes groupName version ts (s(SchemeGroupVersion n \<mapsto> api_type n)))"
  by (auto simp: AddKnownTypeWithName_def SchemeGroupVersion_def version_def api_type_def)

lemma gvk_eq [simp]: "SchemeGroupVersion m = SchemeGroupVersion n \<longleftrightarrow> m = n"
  by (simp add: SchemeGroupVersion_def)

lemma register_both:
  "AddKnownTypes groupName version [api_type ''FencingRequest'', api_type ''FencingRequestList''] s =
     (if clash s then Inl (Explicit ''Double registration of different types'')
      else Inr (s(SchemeGroupVersion ''FencingRequest'' \<mapsto> api_type ''FencingRequest'',
                  SchemeGroupVersion ''FencingRequestList'' \<mapsto> api_type ''FencingRequestList'')))"
  unfolding register_step by (auto simp: clash_def)

text \<open>Registering the types fails only by a panic, and that exactly when the scheme already
  has another Go type under the kind of a request or of a request list; otherwise the two kinds
  decode to their types, no other entry is changed, and registering them once more does not
  panic. (The API machinery's own registration never replaces an entry.)\<close>

theorem register_init_registers:
  assumes "only_adds add_group"
  shows "if clash s then \<exists>p. register_init add_group s = Inl p
    else \<exists>s'. register_init add_group s = Inr s' \<and>
      s' (SchemeGroupVersion ''FencingRequest'') = Some (api_type ''FencingRequest'') \<and>
      s' (SchemeGroupVersion ''FencingRequestList'') = Some (api_type ''FencingRequestList'') \<and>
      s \<subseteq>\<^sub>m s' \<and> \<not> clash s'"
proof (cases "clash s")
  case True
  then show ?thesis by (simp add: register_init_def addKnownTypes_def register_both del: AddKnownTypes.simps)
next
  case False
  let ?s1 = "s(SchemeGroupVersion ''FencingRequest'' \<mapsto> api_type ''FencingRequest'',
      SchemeGroupVersion ''FencingRequestList'' \<mapsto> api_type ''FencingRequestList'')"
  obtain s' where s': "add_group groupName version ?s1 = Inr s'" "?s1 \<subseteq>\<^sub>m s'"
    using assms unfolding only_adds_def by blast
  have r: "register_init add_group s = Inr s'"
    using False by (simp add: register_init_def addKnownTypes_def register_both s'(1) del: AddKnownTypes.simps)
  have k: "s' (SchemeGroupVersion ''FencingRequest'') = Some (api_type ''FencingRequest'')"
    "s' (SchemeGroupVersion ''FencingRequestList'') = Some (api_type ''FencingRequestList'')"
    using s'(2) by (auto simp: map_le_def)
  have "s \<subseteq>\<^sub>m ?s1" using False by (auto simp: map_le_def clash_def)
  then have "s \<subseteq>\<^sub>m s'" using s'(2) map_le_trans by blast
  with False r k show ?thesis by (simp add: clash_def)
qed

theorem register_init_registers_witness:
  "\<exists>s'. register_init (\<lambda>g v s. Inr s) Map.empty = Inr s' \<and>
     s' (SchemeGroupVersion ''FencingRequest'') = Some (api_type ''FencingRequest'')"
proof -
  have "only_adds (\<lambda>g v s. Inr s)" by (simp add: only_adds_def)
  from register_init_registers [OF this, of Map.empty] show ?thesis by (auto simp: clash_def)
qed

end
