(* ===== verification/Decode.thy ===== *)
theory Decode
  imports Wire
begin

section \<open>Decoding into an object (action.Create, action.Update, query.Get)\<close>

text \<open>
  The operator SDK decodes the server's answer into the very object that was sent
  (\<open>UnstructuredIntoRuntimeObject\<close>), by the vendored \<open>json-iterator\<close>. A field that the answer
  leaves out keeps its value, \<open>null\<close> clears a string, a pointer or a slice and leaves a number, a
  flag or a struct as it is, and the elements of a slice are decoded into the elements that
  stand in their place. The model leaves out what lies beyond the length of a slice and what a
  decoding that fails has written before it fails. Into a zero struct this is \<open>unmarshal_*\<close> of
  \<open>Wire\<close>.
\<close>

subsection \<open>Fields\<close>

fun string_into :: "json option \<Rightarrow> string \<Rightarrow> string option" where
  "string_into None old = Some old"
| "string_into (Some JNull) old = Some []"
| "string_into (Some (JStr s)) old = Some s"
| "string_into _ old = None"

text \<open>
  A pointer to a string: the decoder writes a string into the old target if there is one, and into
  new memory otherwise; the value of the field is the same. Whether the old target is also someone
  else's, a cached configuration's, is not the decoder's to know: \<open>action_Update\<close> of \<open>Cluster\<close>
  passes the write on to the cache.
\<close>

fun pointer_into :: "json option \<Rightarrow> string option \<Rightarrow> string option option" where
  "pointer_into None old = Some old"
| "pointer_into (Some JNull) old = Some None"
| "pointer_into (Some (JStr s)) old = Some (Some s)"
| "pointer_into _ old = None"

fun bool_into :: "json option \<Rightarrow> bool \<Rightarrow> bool option" where
  "bool_into None old = Some old"
| "bool_into (Some JNull) old = Some old"
| "bool_into (Some (JBool b)) old = Some b"
| "bool_into _ old = None"

fun int64_into :: "json option \<Rightarrow> 64 word \<Rightarrow> 64 word option" where
  "int64_into None old = Some old"
| "int64_into (Some JNull) old = Some old"
| "int64_into (Some (JInt i)) old =
     (if - (2 ^ 63) \<le> i \<and> i < 2 ^ 63 then Some (word_of_int i) else None)"
| "int64_into _ old = None"

fun elements_into :: "(json \<Rightarrow> 'a \<Rightarrow> 'a option) \<Rightarrow> 'a \<Rightarrow> json list \<Rightarrow> 'a list \<Rightarrow> 'a list option" where
  "elements_into dec zero [] olds = Some []"
| "elements_into dec zero (v # vs) olds =
     (case dec v (case olds of [] \<Rightarrow> zero | x # _ \<Rightarrow> x) of
        None \<Rightarrow> None
      | Some y \<Rightarrow> map_option ((#) y) (elements_into dec zero vs (tl olds)))"

fun list_into :: "(json \<Rightarrow> 'a \<Rightarrow> 'a option) \<Rightarrow> 'a \<Rightarrow> json option \<Rightarrow> 'a list \<Rightarrow> 'a list option" where
  "list_into dec zero None old = Some old"
| "list_into dec zero (Some JNull) old = Some []"
| "list_into dec zero (Some (JArr vs)) old = elements_into dec zero vs old"
| "list_into dec zero _ old = None"

subsection \<open>The types\<close>

definition zero_update :: FencingRequestStatusUpdate where
  "zero_update = \<lparr>Timestamp = [], Method = [], Message = [], Output = [], Error = []\<rparr>"

definition zero_spec :: FencingRequestSpec where
  "zero_spec = \<lparr>Target = [], Origin = [], Operation = [], PodList = [], ValidAfter = 0\<rparr>"

definition zero_request :: FencingRequest where
  "zero_request = \<lparr>fr_TypeMeta = \<lparr>Kind = [], APIVersion = []\<rparr>, fr_ObjectMeta = empty_meta,
     Spec = zero_spec, Status = empty_status\<rparr>"

definition unmarshal_update_into ::
    "json \<Rightarrow> FencingRequestStatusUpdate \<Rightarrow> FencingRequestStatusUpdate option" where
  "unmarshal_update_into j u =
     do { kvs \<leftarrow> members j;
          timestamp \<leftarrow> string_into (json_field update_tags ''timestamp'' kvs) (Timestamp u);
          method \<leftarrow> string_into (json_field update_tags ''method'' kvs) (Method u);
          message \<leftarrow> string_into (json_field update_tags ''message'' kvs) (Message u);
          output \<leftarrow> string_into (json_field update_tags ''output'' kvs) (Output u);
          err \<leftarrow> string_into (json_field update_tags ''error'' kvs) (Error u);
          Some \<lparr>Timestamp = timestamp, Method = method, Message = message, Output = output,
                Error = err\<rparr> }"

definition unmarshal_status_into ::
    "json \<Rightarrow> FencingRequestStatus \<Rightarrow> FencingRequestStatus option" where
  "unmarshal_status_into j st =
     do { kvs \<leftarrow> members j;
          complete \<leftarrow> bool_into (json_field status_tags ''complete'' kvs) (Complete st);
          result \<leftarrow> string_into (json_field status_tags ''result'' kvs) (Result st);
          config \<leftarrow> pointer_into (json_field status_tags ''config'' kvs) (FencingRequestStatus.Config st);
          method \<leftarrow> pointer_into (json_field status_tags ''activeMethod'' kvs) (ActiveMethod st);
          job \<leftarrow> pointer_into (json_field status_tags ''activeMethod'' kvs) (ActiveJob st);
          updates \<leftarrow> list_into unmarshal_update_into zero_update
            (json_field status_tags ''updates'' kvs) (Updates st);
          Some \<lparr>Complete = complete, Result = result, Config = config, ActiveMethod = method,
                ActiveJob = job, Updates = updates\<rparr> }"

definition unmarshal_spec_into :: "json \<Rightarrow> FencingRequestSpec \<Rightarrow> FencingRequestSpec option" where
  "unmarshal_spec_into j sp =
     do { kvs \<leftarrow> members j;
          target \<leftarrow> string_into (json_field spec_tags ''target'' kvs) (Target sp);
          origin \<leftarrow> string_into (json_field spec_tags ''origin'' kvs) (Origin sp);
          operation \<leftarrow> string_into (json_field spec_tags ''operation'' kvs) (Operation sp);
          pods \<leftarrow> list_into (\<lambda>v. string_into (Some v)) [] (json_field spec_tags ''podList'' kvs)
            (PodList sp);
          after \<leftarrow> int64_into (json_field spec_tags ''validAfter'' kvs) (ValidAfter sp);
          Some \<lparr>Target = target, Origin = origin, Operation = operation, PodList = pods,
                ValidAfter = after\<rparr> }"

text \<open>The decoder of the metadata is the API machinery's; it too decodes into what is there.\<close>

definition unmarshal_request_into ::
    "(json option \<Rightarrow> ObjectMeta \<Rightarrow> ObjectMeta option) \<Rightarrow> json \<Rightarrow> FencingRequest \<Rightarrow>
     FencingRequest option" where
  "unmarshal_request_into meta j fr =
     do { kvs \<leftarrow> members j;
          kind \<leftarrow> string_into (json_field request_tags ''kind'' kvs) (Kind (fr_TypeMeta fr));
          api \<leftarrow> string_into (json_field request_tags ''apiVersion'' kvs) (APIVersion (fr_TypeMeta fr));
          md \<leftarrow> meta (json_field request_tags ''metadata'' kvs) (fr_ObjectMeta fr);
          sp \<leftarrow> unmarshal_spec_into (case json_field request_tags ''spec'' kvs of
                  None \<Rightarrow> JNull | Some v \<Rightarrow> v) (Spec fr);
          st \<leftarrow> unmarshal_status_into (case json_field request_tags ''status'' kvs of
                  None \<Rightarrow> JNull | Some v \<Rightarrow> v) (Status fr);
          Some \<lparr>fr_TypeMeta = \<lparr>Kind = kind, APIVersion = api\<rparr>, fr_ObjectMeta = md, Spec = sp,
                Status = st\<rparr> }"

subsection \<open>Into a zero struct\<close>

lemma fields_into_zero [simp]:
  "string_into j [] = as_string j" "pointer_into j None = as_pointer j"
  "bool_into j False = as_bool j" "int64_into j 0 = as_int64 j"
proof -
  show "string_into j [] = as_string j" by (cases j rule: as_string.cases) simp_all
  show "pointer_into j None = as_pointer j" by (cases j rule: as_pointer.cases) simp_all
  show "bool_into j False = as_bool j" by (cases j rule: as_bool.cases) simp_all
  show "int64_into j 0 = as_int64 j" by (cases j rule: as_int64.cases) simp_all
qed

lemma elements_into_Nil: "elements_into dec zero vs [] = all_some (map (\<lambda>v. dec v zero) vs)"
  by (induction vs) (simp_all split: option.split)

lemma list_into_Nil [simp]: "list_into dec zero j [] = as_list (\<lambda>v. dec v zero) j"
  by (induction "\<lambda>v. dec v zero" j rule: as_list.induct) (simp_all add: elements_into_Nil)

lemma update_into_zero [simp]: "(\<lambda>v. unmarshal_update_into v zero_update) = unmarshal_update"
  by (rule ext) (simp add: unmarshal_update_into_def unmarshal_update_def zero_update_def)

lemma status_into_zero: "unmarshal_status_into j empty_status = unmarshal_status j"
  by (simp add: unmarshal_status_into_def unmarshal_status_def empty_status_def)

lemma spec_into_zero: "unmarshal_spec_into j zero_spec = unmarshal_spec j"
  by (simp add: unmarshal_spec_into_def unmarshal_spec_def zero_spec_def)

lemma request_into_zero:
  "unmarshal_request_into meta j zero_request = unmarshal_request (\<lambda>v. meta v empty_meta) j"
  by (simp add: unmarshal_request_into_def unmarshal_request_def zero_request_def
      status_into_zero spec_into_zero)

subsection \<open>Into any request\<close>

text \<open>The two fields that share a tag are never read, so they stay as they are.\<close>

lemma status_into_active:
  "unmarshal_status_into j st = Some st' \<Longrightarrow>
   ActiveMethod st' = ActiveMethod st \<and> ActiveJob st' = ActiveJob st"
  by (auto simp: unmarshal_status_into_def status_tags_def json_field_def dominant_def
      bind_eq_Some_conv)

lemma request_into_active:
  assumes "unmarshal_request_into meta j fr = Some fr'"
  shows "ActiveMethod (Status fr') = ActiveMethod (Status fr) \<and>
    ActiveJob (Status fr') = ActiveJob (Status fr)"
proof -
  obtain v where "unmarshal_status_into v (Status fr) = Some (Status fr')"
    using assms by (auto simp: unmarshal_request_into_def bind_eq_Some_conv)
  then show ?thesis by (rule status_into_active)
qed

text \<open>
  A codec that decodes into its own value gives the value back: an echo. Lists of such values
  echo too.
\<close>

locale echo =
  fixes enc :: "'a \<Rightarrow> json" and dec :: "json \<Rightarrow> 'a \<Rightarrow> 'a option"
  assumes dec_enc: "dec (enc x) x = Some x"
begin

lemma elements_echo: "elements_into dec zero (map enc xs) xs = Some xs"
  by (induction xs) (simp_all add: dec_enc)

lemma list_echo: "list_into dec zero (Some (JArr (map enc xs))) xs = Some xs"
  by (simp add: elements_echo)

end

interpretation string_echo: echo JStr "\<lambda>v. string_into (Some v)"
  by unfold_locales simp

interpretation update_echo: echo marshal_update unmarshal_update_into
  by unfold_locales
    (simp add: marshal_update_def unmarshal_update_into_def update_tags_def struct_defs)

interpretation spec_echo: echo marshal_spec unmarshal_spec_into
proof unfold_locales
  fix sp :: FencingRequestSpec
  have "- (2 ^ 63) \<le> sint (ValidAfter sp) \<and> sint (ValidAfter sp) < 2 ^ 63"
    using sint_range_size [of "ValidAfter sp"] by (simp add: word_size)
  then show "unmarshal_spec_into (marshal_spec sp) sp = Some sp"
    by (simp add: marshal_spec_def unmarshal_spec_into_def spec_tags_def struct_defs
        string_echo.elements_echo)
qed

interpretation status_echo: echo marshal_status unmarshal_status_into
proof unfold_locales
  fix st :: FencingRequestStatus
  show "unmarshal_status_into (marshal_status st) st = Some st"
    by (cases "FencingRequestStatus.Config st")
      (simp_all add: marshal_status_def unmarshal_status_into_def status_tags_def struct_defs
        update_echo.elements_echo)
qed

lemma request_echo:
  assumes "dm (Some (em (fr_ObjectMeta fr))) (fr_ObjectMeta fr) = Some (fr_ObjectMeta fr)"
  shows "unmarshal_request_into dm (marshal_request em fr) fr = Some fr"
  using assms by (simp add: marshal_request_def unmarshal_request_into_def request_tags_def
      struct_defs spec_echo.dec_enc status_echo.dec_enc)

text \<open>A status that was sent as complete and comes back as it was sent is complete.\<close>

lemma config_echo:
  "unmarshal_status_into (marshal_status st) st' = Some st'' \<Longrightarrow>
   FencingRequestStatus.Config st'' \<in> {FencingRequestStatus.Config st, FencingRequestStatus.Config st'}"
  by (cases "FencingRequestStatus.Config st")
    (auto simp: marshal_status_def unmarshal_status_into_def status_tags_def struct_defs
      bind_eq_Some_conv split: if_splits)

lemma complete_echo:
  "unmarshal_status_into (marshal_status st) st' = Some st'' \<Longrightarrow> Complete st'' = Complete st"
  by (auto simp: marshal_status_def unmarshal_status_into_def status_tags_def struct_defs
      bind_eq_Some_conv split: if_splits)

end
