(* ===== verification/Rest.thy ===== *)
theory Rest
  imports Decode
begin

section \<open>Requests to the API server (vendored client-go: rest, dynamic)\<close>

text \<open>
  The client below the operator SDK: how a request to the API server is put together and
  checked (\<open>k8s.io/client-go/rest/request.go\<close>), sent and sent again, and what the dynamic client
  makes of the answer (\<open>k8s.io/client-go/dynamic/client.go\<close>). The connection is an argument: a
  value \<open>C\<close> of type \<open>'w conn\<close> with a world \<open>'w\<close>. Throttling, metrics, headers and the client's
  own (empty) backoff are left out, and the text of an error quotes a name as it is.
\<close>

subsection \<open>Paths\<close>

definition NameMayNotBe :: "string list" where
  "NameMayNotBe = [''.'', ''..'']"

definition NameMayNotContain :: "char list" where
  "NameMayNotContain = [CHR ''/'', CHR ''%'']"

definition quoted :: "string \<Rightarrow> string" where
  "quoted s = [CHR 0x27] @ s @ [CHR 0x27]"

definition IsValidPathSegmentName :: "string \<Rightarrow> string list" where
  "IsValidPathSegmentName name =
     (if name \<in> set NameMayNotBe then [''may not be '' @ quoted name]
      else map (\<lambda>c. ''may not contain '' @ quoted [c])
             (filter (\<lambda>c. c \<in> set name) NameMayNotContain))"

definition ParseGroupVersion :: "string \<Rightarrow> error + (string \<times> string)" where
  "ParseGroupVersion gv =
     (if gv = [] \<or> gv = ''/'' then Inr ([], [])
      else (case split_on CHR ''/'' gv of
              [v] \<Rightarrow> Inr ([], v)
            | [g, v] \<Rightarrow> Inr (g, v)
            | _ \<Rightarrow> Inl (Errorf (''unexpected GroupVersion string: '' @ gv))))"

definition GroupVersion_String :: "string \<times> string \<Rightarrow> string" where
  "GroupVersion_String gv =
     (case gv of (g, v) \<Rightarrow> if g = [] \<and> v = [] then [] else if g = [] then v else g @ ''/'' @ v)"

text \<open>The path of a group and version; \<open>path.Join\<close> drops empty elements.\<close>

definition LegacyAPIPathResolverFunc :: "string \<Rightarrow> string" where
  "LegacyAPIPathResolverFunc g = (if g = [] then ''api'' else ''apis'')"

definition DefaultVersionedAPIPath :: "string \<Rightarrow> string \<times> string \<Rightarrow> string list" where
  "DefaultVersionedAPIPath apiPath gv =
     filter (\<lambda>s. s \<noteq> []) (case gv of (g, v) \<Rightarrow> if g \<noteq> [] then [apiPath, g, v] else [apiPath, v])"

subsection \<open>Building a request\<close>

record Request =
  rq_verb :: string
  rq_pathPrefix :: "string list"
  rq_params :: "(string \<times> string) list"
  rq_namespace :: string
  rq_namespaceSet :: bool
  rq_resource :: string
  rq_resourceName :: string
  rq_body :: "json option"
  rq_err :: "error option"

definition NewRequest :: "string \<Rightarrow> string list \<Rightarrow> Request" where
  "NewRequest verb prefix =
     \<lparr>rq_verb = verb, rq_pathPrefix = prefix, rq_params = [], rq_namespace = [],
      rq_namespaceSet = False, rq_resource = [], rq_resourceName = [], rq_body = None,
      rq_err = None\<rparr>"

definition failing :: "string \<Rightarrow> Request \<Rightarrow> Request" where
  "failing msg r = r\<lparr>rq_err := Some (Errorf msg)\<rparr>"

definition Request_Resource :: "string \<Rightarrow> Request \<Rightarrow> Request" where
  "Request_Resource name r =
     (if rq_err r \<noteq> None then r
      else if rq_resource r \<noteq> [] then
        failing (''resource already set to '' @ rq_resource r @ '', cannot change to '' @ name) r
      else if IsValidPathSegmentName name \<noteq> [] then failing (''invalid resource '' @ name) r
      else r\<lparr>rq_resource := name\<rparr>)"

definition Request_Name :: "string \<Rightarrow> Request \<Rightarrow> Request" where
  "Request_Name name r =
     (if rq_err r \<noteq> None then r
      else if name = [] then failing ''resource name may not be empty'' r
      else if rq_resourceName r \<noteq> [] then
        failing (''resource name already set to '' @ rq_resourceName r @ '', cannot change to '' @ name) r
      else if IsValidPathSegmentName name \<noteq> [] then failing (''invalid resource name '' @ name) r
      else r\<lparr>rq_resourceName := name\<rparr>)"

definition Request_Namespace :: "string \<Rightarrow> Request \<Rightarrow> Request" where
  "Request_Namespace namespace r =
     (if rq_err r \<noteq> None then r
      else if rq_namespaceSet r then
        failing (''namespace already set to '' @ rq_namespace r @ '', cannot change to '' @ namespace) r
      else if IsValidPathSegmentName namespace \<noteq> [] then failing (''invalid namespace '' @ namespace) r
      else r\<lparr>rq_namespaceSet := True, rq_namespace := namespace\<rparr>)"

definition NamespaceIfScoped :: "string \<Rightarrow> bool \<Rightarrow> Request \<Rightarrow> Request" where
  "NamespaceIfScoped namespace scoped r = (if scoped then Request_Namespace namespace r else r)"

text \<open>Parameters with an empty value are not written.\<close>

definition VersionedParams :: "(string \<times> string) list \<Rightarrow> Request \<Rightarrow> Request" where
  "VersionedParams ps r =
     (if rq_err r \<noteq> None then r
      else r\<lparr>rq_params := rq_params r @ filter (\<lambda>(k, v). v \<noteq> []) ps\<rparr>)"

definition Request_Body :: "json \<Rightarrow> Request \<Rightarrow> Request" where
  "Request_Body j r = (if rq_err r \<noteq> None then r else r\<lparr>rq_body := Some j\<rparr>)"

lemmas request_ops = Request_Resource_def Request_Name_def Request_Namespace_def
  NamespaceIfScoped_def VersionedParams_def Request_Body_def

definition to_lower_char :: "char \<Rightarrow> char" where
  "to_lower_char c =
     (if 65 \<le> (of_char c :: nat) \<and> (of_char c :: nat) \<le> 90 then char_of ((of_char c :: nat) + 32)
      else c)"

definition ToLower :: "string \<Rightarrow> string" where
  "ToLower s = map to_lower_char s"

definition URL :: "Request \<Rightarrow> string list" where
  "URL r =
     filter (\<lambda>s. s \<noteq> [])
       (rq_pathPrefix r @
        (if rq_namespaceSet r \<and> rq_namespace r \<noteq> [] then [''namespaces'', rq_namespace r] else []) @
        [ToLower (rq_resource r), rq_resourceName r])"

subsection \<open>Sending a request\<close>

text \<open>
  What goes over the connection and what comes back: a response with the number of seconds of
  its \<open>Retry-After\<close> header, if its status makes that count (\<open>checkWait\<close>), and either the error
  of its status or its body; or no response.
\<close>

record http_request =
  h_verb :: string
  h_path :: "string list"
  h_params :: "(string \<times> string) list"
  h_body :: "json option"

datatype http_answer =
    Response "int option" "error + json"
  | ConnectionReset error
  | ConnectionError error

record 'w conn =
  client_Do :: "http_request \<Rightarrow> 'w \<Rightarrow> http_answer \<times> 'w"
  backoff_Sleep :: "int \<Rightarrow> 'w \<Rightarrow> 'w"

definition http_of :: "Request \<Rightarrow> http_request" where
  "http_of r = \<lparr>h_verb = rq_verb r, h_path = URL r, h_params = rq_params r, h_body = rq_body r\<rparr>"

text \<open>The check before the request is sent.\<close>

definition request_check :: "Request \<Rightarrow> error option" where
  "request_check r =
     (if rq_err r \<noteq> None then rq_err r
      else if rq_verb r \<in> {''GET'', ''PUT'', ''DELETE''} \<and> rq_namespaceSet r \<and>
              rq_resourceName r \<noteq> [] \<and> rq_namespace r = [] then
        Some (Errorf ''an empty namespace may not be set when a resource name is provided'')
      else if rq_verb r = ''POST'' \<and> rq_namespaceSet r \<and> rq_namespace r = [] then
        Some (Errorf ''an empty namespace may not be set during creation'')
      else None)"

text \<open>
  The loop of attempts. A connection that was reset counts, for a read, as a response with
  status 500 and \<open>Retry-After: 1\<close>. The number \<open>n\<close> is that of the attempts left after this one.
\<close>

definition reset_response :: http_answer where
  "reset_response = Response (Some 1) (Inl (StatusError ''InternalError''
     ''an error on the server has prevented the request from succeeding''))"

definition received :: "http_request \<Rightarrow> http_answer \<Rightarrow> http_answer" where
  "received h a =
     (case a of ConnectionReset e \<Rightarrow> if h_verb h = ''GET'' then reset_response else a | _ \<Rightarrow> a)"

fun attempt_loop :: "'w conn \<Rightarrow> http_request \<Rightarrow> nat \<Rightarrow> 'w \<Rightarrow> (error + json) \<times> 'w" where
  "attempt_loop C h n w =
     (let (a, w1) = client_Do C h w
      in case received h a of
           ConnectionError e \<Rightarrow> (Inl e, w1)
         | ConnectionReset e \<Rightarrow> (Inl e, w1)
         | Response wait result \<Rightarrow>
             (case (wait, n) of
                (Some secs, Suc m) \<Rightarrow> attempt_loop C h m (backoff_Sleep C secs w1)
              | _ \<Rightarrow> (result, w1)))"

declare attempt_loop.simps [simp del]

definition maxRetries :: nat where
  "maxRetries = 10"

definition Do :: "'w conn \<Rightarrow> Request \<Rightarrow> 'w \<Rightarrow> (error + json) \<times> 'w" where
  "Do C r w =
     (case request_check r of
        Some e \<Rightarrow> (Inl e, w)
      | None \<Rightarrow> attempt_loop C (http_of r) (maxRetries - 1) w)"

subsection \<open>Unstructured objects\<close>

definition nested_string :: "string list \<Rightarrow> json \<Rightarrow> string" where
  "nested_string path j =
     (case fold (\<lambda>k v. case v of Some (JObj kvs) \<Rightarrow> map_of kvs k | _ \<Rightarrow> None) path (Some j) of
        Some (JStr s) \<Rightarrow> s
      | _ \<Rightarrow> [])"

definition GetKind :: "json \<Rightarrow> string" where
  "GetKind = nested_string [''kind'']"

definition GetAPIVersion :: "json \<Rightarrow> string" where
  "GetAPIVersion = nested_string [''apiVersion'']"

definition GetName :: "json \<Rightarrow> string" where
  "GetName = nested_string [''metadata'', ''name'']"

definition GetNamespace :: "json \<Rightarrow> string" where
  "GetNamespace = nested_string [''metadata'', ''namespace'']"

text \<open>
  The dynamic codec: the body is an object with a kind, and one of kind \<open>Status\<close> that does not
  report success is an error. \<open>Result.Into\<close> has it fill an object, \<open>Result.Get\<close> make one.
\<close>

definition dynamic_decode :: "json \<Rightarrow> error + json" where
  "dynamic_decode j =
     (case j of
        JObj kvs \<Rightarrow>
          if GetKind j = [] then Inl (Errorf (''Object '' @ quoted ''Kind'' @ '' is missing''))
          else if ToLower (GetKind j) = ''status'' \<and> nested_string [''status''] j \<noteq> ''Success''
          then Inl (StatusError (nested_string [''reason''] j) (nested_string [''message''] j))
          else Inr j
      | _ \<Rightarrow> Inl (Errorf ''cannot unmarshal into an object''))"

definition Result_Into :: "error + json \<Rightarrow> error + json" where
  "Result_Into r = (case r of Inl e \<Rightarrow> Inl e | Inr j \<Rightarrow> dynamic_decode j)"

subsection \<open>The dynamic client\<close>

record ResourceClient =
  rc_path :: "string list"
  rc_resource :: string
  rc_namespaced :: bool
  rc_ns :: string

definition rc_request :: "ResourceClient \<Rightarrow> string \<Rightarrow> Request" where
  "rc_request rc verb =
     Request_Resource (rc_resource rc)
       (NamespaceIfScoped (rc_ns rc) (rc_namespaced rc) (NewRequest verb (rc_path rc)))"

definition rc_List ::
    "'w conn \<Rightarrow> ResourceClient \<Rightarrow> (string \<times> string) list \<Rightarrow> 'w \<Rightarrow> (error + json) \<times> 'w" where
  "rc_List C rc opts w =
     (let (r, w1) = Do C (VersionedParams opts (rc_request rc ''GET'')) w in (Result_Into r, w1))"

definition rc_Get :: "'w conn \<Rightarrow> ResourceClient \<Rightarrow> string \<Rightarrow> 'w \<Rightarrow> (error + json) \<times> 'w" where
  "rc_Get C rc name w =
     (let (r, w1) = Do C (Request_Name name (VersionedParams [] (rc_request rc ''GET''))) w
      in (Result_Into r, w1))"

definition rc_Delete ::
    "'w conn \<Rightarrow> ResourceClient \<Rightarrow> string \<Rightarrow> 'w \<Rightarrow> error option \<times> 'w" where
  "rc_Delete C rc name w =
     (let (r, w1) = Do C (Request_Body (JObj []) (Request_Name name (rc_request rc ''DELETE''))) w
      in (case r of Inl e \<Rightarrow> Some e | Inr _ \<Rightarrow> None, w1))"

definition rc_Create :: "'w conn \<Rightarrow> ResourceClient \<Rightarrow> json \<Rightarrow> 'w \<Rightarrow> (error + json) \<times> 'w" where
  "rc_Create C rc obj w =
     (let (r, w1) = Do C (Request_Body obj (rc_request rc ''POST'')) w in (Result_Into r, w1))"

definition rc_Update :: "'w conn \<Rightarrow> ResourceClient \<Rightarrow> json \<Rightarrow> 'w \<Rightarrow> (error + json) \<times> 'w" where
  "rc_Update C rc obj w =
     (if GetName obj = [] then (Inl (Errorf ''object missing name''), w)
      else
       (let (r, w1) = Do C (Request_Body obj (Request_Name (GetName obj) (rc_request rc ''PUT''))) w
        in (Result_Into r, w1)))"

end
