(* ===== verification/Sdk.thy ===== *)
theory Sdk
  imports Rest Cluster
begin

section \<open>The operator SDK as a client (vendored operator-sdk: k8sclient, query, action)\<close>

text \<open>
  \<open>query.Get\<close>, \<open>query.List\<close>, \<open>action.Create\<close>, \<open>action.Update\<close> and \<open>action.Delete\<close> on top of
  \<open>Rest\<close>, and with them the server \<open>K\<close> of \<open>Cluster\<close> as the operator really sees it: \<open>sdk_api\<close>.
  What is outside the repository is a value \<open>D\<close> of type \<open>'w sdk\<close>: the connection, the clients for
  a group and version, the server's own account of its resources (discovery) and the codecs of
  the types of the API machinery. An error of decoding is one text.
\<close>

record codecs =
  meta_enc :: "ObjectMeta \<Rightarrow> json"
  meta_dec :: "json option \<Rightarrow> ObjectMeta \<Rightarrow> ObjectMeta option"
  job_enc :: "Job \<Rightarrow> json"
  job_dec :: "json \<Rightarrow> Job \<Rightarrow> Job option"
  node_dec :: "json \<Rightarrow> Node \<Rightarrow> Node option"
  pod_dec :: "json \<Rightarrow> Pod \<Rightarrow> Pod option"
  pvc_dec :: "json \<Rightarrow> bool"

record 'w sdk =
  sdk_conn :: "'w conn"
  dynamic_client :: "string \<times> string \<Rightarrow> error option"
  rest_mapping :: "string \<Rightarrow> string \<Rightarrow> string \<Rightarrow> 'w \<Rightarrow> (error + (string \<times> bool)) \<times> 'w"
  sdk_codecs :: codecs

subsection \<open>Resource clients (k8sclient/client.go)\<close>

definition apiResource ::
    "'w sdk \<Rightarrow> string \<times> string \<Rightarrow> string \<Rightarrow> 'w \<Rightarrow> (error + (string \<times> bool)) \<times> 'w" where
  "apiResource D gv kind w =
     (let (m, w1) = rest_mapping D (fst gv) (snd gv) kind w
      in (case m of
            Inl e \<Rightarrow> Inl (Errorf (''failed to get the resource REST mapping for GroupVersionKind('' @
                       kind @ ''): '' @ err_text e))
          | Inr r \<Rightarrow> Inr r, w1))"

definition GetResourceClient ::
    "'w sdk \<Rightarrow> string \<Rightarrow> string \<Rightarrow> string \<Rightarrow> 'w \<Rightarrow> (error + ResourceClient) \<times> 'w" where
  "GetResourceClient D apiVersion kind namespace w =
     (case ParseGroupVersion apiVersion of
        Inl e \<Rightarrow> (Inl (Errorf (''failed to parse apiVersion: '' @ err_text e)), w)
      | Inr gv \<Rightarrow>
          (case dynamic_client D gv of
             Some e \<Rightarrow> (Inl (Errorf (''failed to get client for GroupVersionKind('' @ kind @ ''): '' @
                         err_text e)), w)
           | None \<Rightarrow>
               (let (m, w1) = apiResource D gv kind w
                in (case m of
                      Inl e \<Rightarrow> Inl (Errorf (''failed to get resource type: '' @ err_text e))
                    | Inr (pluralName, namespaced) \<Rightarrow>
                        Inr \<lparr>rc_path = DefaultVersionedAPIPath (LegacyAPIPathResolverFunc (fst gv)) gv,
                             rc_resource = pluralName, rc_namespaced = namespaced,
                             rc_ns = namespace\<rparr>, w1))))"

text \<open>The version and kind of an object by its type fields (\<open>GroupVersionKind().ToAPIVersionAndKind()\<close>).\<close>

definition object_version :: "string \<Rightarrow> string" where
  "object_version apiVersion =
     (case ParseGroupVersion apiVersion of Inl e \<Rightarrow> [] | Inr gv \<Rightarrow> GroupVersion_String gv)"

definition client_error :: "string \<Rightarrow> string \<Rightarrow> string \<Rightarrow> error \<Rightarrow> error" where
  "client_error apiVersion kind namespace e =
     Errorf (''failed to get resource client for (apiVersion:'' @ apiVersion @ '', kind:'' @ kind @
       '', ns:'' @ namespace @ ''): '' @ err_text e)"

subsection \<open>Typed objects (util/k8sutil/k8sutil.go)\<close>

definition decode_error :: error where
  "decode_error = Errorf ''failed to unmarshal the retrieved data''"

text \<open>
  \<open>UnstructuredIntoRuntimeObject\<close>: the JSON has to be of the object's kind; version and group may
  be missing.
\<close>

definition into_object ::
    "string \<Rightarrow> string \<Rightarrow> (json \<Rightarrow> 'a \<Rightarrow> 'a option) \<Rightarrow> json \<Rightarrow> 'a \<Rightarrow> error option \<times> 'a" where
  "into_object apiVersion kind dec j obj =
     (if GetKind j = kind \<and> ParseGroupVersion (GetAPIVersion j) \<in>
           {Inr ([], []), ParseGroupVersion apiVersion}
      then (case dec j obj of None \<Rightarrow> (Some decode_error, obj) | Some obj' \<Rightarrow> (None, obj'))
      else (Some decode_error, obj))"

text \<open>
  A list: its items get kind and version of the list when they have none (\<open>decodeToList\<close>), and
  are then decoded into zero structs.
\<close>

definition TrimSuffix_List :: "string \<Rightarrow> string" where
  "TrimSuffix_List kind =
     (if 4 \<le> length kind \<and> drop (length kind - 4) kind = ''List'' then take (length kind - 4) kind
      else kind)"

definition put_string :: "string \<Rightarrow> string \<Rightarrow> json \<Rightarrow> json" where
  "put_string k v j =
     (case j of JObj kvs \<Rightarrow> JObj ((k, JStr v) # filter (\<lambda>(k', x). k' \<noteq> k) kvs)
      | _ \<Rightarrow> JObj [(k, JStr v)])"

definition infer_kind :: "json \<Rightarrow> json \<Rightarrow> json" where
  "infer_kind listobj item =
     (if GetKind item = [] \<and> GetAPIVersion item = []
      then put_string ''apiVersion'' (GetAPIVersion listobj)
             (put_string ''kind'' (TrimSuffix_List (GetKind listobj)) item)
      else item)"

fun is_object :: "json \<Rightarrow> bool" where
  "is_object (JObj kvs) = True"
| "is_object JNull = True"
| "is_object _ = False"

definition list_items :: "json \<Rightarrow> json list option" where
  "list_items j =
     (case members j of
        None \<Rightarrow> None
      | Some kvs \<Rightarrow>
          (case map_of kvs ''items'' of
             None \<Rightarrow> Some []
           | Some JNull \<Rightarrow> Some []
           | Some (JArr vs) \<Rightarrow> if list_all is_object vs then Some (map (infer_kind j) vs) else None
           | _ \<Rightarrow> None))"

definition into_list ::
    "string \<Rightarrow> string \<Rightarrow> (json \<Rightarrow> 'a \<Rightarrow> 'a option) \<Rightarrow> 'a \<Rightarrow> json \<Rightarrow> error option \<times> 'a list" where
  "into_list apiVersion kind dec zero j =
     (case list_items j of
        None \<Rightarrow> (Some decode_error, [])
      | Some vs \<Rightarrow>
          into_object apiVersion (kind @ ''List'')
            (\<lambda>_ _. all_some (map (\<lambda>v. dec v zero) vs)) j [])"

subsection \<open>query and action\<close>

definition sdk_Get ::
    "'w sdk \<Rightarrow> string \<Rightarrow> string \<Rightarrow> string \<Rightarrow> string \<Rightarrow> (json \<Rightarrow> 'a \<Rightarrow> 'a option) \<Rightarrow> 'a \<Rightarrow> 'w \<Rightarrow>
     (error option \<times> 'a) \<times> 'w" where
  "sdk_Get D apiVersion kind name namespace dec obj w =
     (let (c, w1) = GetResourceClient D apiVersion kind namespace w
      in case c of
           Inl e \<Rightarrow> ((Some (client_error apiVersion kind namespace e), obj), w1)
         | Inr rc \<Rightarrow>
             (let (r, w2) = rc_Get (sdk_conn D) rc name w1
              in (case r of Inl e \<Rightarrow> (Some e, obj) | Inr j \<Rightarrow> into_object apiVersion kind dec j obj, w2)))"

definition sdk_List ::
    "'w sdk \<Rightarrow> string \<Rightarrow> string \<Rightarrow> string \<Rightarrow> (string \<times> string) list \<Rightarrow> (json \<Rightarrow> 'a \<Rightarrow> 'a option) \<Rightarrow>
     'a \<Rightarrow> 'w \<Rightarrow> (error option \<times> 'a list) \<times> 'w" where
  "sdk_List D apiVersion kind namespace opts dec zero w =
     (let (c, w1) = GetResourceClient D apiVersion kind namespace w
      in case c of
           Inl e \<Rightarrow> ((Some (client_error apiVersion kind namespace e), []), w1)
         | Inr rc \<Rightarrow>
             (let (r, w2) = rc_List (sdk_conn D) rc opts w1
              in (case r of Inl e \<Rightarrow> (Some e, []) | Inr j \<Rightarrow> into_list apiVersion kind dec zero j, w2)))"

text \<open>
  \<open>send\<close> is the call of the dynamic client; \<open>Create\<close> and \<open>Update\<close> differ in nothing else. The
  resource is that of the object's own type fields, the answer is decoded as the Go type's kind
  in the scheme.
\<close>

fun sdk_write ::
    "(ResourceClient \<Rightarrow> json \<Rightarrow> 'w \<Rightarrow> (error + json) \<times> 'w) \<Rightarrow> 'w sdk \<Rightarrow> string \<times> string \<Rightarrow> string \<Rightarrow>
     string \<times> string \<Rightarrow> ('a \<Rightarrow> json) \<Rightarrow> (json \<Rightarrow> 'a \<Rightarrow> 'a option) \<Rightarrow> 'a \<Rightarrow> 'w \<Rightarrow>
     (error option \<times> 'a) \<times> 'w" where
  "sdk_write send D (apiVersion, kind) namespace (typeVersion, typeKind) enc dec obj w =
     (let (c, w1) = GetResourceClient D (object_version apiVersion) kind namespace w
      in case c of
           Inl e \<Rightarrow> ((Some (Errorf (''failed to get resource client: '' @ err_text e)), obj), w1)
         | Inr rc \<Rightarrow>
             (let (r, w2) = send rc (enc obj) w1
              in (case r of Inl e \<Rightarrow> (Some e, obj)
                  | Inr j \<Rightarrow> into_object typeVersion typeKind dec j obj, w2)))"

definition sdk_Delete ::
    "'w sdk \<Rightarrow> string \<Rightarrow> string \<Rightarrow> string \<Rightarrow> string \<Rightarrow> 'w \<Rightarrow> error option \<times> 'w" where
  "sdk_Delete D apiVersion kind name namespace w =
     (let (c, w1) = GetResourceClient D (object_version apiVersion) kind namespace w
      in case c of
           Inl e \<Rightarrow> (Some (Errorf (''failed to get resource client: '' @ err_text e)), w1)
         | Inr rc \<Rightarrow> rc_Delete (sdk_conn D) rc name w1)"

subsection \<open>The server as the operator sees it\<close>

definition fencing_version :: string where
  "fencing_version = ''fencing.clusterlabs.org/v1alpha1''"

definition request_enc :: "'w sdk \<Rightarrow> FencingRequest \<Rightarrow> json" where
  "request_enc D = marshal_request (meta_enc (sdk_codecs D))"

definition request_dec :: "'w sdk \<Rightarrow> json \<Rightarrow> FencingRequest \<Rightarrow> FencingRequest option" where
  "request_dec D = unmarshal_request_into (meta_dec (sdk_codecs D))"

definition zero_node :: Node where
  "zero_node = \<lparr>n_ObjectMeta = empty_meta, Conditions = []\<rparr>"

definition zero_pod :: Pod where
  "zero_pod = \<lparr>p_ObjectMeta = empty_meta, NodeName = [], p_Volumes = []\<rparr>"

definition zero_job :: Job where
  "zero_job = \<lparr>j_TypeMeta = \<lparr>Kind = [], APIVersion = []\<rparr>, j_ObjectMeta = empty_meta,
     BackoffLimit = None, Containers = [], RestartPolicy = [], j_Volumes = [], Active = 0,
     Failed = 0, Succeeded = 0\<rparr>"

text \<open>
  The calls of the operator. \<open>base\<close> supplies the clock. A node and a claim are asked for by name
  alone, in no namespace; requests and jobs go to the namespace of their metadata.
\<close>

definition write_request ::
    "('w conn \<Rightarrow> ResourceClient \<Rightarrow> json \<Rightarrow> 'w \<Rightarrow> (error + json) \<times> 'w) \<Rightarrow> 'w sdk \<Rightarrow>
     FencingRequest \<Rightarrow> 'w \<Rightarrow> (error option \<times> FencingRequest) \<times> 'w" where
  "write_request send D r =
     sdk_write (send (sdk_conn D)) D (APIVersion (fr_TypeMeta r), Kind (fr_TypeMeta r))
       (Namespace (fr_ObjectMeta r)) (fencing_version, ''FencingRequest'')
       (request_enc D) (request_dec D) r"

definition sdk_api :: "'w sdk \<Rightarrow> 'w api \<Rightarrow> 'w api" where
  "sdk_api D base =
     \<lparr>list_nodes = (\<lambda>ns sel. sdk_List D ''v1'' ''Node'' ns [(''labelSelector'', sel)]
        (node_dec (sdk_codecs D)) zero_node),
      list_jobs = (\<lambda>ns sel. sdk_List D ''batch/v1'' ''Job'' ns [(''labelSelector'', sel)]
        (job_dec (sdk_codecs D)) zero_job),
      list_pods = (\<lambda>ns sel. sdk_List D ''v1'' ''Pod'' ns [(''fieldSelector'', sel)]
        (pod_dec (sdk_codecs D)) zero_pod),
      list_requests = (\<lambda>ns sel. sdk_List D fencing_version ''FencingRequest'' ns
        [(''fieldSelector'', sel)] (request_dec D) zero_request),
      get_node = (\<lambda>name. sdk_Get D ''v1'' ''Node'' name [] (node_dec (sdk_codecs D))
        (zero_node\<lparr>n_ObjectMeta := empty_meta\<lparr>Name := name\<rparr>\<rparr>)),
      get_pvc = (\<lambda>name w. let ((err, _), w1) = sdk_Get D ''v1'' ''PersistentVolumeClaim'' name []
        (\<lambda>j _. if pvc_dec (sdk_codecs D) j then Some () else None) () w in (err, w1)),
      create_job = (\<lambda>j. sdk_write (rc_Create (sdk_conn D)) D
        (APIVersion (j_TypeMeta j), Kind (j_TypeMeta j)) (Namespace (j_ObjectMeta j))
        (''batch/v1'', ''Job'') (job_enc (sdk_codecs D))
        (job_dec (sdk_codecs D)) j),
      create_request = write_request rc_Create D,
      update_request = write_request rc_Update D,
      delete_request = (\<lambda>r. sdk_Delete D (APIVersion (fr_TypeMeta r)) (Kind (fr_TypeMeta r))
        (Name (fr_ObjectMeta r)) (Namespace (fr_ObjectMeta r))),
      time_now = time_now base, time_sleep = time_sleep base,
      backoff_jitter = backoff_jitter base, float_scale = float_scale base,
      slice_capacity = slice_capacity base\<rparr>"

end
