(* ===== verification/Sdk_Props.thy ===== *)
theory Sdk_Props
  imports Sdk Field_Selectors Labels
begin

section \<open>The operator with its client\<close>

text \<open>
  What the client makes of the operator's calls, whatever the server answers, and what follows
  for whole runs: decoded requests are as \<open>Workflow\<close> takes them to be, every query in
  \<open>"--all-namespaces"\<close> goes to a namespace of that name, a claim is never found, and a request is
  sent a bounded number of times.
\<close>

subsection \<open>Attempts\<close>

text \<open>A connection that also keeps the requests that went over it.\<close>

definition logged :: "'w conn \<Rightarrow> ('w \<times> http_request list) conn" where
  "logged C =
     \<lparr>client_Do = (\<lambda>h (w, sent). let (a, w1) = client_Do C h w in (a, (w1, sent @ [h]))),
      backoff_Sleep = (\<lambda>d (w, sent). (backoff_Sleep C d w, sent))\<rparr>"

text \<open>One attempt, and whether another one follows.\<close>

lemma attempt_again:
  "received h (fst (client_Do C h w)) = Response (Some secs) r \<Longrightarrow>
   attempt_loop C h (Suc n) w = attempt_loop C h n (backoff_Sleep C secs (snd (client_Do C h w)))"
  by (simp add: attempt_loop.simps [of _ _ "Suc n"] split_beta)

lemma attempt_last:
  "n = 0 \<or> (\<nexists>secs r. received h (fst (client_Do C h w)) = Response (Some secs) r) \<Longrightarrow>
   attempt_loop C h n w =
     (case received h (fst (client_Do C h w)) of
        ConnectionError e \<Rightarrow> Inl e | ConnectionReset e \<Rightarrow> Inl e | Response wait r \<Rightarrow> r,
      snd (client_Do C h w))"
  by (cases n) (auto simp: attempt_loop.simps split_beta Let_def
      split: http_answer.split option.split)

lemma client_Do_logged [simp]:
  "client_Do (logged C) h (w, sent) = (fst (client_Do C h w), (snd (client_Do C h w), sent @ [h]))"
  by (simp add: logged_def split_beta)

lemma backoff_Sleep_logged [simp]:
  "backoff_Sleep (logged C) d (w, sent) = (backoff_Sleep C d w, sent)"
  by (simp add: logged_def)

lemma attempt_loop_logged:
  "\<exists>k \<le> n. attempt_loop (logged C) h n (w, sent) =
     (fst (attempt_loop C h n w), (snd (attempt_loop C h n w), sent @ replicate (Suc k) h))"
proof (induction n arbitrary: w sent)
  case 0
  show ?case by (simp add: attempt_last)
next
  case (Suc n)
  show ?case
  proof (cases "\<exists>secs r. received h (fst (client_Do C h w)) = Response (Some secs) r")
    case True
    then obtain secs r where a: "received h (fst (client_Do C h w)) = Response (Some secs) r" by blast
    let ?w = "backoff_Sleep C secs (snd (client_Do C h w))"
    obtain k where "k \<le> n" "attempt_loop (logged C) h n (?w, sent @ [h]) =
      (fst (attempt_loop C h n ?w), (snd (attempt_loop C h n ?w), (sent @ [h]) @ replicate (Suc k) h))"
      using Suc.IH by blast
    then show ?thesis
      using attempt_again [of h "logged C" "(w, sent)"] a by (auto simp: attempt_again [OF a])
  next
    case False
    then show ?thesis
      by (auto simp: attempt_last [of "Suc n" h C] attempt_last [of "Suc n" h "logged C"]
          intro!: exI [of _ 0])
  qed
qed

text \<open>What all answers to a request satisfy, the result satisfies.\<close>

lemma attempt_loop_result:
  assumes "\<And>w wait j. fst (client_Do C h w) = Response wait (Inr j) \<Longrightarrow> P j"
  shows "fst (attempt_loop C h n w) = Inr j \<Longrightarrow> P j"
proof (induction n arbitrary: w)
  case 0
  then show ?case using assms [of w]
    by (auto simp: attempt_last received_def reset_response_def split: http_answer.splits if_splits)
next
  case (Suc n)
  show ?case
  proof (cases "\<exists>secs r. received h (fst (client_Do C h w)) = Response (Some secs) r")
    case True
    then show ?thesis using Suc attempt_again by fastforce
  next
    case False
    then show ?thesis using Suc.prems assms [of w]
      by (auto simp: attempt_last received_def reset_response_def split: http_answer.splits if_splits)
  qed
qed

lemma Do_result:
  assumes "\<And>w wait j. fst (client_Do C (http_of q) w) = Response wait (Inr j) \<Longrightarrow> P j"
    and "fst (Do C q w) = Inr j"
  shows "P j"
  using assms(2) attempt_loop_result [of C "http_of q" P, OF assms(1)]
  by (auto simp: Do_def split: option.splits)

subsection \<open>Decoding\<close>

lemma into_object_cases:
  "into_object v k dec j obj = (err, obj') \<Longrightarrow> (err \<noteq> None \<and> obj' = obj) \<or> (err = None \<and> dec j obj = Some obj')"
  by (auto simp: into_object_def split: if_splits option.splits)

lemma request_dec_inactive: "request_dec D j zero_request = Some r \<Longrightarrow> inactive r"
  using unmarshal_request_inactive [of "\<lambda>v. meta_dec (sdk_codecs D) v empty_meta" j r]
  by (simp add: request_dec_def request_into_zero inactive_def)

lemma all_some_set: "all_some xs = Some ys \<Longrightarrow> y \<in> set ys \<Longrightarrow> Some y \<in> set xs"
  by (induction xs arbitrary: ys) (auto split: option.splits)

lemma into_list_set:
  assumes "y \<in> set (snd (into_list v k dec zero j))"
  shows "\<exists>x. dec x zero = Some y"
proof -
  obtain vs where "list_items j = Some vs"
    and "y \<in> set (snd (into_object v (k @ ''List'') (\<lambda>_ _. all_some (map (\<lambda>v. dec v zero) vs)) j []))"
    using assms by (auto simp: into_list_def split: option.splits)
  then obtain ys where "all_some (map (\<lambda>v. dec v zero) vs) = Some ys" "y \<in> set ys"
    by (auto simp: into_object_def split: if_splits option.splits)
  from all_some_set [OF this] show ?thesis by auto
qed

lemma sdk_List_set:
  assumes "y \<in> set (snd (fst (sdk_List D v k ns opts dec zero w)))"
  shows "\<exists>x. dec x zero = Some y"
proof -
  from assms obtain j where "y \<in> set (snd (into_list v k dec zero j))"
    by (auto simp: sdk_List_def split_beta Let_def split: sum.splits)
  then show ?thesis by (rule into_list_set)
qed

lemma sdk_write_into:
  assumes "sdk_write send D gvk ns tk enc dec obj w = ((err, obj'), w')"
  shows "obj' = obj \<or> (\<exists>j. dec j obj = Some obj')"
  using assms
  by (cases gvk; cases tk)
    (auto simp: split_beta Let_def split: sum.splits dest: into_object_cases)

lemma wire_sdk: "wire_server (sdk_api D base)"
proof -
  have "inactive r" if "r \<in> set (snd (fst (list_requests (sdk_api D base) ns sel w)))" for r ns sel w
    using that sdk_List_set request_dec_inactive [of D] by (fastforce simp: sdk_api_def)
  moreover have "ActiveMethod (Status (snd (fst (update_request (sdk_api D base) r w)))) =
      ActiveMethod (Status r)" for r w
  proof -
    obtain err r' w' where u: "update_request (sdk_api D base) r w = ((err, r'), w')"
      by (metis surj_pair)
    have "r' = r \<or> (\<exists>j. request_dec D j r = Some r')"
      using u sdk_write_into unfolding sdk_api_def write_request_def by fastforce
    then show ?thesis
      using u by (auto simp: request_dec_def dest: request_into_active)
  qed
  ultimately show ?thesis by (simp add: wire_server_def)
qed

subsection \<open>Namespaces\<close>

text \<open>
  What the code relies on of the server: it reports a kind as namespaced
  (\<open>namespaced_kind\<close>), and the name of a namespace is a DNS label, so that a list in a namespace
  of any other name has no items (\<open>namespaces_are_labels\<close>).
\<close>

definition IsDNS1123Label :: "string \<Rightarrow> bool" where
  "IsDNS1123Label s \<longleftrightarrow> length s \<le> 63 \<and> dns1123LabelRegexp s"

definition namespaced_kind :: "'w sdk \<Rightarrow> string \<Rightarrow> string \<Rightarrow> bool" where
  "namespaced_kind D apiVersion kind \<longleftrightarrow>
     (\<forall>g v w name scoped. ParseGroupVersion apiVersion = Inr (g, v) \<longrightarrow>
        fst (rest_mapping D g v kind w) = Inr (name, scoped) \<longrightarrow> name \<noteq> [] \<and> scoped)"

definition namespaces_are_labels :: "'w sdk \<Rightarrow> bool" where
  "namespaces_are_labels D \<longleftrightarrow>
     (\<forall>h w pre ns res wait j. h_verb h = ''GET'' \<longrightarrow> h_path h = pre @ [''namespaces'', ns, res] \<longrightarrow>
        \<not> IsDNS1123Label ns \<longrightarrow> fst (client_Do (sdk_conn D) h w) = Response wait (Inr j) \<longrightarrow>
        list_items j = Some [])"

lemma all_namespaces_no_label: "\<not> IsDNS1123Label all_namespaces"
  by (simp add: IsDNS1123Label_def dns1123LabelRegexp_def all_namespaces_def dnsChar_def char_in_def)

lemma GetResourceClient_rc:
  assumes "GetResourceClient D apiVersion kind ns w = (Inr rc, w1)" and "namespaced_kind D apiVersion kind"
  shows "rc_namespaced rc \<and> rc_ns rc = ns \<and> rc_resource rc \<noteq> []"
proof -
  obtain g v where p: "ParseGroupVersion apiVersion = Inr (g, v)"
    using assms(1) by (cases "ParseGroupVersion apiVersion") (auto simp: GetResourceClient_def)
  have c: "dynamic_client D (g, v) = None"
    using assms(1) by (cases "dynamic_client D (g, v)") (auto simp: GetResourceClient_def p)
  obtain name scoped where m: "fst (rest_mapping D g v kind w) = Inr (name, scoped)"
    using assms(1) by (cases "fst (rest_mapping D g v kind w)")
      (auto simp: GetResourceClient_def apiResource_def p c split_beta Let_def)
  have "name \<noteq> [] \<and> scoped" using assms(2) p m unfolding namespaced_kind_def by blast
  with assms(1) show ?thesis
    by (auto simp: GetResourceClient_def apiResource_def p c m split_beta Let_def)
qed

lemma rc_request_namespaced:
  "rc_namespaced rc \<Longrightarrow> rq_err (rc_request rc verb) \<noteq> None \<or>
   rc_request rc verb =
     \<lparr>rq_verb = verb, rq_pathPrefix = rc_path rc, rq_params = [], rq_namespace = rc_ns rc,
      rq_namespaceSet = True, rq_resource = rc_resource rc, rq_resourceName = [], rq_body = None,
      rq_err = None\<rparr>"
  by (simp add: rc_request_def Request_Resource_def NamespaceIfScoped_def Request_Namespace_def
      NewRequest_def failing_def)

lemma rc_List_path:
  assumes "rc_namespaced rc" and "rc_ns rc \<noteq> []" and "rc_resource rc \<noteq> []"
    and "request_check (VersionedParams opts (rc_request rc ''GET'')) = None"
  shows "h_verb (http_of (VersionedParams opts (rc_request rc ''GET''))) = ''GET'' \<and>
    h_path (http_of (VersionedParams opts (rc_request rc ''GET''))) =
      filter (\<lambda>s. s \<noteq> []) (rc_path rc) @ [''namespaces'', rc_ns rc, ToLower (rc_resource rc)]"
proof -
  have "rq_err (rc_request rc ''GET'') = None"
    using assms(4) by (auto simp: request_check_def VersionedParams_def split: if_splits)
  then show ?thesis
    using rc_request_namespaced [OF assms(1), of "''GET''"] assms(2,3)
    by (simp add: http_of_def VersionedParams_def URL_def ToLower_def)
qed

lemma sdk_List_nowhere:
  assumes "namespaced_kind D apiVersion kind" and "namespaces_are_labels D"
    and "\<not> IsDNS1123Label ns" and "ns \<noteq> []"
  shows "snd (fst (sdk_List D apiVersion kind ns opts dec zero w)) = []"
proof (cases "fst (GetResourceClient D apiVersion kind ns w)")
  case (Inl e)
  then show ?thesis by (simp add: sdk_List_def split_beta Let_def)
next
  case (Inr rc)
  then obtain w1 where g: "GetResourceClient D apiVersion kind ns w = (Inr rc, w1)" by (metis prod.collapse)
  note rc = GetResourceClient_rc [OF g assms(1)]
  let ?q = "VersionedParams opts (rc_request rc ''GET'')"
  have "list_items j = Some []" if r: "fst (Do (sdk_conn D) ?q w1) = Inr j" for j
  proof (rule Do_result [OF _ r])
    fix v wait j'
    assume d: "fst (client_Do (sdk_conn D) (http_of ?q) v) = Response wait (Inr j')"
    have "request_check ?q = None" using r by (auto simp: Do_def split: option.splits)
    from rc_List_path [OF _ _ _ this] rc assms(3,4) d assms(2)
    show "list_items j' = Some []" unfolding namespaces_are_labels_def by metis
  qed
  moreover have "Result_Into r = Inr j \<Longrightarrow> r = Inr j" for r j
    by (auto simp: Result_Into_def dynamic_decode_def split: sum.splits json.splits if_splits)
  ultimately have "snd (into_list apiVersion kind dec zero j) = []"
    if "fst (rc_List (sdk_conn D) rc opts w1) = Inr j" for j
    using that by (auto simp: rc_List_def into_list_def into_object_def split_beta Let_def)
  then show ?thesis
    by (simp add: sdk_List_def g split_beta Let_def split: sum.split)
qed

lemma sdk_finds_none:
  assumes "namespaced_kind D fencing_version ''FencingRequest''" and "namespaces_are_labels D"
  shows "finds_no_requests (sdk_api D base)"
proof -
  have "all_namespaces \<noteq> []" by (simp add: all_namespaces_def)
  note none = sdk_List_nowhere [OF assms all_namespaces_no_label this]
  show ?thesis
    by (simp add: none finds_no_requests_def listFencingRequests_def query_List_requests_def perform_def
        sdk_api_def split_beta Let_def)
qed

text \<open>No pod is found on any node.\<close>

definition finds_no_pods :: "'w api \<Rightarrow> bool" where
  "finds_no_pods K \<longleftrightarrow> (\<forall>node s. snd (fst (listPods K node s)) = [])"

lemma sdk_finds_no_pods:
  assumes "namespaced_kind D ''v1'' ''Pod''" and "namespaces_are_labels D"
  shows "finds_no_pods (sdk_api D base)"
proof -
  have "all_namespaces \<noteq> []" by (simp add: all_namespaces_def)
  note none = sdk_List_nowhere [OF assms all_namespaces_no_label this]
  show ?thesis
    by (simp add: none finds_no_pods_def listPods_def query_List_pods_def perform_def
        sdk_api_def split_beta Let_def)
qed

subsection \<open>Whole runs\<close>

text \<open>A request that is created lists no pods when none is found.\<close>

fun podless :: "call \<Rightarrow> bool" where
  "podless (CreateRequest r) = (PodList (Spec r) = [])"
| "podless c = True"

lemma podless_kinds: "is_read c \<Longrightarrow> podless c" "for_request c \<Longrightarrow> podless c"
  by (cases c; simp)+

lemma CreateFencingRequest_state:
  "snd (CreateFencingRequest K getenv node cause s) =
     (let ((_, requests), s1) = listFencingRequests K node [] s
      in if list_ex (\<lambda>r. Complete (Status r)) requests then s1
         else (let (q, s2) = newFencingRequest K getenv node cause s1
               in snd (action_Create_request K q s2)))"
  by (simp add: CreateFencingRequest_def create_request_once.backoff_runs_once defaultBackoff_def
      create_request_closure_def split_beta Let_def)

lemma podless_create:
  assumes "finds_no_pods K"
  shows "only podless s (snd (CreateFencingRequest K getenv node cause s))"
proof -
  obtain err requests s1 where l: "listFencingRequests K node [] s = ((err, requests), s1)"
    by (metis surj_pair)
  obtain q s2 where n: "newFencingRequest K getenv node cause s1 = (q, s2)" by (metis surj_pair)
  have r: "reads s s1" "reads s1 s2"
    using reads_queries(2) [of s K node "[]"] newFencingRequest_facts(1) [of s1 K getenv node cause] l n
    by simp_all
  have "PodList (Spec q) = []"
    using newFencingRequest_facts(2) [of K getenv node cause s1] assms
    by (simp add: n pods_on_def finds_no_pods_def Let_def)
  then have "only podless s2 (snd (action_Create_request K q s2))"
    by (simp add: action_Create_request_def only_perform)
  moreover have reads: "only podless s s1" "only podless s1 s2"
    using r podless_kinds(1) by (blast intro: only_mono)+
  ultimately have "only podless s (snd (action_Create_request K q s2))"
    using only_trans by blast
  then show ?thesis using reads(1) by (simp add: CreateFencingRequest_state l n)
qed

interpretation podless_runs: run_contract K getenv "\<lambda>c. finds_no_pods K \<longrightarrow> podless c"
  for K :: "'w api" and getenv
proof unfold_locales
  let ?P = "\<lambda>c. finds_no_pods K \<longrightarrow> podless c"
  fix s :: "'w opstate" and c node cause \<rho> job req deleted
  show "is_read c \<Longrightarrow> ?P c" by (simp add: podless_kinds)
  show "logs ?P s (snd (CreateFencingRequest K getenv node cause s))"
    using logs_mono [OF only_logs [OF podless_create]]
      logs_mono [OF only_logs [OF for_node_create], of "\<lambda>c. True"]
    by (cases "finds_no_pods K") simp_all
  show "logs ?P s (snd (CancelFencingRequests K node [] s))"
    using CancelFencingRequests_calls [of s K node]
    by (intro only_logs) (simp add: only_def list_all_iff)
  show "logs ?P s (final_state (HandleJob K \<rho> job deleted s))"
    by (rule logs_mono [OF does_logs [OF for_request_HandleJob]]) (simp add: podless_kinds)
  show "logs ?P s (final_state (HandleFencingRequest K \<rho> req deleted s))"
    by (rule logs_mono [OF does_logs [OF for_request_HandleFencingRequest]]) (simp add: podless_kinds)
qed

subsection \<open>Claims\<close>

text \<open>
  \<open>query.Get\<close> of a claim names no namespace, and the client refuses that before it sends
  anything.
\<close>

lemma empty_namespace_check:
  assumes "rc_namespaced rc" and "rc_ns rc = []"
  shows "request_check (Request_Name name (VersionedParams [] (rc_request rc ''GET''))) \<noteq> None"
  using rc_request_namespaced [OF assms(1), of "''GET''"] assms(2)
  by (auto simp: Request_Name_def VersionedParams_def request_check_def failing_def)

lemma pvc_refused:
  assumes "namespaced_kind D ''v1'' ''PersistentVolumeClaim''"
  shows "fst (get_pvc (sdk_api D base) name w) \<noteq> None \<and>
    snd (get_pvc (sdk_api D base) name w) =
      snd (GetResourceClient D ''v1'' ''PersistentVolumeClaim'' [] w)"
proof (cases "fst (GetResourceClient D ''v1'' ''PersistentVolumeClaim'' [] w)")
  case (Inl e)
  then show ?thesis by (simp add: sdk_api_def sdk_Get_def split_beta Let_def)
next
  case (Inr rc)
  then obtain w1 where g: "GetResourceClient D ''v1'' ''PersistentVolumeClaim'' [] w = (Inr rc, w1)"
    by (metis prod.collapse)
  note rc = GetResourceClient_rc [OF g assms]
  obtain e where "request_check (Request_Name name (VersionedParams [] (rc_request rc ''GET''))) = Some e"
    using empty_namespace_check [of rc name] rc by blast
  then show ?thesis
    by (simp add: sdk_api_def sdk_Get_def g rc_Get_def Do_def Result_Into_def split_beta Let_def)
qed

subsection \<open>Updates\<close>

text \<open>
  The server answers an update with the object it has stored, and the object has the status that
  was sent (the definition of the resource has no subresource for the status).
\<close>

definition stores_status :: "'w sdk \<Rightarrow> bool" where
  "stores_status D \<longleftrightarrow>
     (\<forall>h w bvs wait j. h_verb h = ''PUT'' \<longrightarrow> h_body h = Some (JObj bvs) \<longrightarrow>
        fst (client_Do (sdk_conn D) h w) = Response wait (Inr j) \<longrightarrow>
        (\<exists>kvs. j = JObj kvs \<and> map_of kvs ''status'' = map_of bvs ''status''))"

lemma body_status:
  "\<exists>bvs. request_enc D r = JObj bvs \<and> map_of bvs ''status'' = Some (marshal_status (Status r))"
  by (simp add: request_enc_def marshal_request_def request_tags_def struct_defs)

lemma decoded_status:
  assumes "request_dec D (JObj kvs) r = Some r'" and "map_of kvs ''status'' = Some v"
  shows "unmarshal_status_into v (Status r) = Some (Status r')"
  using assms
  by (auto simp: request_dec_def unmarshal_request_into_def request_tags_def json_field_def
      dominant_def bind_eq_Some_conv)

lemma rc_Update_answer:
  assumes "fst (rc_Update C rc obj w) = Inr j"
    and "\<And>h w wait j. h_verb h = ''PUT'' \<Longrightarrow> h_body h = Some obj \<Longrightarrow>
      fst (client_Do C h w) = Response wait (Inr j) \<Longrightarrow> P j"
  shows "P j"
proof -
  let ?q = "Request_Body obj (Request_Name (GetName obj) (rc_request rc ''PUT''))"
  have r: "fst (Do C ?q w) = Inr j"
    using assms(1) by (auto simp: rc_Update_def Result_Into_def dynamic_decode_def split_beta Let_def
        split: if_splits sum.splits json.splits)
  have "rq_err ?q = None"
    using r by (auto simp: Do_def request_check_def split: option.splits if_splits)
  moreover have "rq_verb (rc_request rc ''PUT'') = ''PUT''"
    by (simp add: rc_request_def request_ops NewRequest_def failing_def)
  ultimately have q: "rq_verb ?q = ''PUT''" "rq_body ?q = Some obj"
    by (auto simp: Request_Body_def Request_Name_def failing_def split: if_splits)
  show ?thesis
  proof (rule Do_result [OF _ r])
    fix v wait j
    assume "fst (client_Do C (http_of ?q) v) = Response wait (Inr j)"
    then show "P j" using assms(2) [of "http_of ?q" v wait j] q by (simp add: http_of_def)
  qed
qed

text \<open>What an update makes of the status of a request: nothing, or what decoding the status
  as it was sent makes of it.\<close>

lemma updated_status:
  assumes "stores_status D" and "update_request (sdk_api D base) r w = ((err, r'), w')"
  shows "r' = r \<or> unmarshal_status_into (marshal_status (Status r)) (Status r) = Some (Status r')"
proof (cases "r' = r")
  case False
  obtain rc v j where j: "fst (rc_Update (sdk_conn D) rc (request_enc D r) v) = Inr j"
    and d: "request_dec D j r = Some r'"
    using assms(2) False
    by (auto simp: sdk_api_def write_request_def split_beta Let_def split: sum.splits
        dest: into_object_cases)
  obtain bvs where b: "request_enc D r = JObj bvs" "map_of bvs ''status'' = Some (marshal_status (Status r))"
    using body_status by blast
  have "\<exists>kvs. j = JObj kvs \<and> map_of kvs ''status'' = Some (marshal_status (Status r))"
  proof (rule rc_Update_answer [OF j])
    fix h v wait j'
    assume h: "h_verb h = ''PUT''" "h_body h = Some (request_enc D r)"
      "fst (client_Do (sdk_conn D) h v) = Response wait (Inr j')"
    from assms(1) [unfolded stores_status_def, rule_format, OF h(1) h(2) [unfolded b(1)] h(3)] b(2)
    show "\<exists>kvs. j' = JObj kvs \<and> map_of kvs ''status'' = Some (marshal_status (Status r))" by simp
  qed
  with d show ?thesis using decoded_status by blast
qed simp

lemma keeps_complete_sdk:
  assumes "stores_status D"
  shows "keeps_complete (sdk_api D base)"
  unfolding keeps_complete_def using updated_status [OF assms] complete_echo by (metis prod.collapse)

text \<open>
  Such a server echoes, if it also leaves the commands of new jobs alone.
\<close>

lemma echoes_sdk:
  assumes "stores_status D"
    and "\<And>j w. list_all (\<lambda>(sent, answered). Command answered \<in> {[], Command sent})
      (zip (Containers j) (Containers (snd (fst (create_job (sdk_api D base) j w)))))"
  shows "echoes (sdk_api D base)"
  unfolding echoes_def
proof (intro conjI allI)
  fix r w
  obtain err r' w' where u: "update_request (sdk_api D base) r w = ((err, r'), w')" by (metis surj_pair)
  have "FencingRequestStatus.Config (Status r') = FencingRequestStatus.Config (Status r)"
    using updated_status [OF assms(1) u] config_echo by auto
  then show "FencingRequestStatus.Config (Status (snd (fst (update_request (sdk_api D base) r w)))) \<in>
      {None, FencingRequestStatus.Config (Status r)}" by (simp add: u)
qed (rule assms(2))

subsection \<open>Properties\<close>

text \<open>A request is sent at most ten times, always the same, and not at all when the check
  before it fails; watching the connection changes nothing.\<close>

theorem Do_bounded:
  "\<exists>k \<le> maxRetries. Do (logged C) q (w, sent) =
     (fst (Do C q w), (snd (Do C q w), sent @ replicate k (http_of q))) \<and>
     (k = 0 \<longleftrightarrow> request_check q \<noteq> None)"
proof (cases "request_check q")
  case None
  obtain k where "k \<le> maxRetries - 1" "attempt_loop (logged C) (http_of q) (maxRetries - 1) (w, sent) =
      (fst (Do C q w), (snd (Do C q w), sent @ replicate (Suc k) (http_of q)))"
    using attempt_loop_logged [of "maxRetries - 1" C "http_of q" w sent] by (auto simp: Do_def None)
  then show ?thesis by (intro exI [of _ "Suc k"]) (auto simp: Do_def None maxRetries_def)
qed (simp add: Do_def)

text \<open>With the client that the operator is built with, in any run and whatever the server
  answers, every job that is created is built from the first method of a configuration that was
  loaded, every update carries its history, and no write is tried twice after a sleep: what the
  client decodes always satisfies the contract that these need.\<close>

theorem sdk_runs_good:
  assumes "reach (sdk_api D base) getenv yaml evs x" and "yaml_ok yaml"
  shows "wire_server (sdk_api D base) \<and> list_all (good (sdk_api D base) yaml) (calls (final_state x)) \<and>
    cfgs_loaded (sdk_api D base) yaml (fencingConfigs (final_state x))"
  using reach_good [OF assms(1) wire_sdk assms(2)] wire_sdk by blast

text \<open>C16: the code passes \<open>"--all-namespaces"\<close>, a flag of the command line client, as the
  namespace of its queries. No namespace can have that name, so the queries for objects that live in
  namespaces, fencing requests and pods, find nothing (nodes live in none and are found): no request is ever deleted, none is completed but by giving up, and every
  request that is created lists no pods.\<close>

theorem nothing_in_all_namespaces:
  assumes "reach (sdk_api D base) getenv yaml evs x"
    and "namespaced_kind D fencing_version ''FencingRequest''" and "namespaced_kind D ''v1'' ''Pod''"
    and "namespaces_are_labels D"
  shows "\<forall>c \<in> set (calls (final_state x)). case c of
      DeleteRequest r \<Rightarrow> False
    | UpdateRequest r \<Rightarrow> Complete (Status r) \<longrightarrow> Result (Status r) \<in> {''NoConfig'', ''GivingUp''}
    | CreateRequest r \<Rightarrow> PodList (Spec r) = []
    | _ \<Rightarrow> True"
proof
  fix c assume "c \<in> set (calls (final_state x))"
  then have "unnoticed c" "podless c"
    using reach_unnoticed [OF assms(1) sdk_finds_none [OF assms(2,4)]]
      podless_runs.on_reach [OF assms(1)] sdk_finds_no_pods [OF assms(3,4), of base]
    by (auto simp: list_all_iff)
  then show "case c of
      DeleteRequest r \<Rightarrow> False
    | UpdateRequest r \<Rightarrow> Complete (Status r) \<longrightarrow> Result (Status r) \<in> {''NoConfig'', ''GivingUp''}
    | CreateRequest r \<Rightarrow> PodList (Spec r) = []
    | _ \<Rightarrow> True"
    by (cases c) (simp_all add: gives_up_def)
qed

text \<open>Looking up the claim of a pod's volume always fails: the query names no namespace, and
  the client refuses it before anything is sent.\<close>

theorem claim_lookup_fails:
  assumes "namespaced_kind D ''v1'' ''PersistentVolumeClaim''"
  shows "fst (query_Get_pvc (sdk_api D base) name s) \<noteq> None"
  using pvc_refused [OF assms, of base name "world s"]
  by (simp add: query_Get_pvc_def perform_def split_beta Let_def)

text \<open>A server for the witnesses: its lists are empty, and it answers a write with what it was sent.\<close>

definition empty_conn :: "unit conn" where
  "empty_conn =
     \<lparr>client_Do = (\<lambda>h w.
        (Response None (Inr (case (h_verb h = ''GET'', h_body h) of
           (False, Some j) \<Rightarrow> j
         | _ \<Rightarrow> JObj [(''kind'', JStr ''List''), (''items'', JArr [])])), w)),
      backoff_Sleep = (\<lambda>d w. w)\<rparr>"

definition empty_sdk :: "unit sdk" where
  "empty_sdk =
     \<lparr>sdk_conn = empty_conn, dynamic_client = (\<lambda>gv. None),
      rest_mapping = (\<lambda>g v kind w. (Inr (ToLower kind @ ''s'', kind \<noteq> ''Node''), w)),
      sdk_codecs = \<lparr>meta_enc = name_codec, meta_dec = (\<lambda>j m. name_decoder j),
        job_enc = (\<lambda>j. JObj []), job_dec = (\<lambda>j old. None), node_dec = (\<lambda>j old. None),
        pod_dec = (\<lambda>j old. None), pvc_dec = (\<lambda>j. True)\<rparr>\<rparr>"

lemma empty_sdk_laws:
  "kind \<noteq> ''Node'' \<Longrightarrow> namespaced_kind empty_sdk apiVersion kind" "namespaces_are_labels empty_sdk"
  by (simp_all add: namespaced_kind_def namespaces_are_labels_def empty_sdk_def empty_conn_def
      list_items_def)

lemma empty_sdk_stores: "stores_status empty_sdk"
  by (auto simp: stores_status_def empty_sdk_def empty_conn_def)

text \<open>A run in which a node is lost, so that a request is created.\<close>

definition empty_api :: "unit api" where
  "empty_api = sdk_api empty_sdk quiet"

lemma echoes_empty: "echoes (sdk_api empty_sdk quiet)"
proof (rule echoes_sdk [OF empty_sdk_stores])
  fix j w
  obtain err j' w' where c: "create_job (sdk_api empty_sdk quiet) j w = ((err, j'), w')"
    by (metis surj_pair)
  have "j' = j"
    using c by (auto simp: sdk_api_def empty_sdk_def split_beta Let_def split: sum.splits
        dest: into_object_cases)
  then have "snd (fst (create_job (sdk_api empty_sdk quiet) j w)) = j" unfolding c by simp
  then show "list_all (\<lambda>(sent, answered). Command answered \<in> {[], Command sent})
      (zip (Containers j) (Containers (snd (fst (create_job (sdk_api empty_sdk quiet) j w)))))"
    by (auto simp: list_all_iff in_set_zip)
qed

lemma empty_run:
  "\<exists>s. reach empty_api (\<lambda>v. ''ns'') sample_yaml [(ENode (lost_node ''Unknown''), False)] (Returned () s) \<and>
     (\<exists>r. CreateRequest r \<in> set (calls s))"
proof -
  let ?e = "(ENode (lost_node ''Unknown''), False)" and ?s0 = "\<lparr>world = (), fencingConfigs = [], calls = []\<rparr>"
  obtain t where h: "Handle empty_api (\<lambda>v. ''ns'') sample_yaml in_order (fst ?e) False ?s0 = Returned None t"
    by (simp add: Handle_def)
  have r: "reach empty_api (\<lambda>v. ''ns'') sample_yaml ([] @ [?e]) (Returned () t)"
    using reach.handle [OF reach.start, of "fst ?e" empty_api "\<lambda>v. ''ns''" sample_yaml False in_order "()"] h
    by simp
  have "finds_no_requests empty_api"
    unfolding empty_api_def by (rule sdk_finds_none [OF empty_sdk_laws]) simp
  from reach_creations [OF r this] have "creations (calls t) \<noteq> 0"
    by (simp add: lost_node_def lost_def)
  then obtain c where c: "c \<in> set (calls t)" "creation c" unfolding creations_def
    by (metis filter_False list.size(3))
  obtain q where "c = CreateRequest q" using c(2) by (cases c) simp_all
  with c have "\<exists>r. CreateRequest r \<in> set (calls t)" by blast
  with r show ?thesis by auto
qed

theorem sdk_runs_good_witness:
  "\<exists>s. reach empty_api (\<lambda>v. ''ns'') sample_yaml [(ENode (lost_node ''Unknown''), False)] (Returned () s) \<and>
     list_all (good empty_api sample_yaml) (calls s)"
proof -
  obtain s where r: "reach (sdk_api empty_sdk quiet) (\<lambda>v. ''ns'') sample_yaml
      [(ENode (lost_node ''Unknown''), False)] (Returned () s)"
    using empty_run unfolding empty_api_def by blast
  from sdk_runs_good [OF r yaml_ok_sample] r show ?thesis unfolding empty_api_def by auto
qed

theorem nothing_in_all_namespaces_witness:
  "\<exists>s r. reach empty_api (\<lambda>v. ''ns'') sample_yaml [(ENode (lost_node ''Unknown''), False)] (Returned () s) \<and>
     CreateRequest r \<in> set (calls s) \<and> PodList (Spec r) = []"
proof -
  obtain s q where r: "reach (sdk_api empty_sdk quiet) (\<lambda>v. ''ns'') sample_yaml
      [(ENode (lost_node ''Unknown''), False)] (Returned () s)" and q: "CreateRequest q \<in> set (calls s)"
    using empty_run unfolding empty_api_def by blast
  have "PodList (Spec q) = []"
    using nothing_in_all_namespaces [OF r empty_sdk_laws(1) empty_sdk_laws(1) empty_sdk_laws(2)] q
    by fastforce
  with r q show ?thesis unfolding empty_api_def by blast
qed

theorem claim_lookup_fails_witness:
  "fst (query_Get_pvc empty_api ''claim'' \<lparr>world = (), fencingConfigs = [], calls = []\<rparr>) \<noteq> None"
  unfolding empty_api_def by (rule claim_lookup_fails [OF empty_sdk_laws(1)]) simp

end
