(* ===== verification/Workqueue.thy ===== *)
theory Workqueue
  imports Prelude
begin

section \<open>The work queue of an informer (vendored client-go: util/workqueue)\<close>

text \<open>
  The queue between the notifications of an informer and its worker
  (\<open>k8s.io/client-go/util/workqueue/queue.go\<close>): a key that is added while it waits is not added
  again, and a key that is added while it is worked on waits until that is done. On top of it
  the delayed and rate limited additions (\<open>delaying_queue.go\<close>, \<open>rate_limitting_queue.go\<close>,
  \<open>default_rate_limiters.go\<close>). Each operation holds the queue's lock, so it is one step. Metrics
  are left out.
\<close>

subsection \<open>The queue (queue.go)\<close>

record 'k wqueue =
  wq_queue :: "'k list"
  wq_dirty :: "'k set"
  wq_processing :: "'k set"
  wq_shuttingDown :: bool

definition NewNamed :: "'k wqueue" where
  "NewNamed = \<lparr>wq_queue = [], wq_dirty = {}, wq_processing = {}, wq_shuttingDown = False\<rparr>"

definition Add :: "'k \<Rightarrow> 'k wqueue \<Rightarrow> 'k wqueue" where
  "Add item q =
     (if wq_shuttingDown q then q
      else if item \<in> wq_dirty q then q
      else
       (let q1 = q\<lparr>wq_dirty := insert item (wq_dirty q)\<rparr>
        in if item \<in> wq_processing q then q1 else q1\<lparr>wq_queue := wq_queue q1 @ [item]\<rparr>))"

definition Len :: "'k wqueue \<Rightarrow> nat" where
  "Len q = length (wq_queue q)"

text \<open>\<open>None\<close>: the caller waits. \<open>Some (None, q)\<close>: the queue is shut down.\<close>

definition Get :: "'k wqueue \<Rightarrow> ('k option \<times> 'k wqueue) option" where
  "Get q =
     (case wq_queue q of
        [] \<Rightarrow> if wq_shuttingDown q then Some (None, q) else None
      | item # rest \<Rightarrow>
          Some (Some item, q\<lparr>wq_queue := rest, wq_processing := insert item (wq_processing q),
            wq_dirty := wq_dirty q - {item}\<rparr>))"

definition Done :: "'k \<Rightarrow> 'k wqueue \<Rightarrow> 'k wqueue" where
  "Done item q =
     (let q1 = q\<lparr>wq_processing := wq_processing q - {item}\<rparr>
      in if item \<in> wq_dirty q1 then q1\<lparr>wq_queue := wq_queue q1 @ [item]\<rparr> else q1)"

definition ShutDown :: "'k wqueue \<Rightarrow> 'k wqueue" where
  "ShutDown q = q\<lparr>wq_shuttingDown := True\<rparr>"

definition ShuttingDown :: "'k wqueue \<Rightarrow> bool" where
  "ShuttingDown q = wq_shuttingDown q"

lemmas wq_defs = NewNamed_def Add_def Len_def Get_def Done_def ShutDown_def ShuttingDown_def

subsection \<open>The contract of a work queue\<close>

text \<open>
  What the informer needs of its queue: the keys that wait (\<open>pending\<close>) and those that are worked
  on (\<open>held\<close>) as sets. An added key waits; a key that is taken was waiting, was not worked on, and
  no longer waits; a key whose work is done waits if it was added meanwhile; and a key that waits
  and is not worked on can be taken sooner or later, because the queue is not blocked.
\<close>

locale work_queue =
  fixes invar :: "'q \<Rightarrow> bool" and pending :: "'q \<Rightarrow> 'k set" and held :: "'q \<Rightarrow> 'k set"
    and add :: "'k \<Rightarrow> 'q \<Rightarrow> 'q" and pick :: "'q \<Rightarrow> ('k \<times> 'q) option" and finish :: "'k \<Rightarrow> 'q \<Rightarrow> 'q"
    and fresh :: 'q
  assumes fresh: "invar fresh" "pending fresh = {}" "held fresh = {}"
    and add: "invar q \<Longrightarrow> invar (add k q)" "invar q \<Longrightarrow> pending (add k q) = insert k (pending q)"
      "invar q \<Longrightarrow> held (add k q) = held q"
    and pick: "invar q \<Longrightarrow> pick q = Some (k, q') \<Longrightarrow> invar q' \<and> k \<in> pending q \<and> k \<notin> held q \<and>
      pending q' = pending q - {k} \<and> held q' = insert k (held q)"
    and finish: "invar q \<Longrightarrow> k \<in> held q \<Longrightarrow> invar (finish k q) \<and> pending (finish k q) = pending q \<and>
      held (finish k q) = held q - {k}"
    and blocked: "invar q \<Longrightarrow> pick q = None \<longleftrightarrow> pending q \<subseteq> held q"
    and finite_pending: "invar q \<Longrightarrow> finite (pending q)"
begin

lemma pick_idle: "invar q \<Longrightarrow> held q = {} \<Longrightarrow> pick q = None \<longleftrightarrow> pending q = {}"
  by (auto simp: blocked)

text \<open>Picking a key is progress, and an addition costs at most one.\<close>

lemma card_pick: "invar q \<Longrightarrow> pick q = Some (k, q') \<Longrightarrow> card (pending q) = Suc (card (pending q'))"
  using pick finite_pending by (metis card.remove)

lemma card_add: "invar q \<Longrightarrow> card (pending (add k q)) \<le> Suc (card (pending q))"
  using finite_pending by (simp add: add card_insert_if)

end

subsection \<open>The queue keeps the contract\<close>

text \<open>
  The invariant the comments in \<open>queue.go\<close> state, and more: the queue holds exactly the dirty
  keys that are not worked on, each once.
\<close>

definition wq_ok :: "'k wqueue \<Rightarrow> bool" where
  "wq_ok q \<longleftrightarrow> distinct (wq_queue q) \<and> set (wq_queue q) = wq_dirty q - wq_processing q \<and>
     finite (wq_dirty q) \<and> \<not> wq_shuttingDown q"

text \<open>\<open>Get\<close> of a queue that is not shut down.\<close>

definition take_key :: "'k wqueue \<Rightarrow> ('k \<times> 'k wqueue) option" where
  "take_key q = (case Get q of Some (Some k, q') \<Rightarrow> Some (k, q') | _ \<Rightarrow> None)"

lemma take_key_eq:
  "take_key q =
     (case wq_queue q of
        [] \<Rightarrow> None
      | k # rest \<Rightarrow> Some (k, q\<lparr>wq_queue := rest, wq_processing := insert k (wq_processing q),
            wq_dirty := wq_dirty q - {k}\<rparr>))"
  by (simp add: take_key_def Get_def split: list.split)

lemma wq_ok_Add: "wq_ok q \<Longrightarrow> wq_ok (Add k q)"
  by (cases "k \<in> wq_dirty q"; cases "k \<in> wq_processing q")
    (simp_all add: wq_ok_def Add_def Let_def insert_Diff_if)

lemma dirty_Add: "wq_ok q \<Longrightarrow> wq_dirty (Add k q) = insert k (wq_dirty q)"
  by (simp add: wq_ok_def Add_def Let_def insert_absorb)

lemma processing_Add: "wq_processing (Add k q) = wq_processing q"
  by (simp add: Add_def Let_def)

lemma Done_facts:
  assumes "wq_ok q" and "k \<in> wq_processing q"
  shows "wq_ok (Done k q)" "wq_dirty (Done k q) = wq_dirty q"
    "wq_processing (Done k q) = wq_processing q - {k}"
proof -
  show d: "wq_dirty (Done k q) = wq_dirty q" and p: "wq_processing (Done k q) = wq_processing q - {k}"
    by (simp_all add: Done_def Let_def)
  have q: "distinct (wq_queue q)" "set (wq_queue q) = wq_dirty q - wq_processing q"
    "finite (wq_dirty q)" "\<not> wq_shuttingDown q" using assms(1) by (simp_all add: wq_ok_def)
  have new: "wq_queue (Done k q) = (if k \<in> wq_dirty q then wq_queue q @ [k] else wq_queue q)"
    "wq_shuttingDown (Done k q) = wq_shuttingDown q" by (simp_all add: Done_def Let_def)
  have "k \<notin> set (wq_queue q)" using q(2) assms(2) by blast
  moreover have "wq_dirty q - (wq_processing q - {k}) =
      (if k \<in> wq_dirty q then insert k (wq_dirty q - wq_processing q) else wq_dirty q - wq_processing q)"
    by auto
  ultimately show "wq_ok (Done k q)"
    unfolding wq_ok_def d p new using q by simp
qed

lemma take_key_facts:
  assumes "wq_ok q" and "take_key q = Some (k, q')"
  shows "wq_ok q' \<and> k \<in> wq_dirty q \<and> k \<notin> wq_processing q \<and>
      wq_dirty q' = wq_dirty q - {k} \<and> wq_processing q' = insert k (wq_processing q)"
proof -
  obtain rest where q: "wq_queue q = k # rest"
    "q' = q\<lparr>wq_queue := rest, wq_processing := insert k (wq_processing q), wq_dirty := wq_dirty q - {k}\<rparr>"
    using assms(2) by (auto simp: take_key_eq split: list.splits)
  have ok: "distinct (k # rest)" "set (k # rest) = wq_dirty q - wq_processing q"
    "finite (wq_dirty q)" "\<not> wq_shuttingDown q" using assms(1) q(1) by (simp_all add: wq_ok_def)
  have k: "k \<in> wq_dirty q - wq_processing q" using ok(2) [symmetric] by simp
  have "set rest = set (k # rest) - {k}" using ok(1) by simp
  also have "\<dots> = wq_dirty q - {k} - insert k (wq_processing q)" unfolding ok(2) by blast
  finally have "set rest = wq_dirty q - {k} - insert k (wq_processing q)" .
  with ok(1,3,4) k show ?thesis by (simp add: q(2) wq_ok_def)
qed

interpretation wq: work_queue wq_ok wq_dirty wq_processing Add take_key Done NewNamed
proof unfold_locales
  fix q q' :: "'k wqueue" and k
  show "wq_ok (NewNamed :: 'k wqueue)" "wq_dirty (NewNamed :: 'k wqueue) = {}"
    "wq_processing (NewNamed :: 'k wqueue) = {}" by (simp_all add: wq_ok_def NewNamed_def)
  assume ok: "wq_ok q"
  show "wq_ok (Add k q)" "wq_dirty (Add k q) = insert k (wq_dirty q)"
    "wq_processing (Add k q) = wq_processing q"
    using ok by (simp_all add: wq_ok_Add dirty_Add processing_Add)
  show "take_key q = Some (k, q') \<Longrightarrow> wq_ok q' \<and> k \<in> wq_dirty q \<and> k \<notin> wq_processing q \<and>
      wq_dirty q' = wq_dirty q - {k} \<and> wq_processing q' = insert k (wq_processing q)"
    using ok by (rule take_key_facts)
  show "k \<in> wq_processing q \<Longrightarrow> wq_ok (Done k q) \<and> wq_dirty (Done k q) = wq_dirty q \<and>
      wq_processing (Done k q) = wq_processing q - {k}"
    using Done_facts [OF ok] by simp
  show "take_key q = None \<longleftrightarrow> wq_dirty q \<subseteq> wq_processing q"
  proof -
    have "take_key q = None \<longleftrightarrow> set (wq_queue q) = {}"
      by (cases "wq_queue q") (simp_all add: take_key_eq)
    also have "set (wq_queue q) = wq_dirty q - wq_processing q" using ok by (simp add: wq_ok_def)
    finally show ?thesis by (simp add: Diff_eq_empty_iff)
  qed
  show "finite (wq_dirty q)" using ok by (simp add: wq_ok_def)
qed

subsection \<open>Rate limits (default_rate_limiters.go, rate_limitting_queue.go, delaying_queue.go)\<close>

text \<open>
  \<open>ItemExponentialFailureRateLimiter\<close>: durations in nanoseconds. The source computes with
  \<open>float64\<close>; a power of two times the base is exact there, so the comparison with the greatest
  \<open>int64\<close> (as a float: \<open>2 ^ 63\<close>) is one of integers.
\<close>

definition baseDelay :: int where
  "baseDelay = 5000000"

definition maxDelay :: int where
  "maxDelay = 1000000000000"

definition item_delay :: "nat \<Rightarrow> int" where
  "item_delay exponent =
     (let backoff = baseDelay * 2 ^ exponent
      in if 2 ^ 63 < backoff then maxDelay else if maxDelay < backoff then maxDelay else backoff)"

record 'k ratelimited =
  rl_queue :: "'k wqueue"
  rl_failures :: "'k \<Rightarrow> nat"
  rl_waiting :: "'k list"

definition NewNamedRateLimitingQueue :: "'k ratelimited" where
  "NewNamedRateLimitingQueue = \<lparr>rl_queue = NewNamed, rl_failures = (\<lambda>k. 0), rl_waiting = []\<rparr>"

definition When :: "'k \<Rightarrow> 'k ratelimited \<Rightarrow> int \<times> 'k ratelimited" where
  "When item q =
     (item_delay (rl_failures q item),
      q\<lparr>rl_failures := (rl_failures q)(item := Suc (rl_failures q item))\<rparr>)"

definition NumRequeues :: "'k \<Rightarrow> 'k ratelimited \<Rightarrow> nat" where
  "NumRequeues item q = rl_failures q item"

definition Forget :: "'k \<Rightarrow> 'k ratelimited \<Rightarrow> 'k ratelimited" where
  "Forget item q = q\<lparr>rl_failures := (rl_failures q)(item := 0)\<rparr>"

text \<open>
  A delayed key waits outside the queue, once, until its time has come (\<open>ready\<close>); when that is
  stays open. \<open>bucket\<close> is the delay of the token bucket that all keys share.
\<close>

definition AddAfter :: "'k \<Rightarrow> int \<Rightarrow> 'k ratelimited \<Rightarrow> 'k ratelimited" where
  "AddAfter item duration q =
     (if ShuttingDown (rl_queue q) then q
      else if duration \<le> 0 then q\<lparr>rl_queue := Add item (rl_queue q)\<rparr>
      else if item \<in> set (rl_waiting q) then q
      else q\<lparr>rl_waiting := rl_waiting q @ [item]\<rparr>)"

definition ready :: "'k \<Rightarrow> 'k ratelimited \<Rightarrow> 'k ratelimited" where
  "ready item q =
     q\<lparr>rl_waiting := remove1 item (rl_waiting q), rl_queue := Add item (rl_queue q)\<rparr>"

definition AddRateLimited :: "int \<Rightarrow> 'k \<Rightarrow> 'k ratelimited \<Rightarrow> 'k ratelimited" where
  "AddRateLimited bucket item q =
     (let (delay, q1) = When item q in AddAfter item (max delay bucket) q1)"

lemma item_delay_min: "item_delay n = min (baseDelay * 2 ^ n) maxDelay"
proof -
  have "maxDelay < 2 ^ 63" by (simp add: maxDelay_def)
  then show ?thesis by (auto simp: item_delay_def Let_def min_def)
qed

lemma item_delay_positive: "0 < item_delay n"
  by (simp add: item_delay_min baseDelay_def maxDelay_def)

text \<open>Forgetting a key that has not failed changes nothing.\<close>

lemma Forget_never_failed: "rl_failures q = (\<lambda>k. 0) \<Longrightarrow> Forget item q = q"
  by (cases q) (simp add: Forget_def fun_eq_iff)

end
