(* ===== verification/Informer.thy ===== *)
theory Informer
  imports Workqueue Sdk Workflow
begin

section \<open>Informers (vendored operator-sdk: sdk/informer)\<close>

text \<open>
  How an object of the cluster becomes an event for \<open>Handle\<close>. \<open>sdk.Watch\<close> makes one informer per
  watched resource (\<open>informer.go\<close>): a shared informer of client-go that keeps the objects it has
  seen (\<open>indexer\<close>) and notifies of changes, the handlers of the notifications that put the key
  of the object into a work queue, and one worker that takes the keys, reads the object and
  calls \<open>Handle\<close> (\<open>sync.go\<close>). What the reflector of the shared informer hands over is left open
  here: any sequence of deltas (\<open>Reflector\<close> makes them from the lists and watch events of the
  server). The notifications wait in the order in which they were made; they are
  delivered by one goroutine and the keys worked on by another, so every step below may come
  between any two of the other. All informers share the operator's state.
\<close>

subsection \<open>Objects and keys (tools/cache/store.go, controller.go)\<close>

text \<open>
  A deleted object as the reflector reports it: the object, or, when the deletion itself was
  missed and only noticed by listing again, \<open>DeletedFinalStateUnknown\<close> with its key and the state
  last seen.
\<close>

datatype deleted_object = Object json | DeletedFinalStateUnknown string json

definition MetaNamespaceKeyFunc :: "json \<Rightarrow> string" where
  "MetaNamespaceKeyFunc obj =
     (if GetNamespace obj \<noteq> [] then GetNamespace obj @ ''/'' @ GetName obj else GetName obj)"

fun DeletionHandlingMetaNamespaceKeyFunc :: "deleted_object \<Rightarrow> string" where
  "DeletionHandlingMetaNamespaceKeyFunc (DeletedFinalStateUnknown key obj) = key"
| "DeletionHandlingMetaNamespaceKeyFunc (Object obj) = MetaNamespaceKeyFunc obj"

subsection \<open>The state of an informer (informer.go)\<close>

datatype delta = Sync json | Added json | Updated json | Deleted deleted_object

datatype notification =
    AddNotification json
  | UpdateNotification json json
  | DeleteNotification deleted_object

text \<open>
  The worker: idle, with the key it has taken, or after \<open>sync\<close> with the error it returned and
  whether \<open>sync\<close> has handled a deletion, of which it then forgets the object.
\<close>

datatype worker = Idle | Holding string | Synced string bool "error option"

text \<open>
  \<open>delivered\<close> and \<open>touched\<close> are ghost fields: what \<open>Handle\<close> was called for (the key, whether the
  object exists, the object), and the keys of all deltas.
\<close>

record informer =
  indexer :: "string \<rightharpoonup> json"
  notifications :: "notification list"
  deletedObjects :: "string \<rightharpoonup> json"
  work :: "string ratelimited"
  worker :: worker
  delivered :: "(string \<times> bool \<times> json) list"
  touched :: "string set"

definition New :: informer where
  "New = \<lparr>indexer = Map.empty, notifications = [], deletedObjects = Map.empty,
     work = NewNamedRateLimitingQueue, worker = Idle, delivered = [], touched = {}\<rparr>"

definition queue_Add :: "string \<Rightarrow> informer \<Rightarrow> informer" where
  "queue_Add key I = I\<lparr>work := (work I)\<lparr>rl_queue := Add key (rl_queue (work I))\<rparr>\<rparr>"

definition queue_Done :: "string \<Rightarrow> informer \<Rightarrow> informer" where
  "queue_Done key I = I\<lparr>work := (work I)\<lparr>rl_queue := Done key (rl_queue (work I))\<rparr>\<rparr>"

subsection \<open>Deltas (shared_informer.go)\<close>

text \<open>
  The handlers below are the only listener, and its resync period is that of the informer, so it is
  told of a \<open>Sync\<close> as of any other delta.
\<close>

definition store_object :: "json \<Rightarrow> informer \<Rightarrow> informer" where
  "store_object obj I =
     (let key = MetaNamespaceKeyFunc obj
      in I\<lparr>indexer := (indexer I)(key \<mapsto> obj),
           notifications := notifications I @
             [case indexer I key of
                Some old \<Rightarrow> UpdateNotification old obj
              | None \<Rightarrow> AddNotification obj],
           touched := insert key (touched I)\<rparr>)"

definition delete_object :: "deleted_object \<Rightarrow> informer \<Rightarrow> informer" where
  "delete_object d I =
     (let key = DeletionHandlingMetaNamespaceKeyFunc d
      in I\<lparr>indexer := (indexer I)(key := None),
           notifications := notifications I @ [DeleteNotification d],
           touched := insert key (touched I)\<rparr>)"

fun HandleDelta :: "delta \<Rightarrow> informer \<Rightarrow> informer" where
  "HandleDelta (Sync obj) I = store_object obj I"
| "HandleDelta (Added obj) I = store_object obj I"
| "HandleDelta (Updated obj) I = store_object obj I"
| "HandleDelta (Deleted d) I = delete_object d I"

definition HandleDeltas :: "delta list \<Rightarrow> informer \<Rightarrow> informer" where
  "HandleDeltas ds I = fold HandleDelta ds I"

subsection \<open>Notifications (informer.go)\<close>

definition handleAddResourceEvent :: "json \<Rightarrow> informer \<Rightarrow> informer" where
  "handleAddResourceEvent obj I = queue_Add (MetaNamespaceKeyFunc obj) I"

definition handleUpdateResourceEvent :: "json \<Rightarrow> json \<Rightarrow> informer \<Rightarrow> informer" where
  "handleUpdateResourceEvent oldObj newObj I = queue_Add (MetaNamespaceKeyFunc newObj) I"

text \<open>
  The key is found for both kinds of deleted objects, but the object is then asserted to be an
  \<open>*unstructured.Unstructured\<close>, which \<open>DeletedFinalStateUnknown\<close> is not.
\<close>

definition type_assertion :: panic where
  "type_assertion = Explicit (''interface conversion: interface is cache.DeletedFinalStateUnknown, '' @
     ''not *unstructured.Unstructured'')"

fun handleDeleteResourceEvent :: "deleted_object \<Rightarrow> informer \<Rightarrow> (informer, unit) outcome" where
  "handleDeleteResourceEvent (DeletedFinalStateUnknown key obj) I = Panicked type_assertion I"
| "handleDeleteResourceEvent (Object obj) I =
     (let key = MetaNamespaceKeyFunc obj
      in Returned () (queue_Add key (I\<lparr>deletedObjects := (deletedObjects I)(key \<mapsto> obj)\<rparr>)))"

text \<open>\<open>processorListener.run\<close>: the next notification.\<close>

fun deliver_notification :: "notification \<Rightarrow> informer \<Rightarrow> (informer, unit) outcome" where
  "deliver_notification (AddNotification obj) I = Returned () (handleAddResourceEvent obj I)"
| "deliver_notification (UpdateNotification old obj) I =
     Returned () (handleUpdateResourceEvent old obj I)"
| "deliver_notification (DeleteNotification d) I = handleDeleteResourceEvent d I"

definition notify :: "informer \<Rightarrow> (informer, unit) outcome option" where
  "notify I =
     (case notifications I of
        [] \<Rightarrow> None
      | n # ns \<Rightarrow> Some (deliver_notification n (I\<lparr>notifications := ns\<rparr>)))"

subsection \<open>Decoding (util/k8sutil/k8sutil.go)\<close>

text \<open>
  The decoders of the API machinery's types, and which other objects it can decode. A fencing
  request is decoded by its own struct tags.
\<close>

record decoders =
  decode_meta :: "json option \<Rightarrow> ObjectMeta option"
  decode_node :: "json \<Rightarrow> Node option"
  decode_event :: "json \<Rightarrow> Event option"
  decode_job :: "json \<Rightarrow> Job option"
  decode_config_map :: "json \<Rightarrow> ConfigMap option"
  decodes_other :: "json \<Rightarrow> bool"

definition GroupVersionKind :: "json \<Rightarrow> string \<times> string \<times> string" where
  "GroupVersionKind j =
     (case ParseGroupVersion (GetAPIVersion j) of
        Inl e \<Rightarrow> ([], [], [])
      | Inr (g, v) \<Rightarrow> (g, v, GetKind j))"

text \<open>\<open>None\<close>: the decoder fails, and \<open>RuntimeObjectFromUnstructured\<close> panics.\<close>

definition RuntimeObjectFromUnstructured :: "decoders \<Rightarrow> json \<Rightarrow> event_object option" where
  "RuntimeObjectFromUnstructured dc j =
     (let gvk = GroupVersionKind j
      in if gvk = ([], ''v1'', ''Node'') then map_option ENode (decode_node dc j)
         else if gvk = ([], ''v1'', ''Event'') then map_option EEvent (decode_event dc j)
         else if gvk = (''batch'', ''v1'', ''Job'') then map_option EJob (decode_job dc j)
         else if gvk = ([], ''v1'', ''ConfigMap'') then map_option EConfigMap (decode_config_map dc j)
         else if gvk = (''fencing.clusterlabs.org'', ''v1alpha1'', ''FencingRequest'')
         then map_option EFencingRequest (unmarshal_request (decode_meta dc) j)
         else if decodes_other dc j then Some EOther else None)"

definition decode_panic :: panic where
  "decode_panic = Explicit ''failed to decode json data''"

subsection \<open>The worker (sync.go)\<close>

definition maxRetries_sync :: nat where
  "maxRetries_sync = 15"

text \<open>\<open>processNextItem\<close> up to \<open>sync\<close>; \<open>None\<close> while the queue has no key.\<close>

definition get_key :: "informer \<Rightarrow> informer option" where
  "get_key I =
     (if worker I = Idle then
        (case take_key (rl_queue (work I)) of
           None \<Rightarrow> None
         | Some (key, q) \<Rightarrow> Some (I\<lparr>work := (work I)\<lparr>rl_queue := q\<rparr>, worker := Holding key\<rparr>))
      else None)"

text \<open>What \<open>sync\<close> finds for a key: the object and whether it exists; \<open>None\<close> when it is gone for good.\<close>

definition last_known :: "string \<Rightarrow> informer \<Rightarrow> (json \<times> bool) option" where
  "last_known key I =
     (case indexer I key of
        Some obj \<Rightarrow> Some (obj, True)
      | None \<Rightarrow> (case deletedObjects I key of None \<Rightarrow> None | Some obj \<Rightarrow> Some (obj, False)))"

text \<open>
  \<open>sync\<close>, over the operator's state and the informer. The events it hands to \<open>Handle\<close> (none or
  one) are returned beside the outcome.
\<close>

definition sync ::
    "'w api \<Rightarrow> (string \<Rightarrow> string) \<Rightarrow> (string \<Rightarrow> gmap \<times> error option) \<Rightarrow> decoders \<Rightarrow> chooser \<Rightarrow>
     string \<Rightarrow> 'w opstate \<Rightarrow> informer \<Rightarrow>
     (event_object \<times> bool) list \<times> ('w opstate \<times> informer, unit) outcome" where
  "sync K getenv yaml dc \<rho> key s I =
     (case last_known key I of
        None \<Rightarrow> ([], Returned () (s, I\<lparr>worker := Synced key False None\<rparr>))
      | Some (obj, exists) \<Rightarrow>
          (case RuntimeObjectFromUnstructured dc obj of
             None \<Rightarrow> ([], Panicked decode_panic (s, I))
           | Some object \<Rightarrow>
               (let I1 = I\<lparr>delivered := delivered I @ [(key, exists, obj)]\<rparr>
                in ([(object, \<not> exists)],
                    (case Handle K getenv yaml \<rho> object (\<not> exists) s of
                       Panicked p t \<Rightarrow> Panicked p (t, I1)
                     | Returned err t \<Rightarrow> Returned ()
                         (t, I1\<lparr>worker := Synced key (\<not> exists \<and> err = None) err\<rparr>))))))"

definition handleErr :: "int \<Rightarrow> error option \<Rightarrow> string \<Rightarrow> informer \<Rightarrow> informer" where
  "handleErr bucket err key I =
     (if err = None then I\<lparr>work := Forget key (work I)\<rparr>
      else if NumRequeues key (work I) < maxRetries_sync
      then I\<lparr>work := AddRateLimited bucket key (work I)\<rparr>
      else I\<lparr>work := Forget key (work I)\<rparr>)"

text \<open>The rest of \<open>sync\<close> and of \<open>processNextItem\<close>.\<close>

definition finish_key :: "int \<Rightarrow> informer \<Rightarrow> informer option" where
  "finish_key bucket I =
     (case worker I of
        Synced key forget err \<Rightarrow>
          (let I1 = (if forget then I\<lparr>deletedObjects := (deletedObjects I)(key := None)\<rparr> else I);
               I2 = handleErr bucket err key I1
           in Some ((queue_Done key I2)\<lparr>worker := Idle\<rparr>))
      | _ \<Rightarrow> None)"

definition ready_key :: "string \<Rightarrow> informer \<Rightarrow> informer option" where
  "ready_key key I =
     (if key \<in> set (rl_waiting (work I)) then Some (I\<lparr>work := ready key (work I)\<rparr>) else None)"

subsection \<open>All informers (sdk/api.go)\<close>

record 'w system =
  op :: "'w opstate"
  informers :: "informer list"

definition with_informer :: "nat \<Rightarrow> informer \<Rightarrow> 'w system \<Rightarrow> 'w system" where
  "with_informer i I S = S\<lparr>informers := (informers S)[i := I]\<rparr>"

text \<open>
  One step of the operator's own goroutines, with the events it hands to \<open>Handle\<close>. A panic in
  any of them ends the process.
\<close>

inductive inner ::
    "'w api \<Rightarrow> (string \<Rightarrow> string) \<Rightarrow> (string \<Rightarrow> gmap \<times> error option) \<Rightarrow> decoders \<Rightarrow>
     'w system \<Rightarrow> (event_object \<times> bool) list \<Rightarrow> ('w system, unit) outcome \<Rightarrow> bool"
  for K getenv yaml dc
where
  notified: "i < length (informers S) \<Longrightarrow> notify (informers S ! i) = Some m \<Longrightarrow>
    inner K getenv yaml dc S []
      (case m of Returned _ I \<Rightarrow> Returned () (with_informer i I S)
       | Panicked p I \<Rightarrow> Panicked p (with_informer i I S))"
| taken: "i < length (informers S) \<Longrightarrow> get_key (informers S ! i) = Some I \<Longrightarrow>
    inner K getenv yaml dc S [] (Returned () (with_informer i I S))"
| synced: "i < length (informers S) \<Longrightarrow> worker (informers S ! i) = Holding key \<Longrightarrow>
    sync K getenv yaml dc \<rho> key (op S) (informers S ! i) = (evs, m) \<Longrightarrow>
    inner K getenv yaml dc S evs
      (case m of Returned _ (s, I) \<Rightarrow> Returned () ((with_informer i I S)\<lparr>op := s\<rparr>)
       | Panicked p (s, I) \<Rightarrow> Panicked p ((with_informer i I S)\<lparr>op := s\<rparr>))"
| finished: "i < length (informers S) \<Longrightarrow> finish_key bucket (informers S ! i) = Some I \<Longrightarrow>
    inner K getenv yaml dc S [] (Returned () (with_informer i I S))"
| readied: "i < length (informers S) \<Longrightarrow> ready_key key (informers S ! i) = Some I \<Longrightarrow>
    inner K getenv yaml dc S [] (Returned () (with_informer i I S))"

text \<open>
  The runs of a process with \<open>n\<close> informers: from the empty state, with steps of its own, deltas
  from the server, and changes of the world in between.
\<close>

inductive running ::
    "'w api \<Rightarrow> (string \<Rightarrow> string) \<Rightarrow> (string \<Rightarrow> gmap \<times> error option) \<Rightarrow> decoders \<Rightarrow> nat \<Rightarrow>
     (event_object \<times> bool) list \<Rightarrow> ('w system, unit) outcome \<Rightarrow> bool"
  for K getenv yaml dc n
where
  begun: "running K getenv yaml dc n [] (Returned ()
    \<lparr>op = \<lparr>world = w, fencingConfigs = [], calls = []\<rparr>, informers = replicate n New\<rparr>)"
| elsewhere: "running K getenv yaml dc n evs (Returned () S) \<Longrightarrow>
    running K getenv yaml dc n evs (Returned () (S\<lparr>op := (op S)\<lparr>world := w\<rparr>\<rparr>))"
| observed: "running K getenv yaml dc n evs (Returned () S) \<Longrightarrow> i < n \<Longrightarrow>
    running K getenv yaml dc n evs
      (Returned () (with_informer i (HandleDeltas ds (informers S ! i)) S))"
| stepped: "running K getenv yaml dc n evs (Returned () S) \<Longrightarrow>
    inner K getenv yaml dc S evs' x \<Longrightarrow> running K getenv yaml dc n (evs @ evs') x"

end
