(* ===== verification/Delta_FIFO.thy ===== *)
theory Delta_FIFO
  imports Informer
begin

section \<open>Where the deltas come from (vendored client-go: tools/cache/delta_fifo.go)\<close>

text \<open>
  The queue between the reflector, which lists and watches the server, and \<open>HandleDeltas\<close>. It
  collects the deltas of each key until they are popped together. It knows the objects that were
  handled before (\<open>knownObjects\<close>, the indexer of the informer), so that it can tell from a new
  list which of them are gone. All of its operations hold its lock, \<open>Pop\<close> for as long as the
  deltas are handled. There is no compressor, and nobody closes the queue.
\<close>

subsection \<open>The queue\<close>

record delta_fifo =
  items :: "string \<rightharpoonup> delta list"
  fifo_queue :: "string list"
  populated :: bool
  initialPopulationCount :: nat

definition NewDeltaFIFO :: delta_fifo where
  "NewDeltaFIFO = \<lparr>items = Map.empty, fifo_queue = [], populated = False, initialPopulationCount = 0\<rparr>"

fun KeyOf :: "delta \<Rightarrow> string" where
  "KeyOf (Sync obj) = MetaNamespaceKeyFunc obj"
| "KeyOf (Added obj) = MetaNamespaceKeyFunc obj"
| "KeyOf (Updated obj) = MetaNamespaceKeyFunc obj"
| "KeyOf (Deleted d) = DeletionHandlingMetaNamespaceKeyFunc d"

fun is_Deleted :: "delta \<Rightarrow> bool" where
  "is_Deleted (Deleted d) = True"
| "is_Deleted _ = False"

fun is_Sync :: "delta \<Rightarrow> bool" where
  "is_Sync (Sync obj) = True"
| "is_Sync _ = False"

text \<open>Of two deletions the one with the most information is kept.\<close>

fun isDeletionDup :: "delta \<Rightarrow> delta \<Rightarrow> delta option" where
  "isDeletionDup (Deleted a) (Deleted (DeletedFinalStateUnknown k obj)) = Some (Deleted a)"
| "isDeletionDup (Deleted a) (Deleted (Object obj)) = Some (Deleted (Object obj))"
| "isDeletionDup a b = None"

definition dedupDeltas :: "delta list \<Rightarrow> delta list" where
  "dedupDeltas ds =
     (if length ds < 2 then ds
      else (case isDeletionDup (ds ! (length ds - 1)) (ds ! (length ds - 2)) of
              Some out \<Rightarrow> take (length ds - 2) ds @ [out]
            | None \<Rightarrow> ds))"

definition willObjectBeDeletedLocked :: "string \<Rightarrow> delta_fifo \<Rightarrow> bool" where
  "willObjectBeDeletedLocked key f =
     (case items f key of None \<Rightarrow> False | Some ds \<Rightarrow> ds \<noteq> [] \<and> is_Deleted (last ds))"

definition queueActionLocked :: "delta \<Rightarrow> delta_fifo \<Rightarrow> delta_fifo" where
  "queueActionLocked d f =
     (let key = KeyOf d
      in if is_Sync d \<and> willObjectBeDeletedLocked key f then f
         else
          (let newDeltas = dedupDeltas ((case items f key of None \<Rightarrow> [] | Some ds \<Rightarrow> ds) @ [d])
           in if newDeltas \<noteq> [] then
                (let f1 = (if items f key = None then f\<lparr>fifo_queue := fifo_queue f @ [key]\<rparr> else f)
                 in f1\<lparr>items := (items f1)(key \<mapsto> newDeltas)\<rparr>)
              else f\<lparr>items := (items f)(key := None)\<rparr>))"

definition fifo_Add :: "json \<Rightarrow> delta_fifo \<Rightarrow> delta_fifo" where
  "fifo_Add obj f = queueActionLocked (Added obj) (f\<lparr>populated := True\<rparr>)"

definition fifo_Update :: "json \<Rightarrow> delta_fifo \<Rightarrow> delta_fifo" where
  "fifo_Update obj f = queueActionLocked (Updated obj) (f\<lparr>populated := True\<rparr>)"

definition fifo_Delete :: "(string \<rightharpoonup> json) \<Rightarrow> json \<Rightarrow> delta_fifo \<Rightarrow> delta_fifo" where
  "fifo_Delete known obj f =
     (let key = MetaNamespaceKeyFunc obj; f1 = f\<lparr>populated := True\<rparr>
      in if known key = None \<and> items f1 key = None then f1
         else queueActionLocked (Deleted (Object obj)) f1)"

text \<open>
  \<open>knownKeys\<close> are the keys of the known objects in the order in which they are listed; a key that
  has no object gives a marker without one.
\<close>

definition unknown_state :: "(string \<rightharpoonup> json) \<Rightarrow> string \<Rightarrow> delta" where
  "unknown_state known k =
     Deleted (DeletedFinalStateUnknown k (case known k of Some obj \<Rightarrow> obj | None \<Rightarrow> JNull))"

definition Replace :: "(string \<rightharpoonup> json) \<Rightarrow> string list \<Rightarrow> json list \<Rightarrow> delta_fifo \<Rightarrow> delta_fifo" where
  "Replace known knownKeys objs f =
     (let keys = map MetaNamespaceKeyFunc objs;
          f1 = fold (\<lambda>obj. queueActionLocked (Sync obj)) objs f;
          deletions = filter (\<lambda>k. k \<notin> set keys) knownKeys;
          f2 = fold (\<lambda>k. queueActionLocked (unknown_state known k)) deletions f1
      in if populated f2 then f2
         else f2\<lparr>populated := True, initialPopulationCount := length objs + length deletions\<rparr>)"

text \<open>\<open>Pop\<close>: the deltas of the next key; \<open>None\<close> while there is none. A key without deltas is skipped.\<close>

fun pop_loop ::
    "(string \<rightharpoonup> delta list) \<Rightarrow> string list \<Rightarrow> nat \<Rightarrow> (string \<times> delta list \<times> string list \<times> nat) option"
where
  "pop_loop its [] n = None"
| "pop_loop its (key # queue) n =
     (case its key of
        None \<Rightarrow> pop_loop its queue (n - 1)
      | Some item \<Rightarrow> Some (key, item, queue, n - 1))"

definition Pop :: "delta_fifo \<Rightarrow> (delta list \<times> delta_fifo) option" where
  "Pop f =
     (case pop_loop (items f) (fifo_queue f) (initialPopulationCount f) of
        None \<Rightarrow> None
      | Some (key, item, queue, n) \<Rightarrow>
          Some (item, f\<lparr>items := (items f)(key := None), fifo_queue := queue,
            initialPopulationCount := n\<rparr>))"

definition HasSynced :: "delta_fifo \<Rightarrow> bool" where
  "HasSynced f \<longleftrightarrow> populated f \<and> initialPopulationCount f = 0"


subsection \<open>What the queue promises\<close>

text \<open>
  The invariant that the comment in the source asks for (lines 97 to 99), and that the deltas of a
  key are deltas of that key.
\<close>

definition fifo_ok :: "delta_fifo \<Rightarrow> bool" where
  "fifo_ok f \<longleftrightarrow> distinct (fifo_queue f) \<and> set (fifo_queue f) = dom (items f) \<and>
     (\<forall>key ds. items f key = Some ds \<longrightarrow> ds \<noteq> [] \<and> (\<forall>d \<in> set ds. KeyOf d = key))"

text \<open>
  The objects there will be once all deltas are handled: \<open>view\<close> is the abstraction of the queue and
  the indexer.
\<close>

fun outcome_of :: "delta \<Rightarrow> json option" where
  "outcome_of (Sync obj) = Some obj"
| "outcome_of (Added obj) = Some obj"
| "outcome_of (Updated obj) = Some obj"
| "outcome_of (Deleted d) = None"

definition view :: "(string \<rightharpoonup> json) \<Rightarrow> delta_fifo \<Rightarrow> string \<rightharpoonup> json" where
  "view known f key = (case items f key of None \<Rightarrow> known key | Some ds \<Rightarrow> outcome_of (last ds))"

lemma dedupDeltas_facts:
  assumes "ds = xs @ [d]"
  shows "dedupDeltas ds \<noteq> []" "outcome_of (last (dedupDeltas ds)) = outcome_of d"
    "set (dedupDeltas ds) \<subseteq> set ds" "is_Deleted (last (dedupDeltas ds)) = is_Deleted d"
proof -
  have "dedupDeltas ds \<noteq> [] \<and> outcome_of (last (dedupDeltas ds)) = outcome_of d \<and>
      set (dedupDeltas ds) \<subseteq> set ds \<and> is_Deleted (last (dedupDeltas ds)) = is_Deleted d"
  proof (cases xs rule: rev_cases)
    case Nil
    then show ?thesis using assms by (simp add: dedupDeltas_def)
  next
    case (snoc ys e)
    have "ds ! (length ds - 1) = d" "ds ! (length ds - 2) = e" "take (length ds - 2) ds = ys"
      by (simp_all add: assms snoc nth_append)
    then show ?thesis using assms snoc
      by (cases "(d, e)" rule: isDeletionDup.cases) (auto simp: dedupDeltas_def split: option.split)
  qed
  then show "dedupDeltas ds \<noteq> []" "outcome_of (last (dedupDeltas ds)) = outcome_of d"
    "set (dedupDeltas ds) \<subseteq> set ds" "is_Deleted (last (dedupDeltas ds)) = is_Deleted d" by simp_all
qed

text \<open>The one step all operations are made of.\<close>

definition ignored :: "delta \<Rightarrow> delta_fifo \<Rightarrow> bool" where
  "ignored d f \<longleftrightarrow> is_Sync d \<and> willObjectBeDeletedLocked (KeyOf d) f"

definition grown :: "delta \<Rightarrow> delta_fifo \<Rightarrow> delta list" where
  "grown d f = dedupDeltas ((case items f (KeyOf d) of None \<Rightarrow> [] | Some ds \<Rightarrow> ds) @ [d])"

lemma queueActionLocked_eq:
  "queueActionLocked d f =
     (if ignored d f then f
      else f\<lparr>items := (items f)(KeyOf d \<mapsto> grown d f),
             fifo_queue := fifo_queue f @ (if items f (KeyOf d) = None then [KeyOf d] else [])\<rparr>)"
  by (simp add: queueActionLocked_def Let_def ignored_def grown_def dedupDeltas_facts(1) [OF refl])

lemma grown_facts:
  "grown d f \<noteq> []" "outcome_of (last (grown d f)) = outcome_of d"
  "is_Deleted (last (grown d f)) = is_Deleted d"
  by (simp_all add: grown_def dedupDeltas_facts [OF refl])

lemma set_grown: "fifo_ok f \<Longrightarrow> e \<in> set (grown d f) \<Longrightarrow> KeyOf e = KeyOf d"
  using dedupDeltas_facts(3) [OF refl, of "case items f (KeyOf d) of None \<Rightarrow> [] | Some ds \<Rightarrow> ds" d]
  by (auto simp: grown_def fifo_ok_def split: option.splits)

lemma fifo_ok_queue: "fifo_ok f \<Longrightarrow> fifo_ok (queueActionLocked d f)"
  using set_grown [of f] grown_facts(1)
  by (auto simp: queueActionLocked_eq fifo_ok_def domIff)

lemma view_queue:
  "view known (queueActionLocked d f) = (if ignored d f then view known f
     else (view known f)(KeyOf d := outcome_of d))"
  by (rule ext) (simp add: queueActionLocked_eq view_def grown_facts)

lemma not_Sync_not_ignored [simp]:
  "\<not> ignored (Added obj) f" "\<not> ignored (Updated obj) f" "\<not> ignored (Deleted e) f"
  by (simp_all add: ignored_def)

lemma populated_queue [simp]:
  "populated (queueActionLocked d f) = populated f"
  "initialPopulationCount (queueActionLocked d f) = initialPopulationCount f"
  by (simp_all add: queueActionLocked_eq)

lemma view_populated [simp]:
  "view known (f\<lparr>populated := b\<rparr>) = view known f"
  "view known (f\<lparr>initialPopulationCount := n\<rparr>) = view known f"
  by (rule ext, simp add: view_def)+

lemma fifo_ok_populated [simp]:
  "fifo_ok (f\<lparr>populated := b\<rparr>) = fifo_ok f" "fifo_ok (f\<lparr>initialPopulationCount := n\<rparr>) = fifo_ok f"
  by (simp_all add: fifo_ok_def)

text \<open>Each operation in the abstract.\<close>

lemma view_Add: "view known (fifo_Add obj f) = (view known f)(MetaNamespaceKeyFunc obj \<mapsto> obj)"
  by (simp add: fifo_Add_def view_queue)

lemma view_Update: "view known (fifo_Update obj f) = (view known f)(MetaNamespaceKeyFunc obj \<mapsto> obj)"
  by (simp add: fifo_Update_def view_queue)

lemma view_Delete: "view known (fifo_Delete known obj f) = (view known f)(MetaNamespaceKeyFunc obj := None)"
  by (rule ext) (simp add: fifo_Delete_def Let_def view_queue, simp add: view_def)

lemma fifo_ok_operations:
  assumes "fifo_ok f"
  shows "fifo_ok (fifo_Add obj f)" "fifo_ok (fifo_Update obj f)" "fifo_ok (fifo_Delete known obj f)"
  using assms by (simp_all add: fifo_Add_def fifo_Update_def fifo_Delete_def fifo_ok_queue Let_def)

lemma Pop_cases:
  assumes "fifo_ok f"
  shows "(Pop f = None \<and> fifo_queue f = [] \<and> items f = Map.empty) \<or>
    (\<exists>key rest ds. fifo_queue f = key # rest \<and> items f key = Some ds \<and> Pop f = Some (ds,
       f\<lparr>items := (items f)(key := None), fifo_queue := rest,
         initialPopulationCount := initialPopulationCount f - 1\<rparr>))"
proof (cases "fifo_queue f")
  case Nil
  have "dom (items f) = set (fifo_queue f)" using assms by (simp add: fifo_ok_def)
  then show ?thesis using Nil by (simp add: Pop_def)
next
  case (Cons key rest)
  moreover have "key \<in> dom (items f)" using assms Cons by (auto simp: fifo_ok_def)
  ultimately show ?thesis by (auto simp: Pop_def)
qed

lemma fifo_ok_Pop:
  assumes "fifo_ok f" and "Pop f = Some (ds, f')"
  shows "fifo_ok f'"
proof -
  obtain key rest where q: "fifo_queue f = key # rest" and f': "f' = f\<lparr>items := (items f)(key := None),
      fifo_queue := rest, initialPopulationCount := initialPopulationCount f - 1\<rparr>"
    using Pop_cases [OF assms(1)] assms(2) by auto
  have "distinct (key # rest)" "insert key (set rest) = dom (items f)"
    using assms(1) by (simp_all add: fifo_ok_def q)
  then have "distinct rest" "set rest = dom (items f) - {key}" by auto
  then show ?thesis using assms(1) by (simp add: fifo_ok_def f')
qed

subsection \<open>Replacing everything by a list\<close>

definition listed :: "json list \<Rightarrow> string \<rightharpoonup> json" where
  "listed objs = map_of (map (\<lambda>obj. (MetaNamespaceKeyFunc obj, obj)) objs)"

lemma listed_Cons: "listed (obj # objs) = (listed objs)(MetaNamespaceKeyFunc obj \<mapsto> obj)"
  by (simp add: listed_def)

lemma dom_listed: "dom (listed objs) = MetaNamespaceKeyFunc ` set objs"
  by (simp add: listed_def dom_map_of_conv_image_fst image_image)

lemma will_queue:
  "willObjectBeDeletedLocked k (queueActionLocked d f) =
     (if k = KeyOf d \<and> \<not> ignored d f then is_Deleted d else willObjectBeDeletedLocked k f)"
  by (simp add: willObjectBeDeletedLocked_def queueActionLocked_eq grown_facts)

lemma view_deleted: "willObjectBeDeletedLocked k f \<Longrightarrow> view known f k = None"
  by (cases "last (the (items f k))") (auto simp: willObjectBeDeletedLocked_def view_def split: option.splits)

lemma view_synced:
  "distinct (map MetaNamespaceKeyFunc objs) \<Longrightarrow>
   view known (fold (\<lambda>obj. queueActionLocked (Sync obj)) objs f) k =
     (case listed objs k of
        None \<Rightarrow> view known f k
      | Some obj \<Rightarrow> if willObjectBeDeletedLocked k f then None else Some obj)"
proof (induction objs arbitrary: f)
  case Nil
  then show ?case by (simp add: listed_def)
next
  case (Cons obj objs)
  have new: "MetaNamespaceKeyFunc obj \<notin> dom (listed objs)" using Cons.prems by (auto simp: dom_listed)
  then show ?case
    using Cons view_deleted [of k f known]
    by (auto simp: listed_Cons view_queue will_queue ignored_def domIff split: option.splits)
qed

lemma KeyOf_unknown [simp]: "KeyOf (unknown_state known k) = k"
  "outcome_of (unknown_state known k) = None" "is_Deleted (unknown_state known k)"
  "\<not> ignored (unknown_state known k) f"
  by (simp_all add: unknown_state_def)

lemma view_deletions:
  "view known (fold (\<lambda>k. queueActionLocked (unknown_state known k)) ks f) k =
     (if k \<in> set ks then None else view known f k)"
  by (induction ks arbitrary: f) (simp_all add: view_queue)

lemma view_Replace:
  assumes "distinct (map MetaNamespaceKeyFunc objs)"
  shows "view known (Replace known ks objs f) k =
    (case listed objs k of
       Some obj \<Rightarrow> if willObjectBeDeletedLocked k f then None else Some obj
     | None \<Rightarrow> if k \<in> set ks then None else view known f k)"
proof -
  have "k \<in> MetaNamespaceKeyFunc ` set objs \<longleftrightarrow> listed objs k \<noteq> None"
    using dom_listed [of objs] by blast
  then show ?thesis
    by (simp add: Replace_def Let_def view_deletions view_synced [OF assms] split: option.split)
qed

lemma fifo_ok_fold: "fifo_ok f \<Longrightarrow> fifo_ok (fold (\<lambda>x. queueActionLocked (g x)) xs f)"
  by (induction xs arbitrary: f) (simp_all add: fifo_ok_queue)

lemma fifo_ok_Replace: "fifo_ok f \<Longrightarrow> fifo_ok (Replace known ks objs f)"
  by (simp add: Replace_def Let_def fifo_ok_fold)

text \<open>A known object that is not listed leaves a marker, unless its deletion is queued already.\<close>

lemma grown_last: "\<not> willObjectBeDeletedLocked (KeyOf d) f \<Longrightarrow> fifo_ok f \<Longrightarrow> d \<in> set (grown d f)"
proof -
  assume not: "\<not> willObjectBeDeletedLocked (KeyOf d) f" and ok: "fifo_ok f"
  show ?thesis
  proof (cases "items f (KeyOf d)")
    case None
    then show ?thesis by (simp add: grown_def dedupDeltas_def)
  next
    case (Some ds)
    then obtain ys e where ds: "ds = ys @ [e]" using ok by (cases ds rule: rev_cases) (auto simp: fifo_ok_def)
    then have e: "\<not> is_Deleted e" using not Some by (simp add: willObjectBeDeletedLocked_def)
    have "(ds @ [d]) ! (length (ds @ [d]) - 2) = e" by (simp add: ds nth_append)
    moreover have "isDeletionDup d e = None" using e by (cases e; cases d) simp_all
    ultimately show ?thesis by (simp add: grown_def Some dedupDeltas_def)
  qed
qed

definition queued :: "delta \<Rightarrow> delta_fifo \<Rightarrow> bool" where
  "queued d f \<longleftrightarrow> (\<exists>ds. items f (KeyOf d) = Some ds \<and> d \<in> set ds)"

lemma queued_other: "KeyOf e \<noteq> KeyOf d \<Longrightarrow> queued d (queueActionLocked e f) = queued d f"
  by (simp add: queued_def queueActionLocked_eq)

lemma queued_fold_other:
  "\<forall>x \<in> set xs. KeyOf (g x) \<noteq> KeyOf d \<Longrightarrow>
   queued d (fold (\<lambda>x. queueActionLocked (g x)) xs f) = queued d f \<and>
   willObjectBeDeletedLocked (KeyOf d) (fold (\<lambda>x. queueActionLocked (g x)) xs f) =
     willObjectBeDeletedLocked (KeyOf d) f"
  by (induction xs arbitrary: f) (auto simp: queued_other will_queue)

lemma Replace_marks:
  assumes "fifo_ok f" and "distinct ks" and "k \<in> set ks" and "listed objs k = None"
    and "\<not> willObjectBeDeletedLocked k f"
  shows "queued (unknown_state known k) (Replace known ks objs f)"
proof -
  have k: "k \<notin> MetaNamespaceKeyFunc ` set objs" using assms(4) dom_listed [of objs] by blast
  define f1 where "f1 = fold (\<lambda>obj. queueActionLocked (Sync obj)) objs f"
  obtain as bs where ks: "filter (\<lambda>k. k \<notin> MetaNamespaceKeyFunc ` set objs) ks = as @ k # bs"
    using split_list [of k "filter (\<lambda>k. k \<notin> MetaNamespaceKeyFunc ` set objs) ks"] assms(3) k by auto
  have "distinct (as @ k # bs)" using assms(2) unfolding ks [symmetric] by simp
  then have other: "\<forall>x \<in> set as. KeyOf (unknown_state known x) \<noteq> KeyOf (unknown_state known k)"
    "\<forall>x \<in> set bs. KeyOf (unknown_state known x) \<noteq> KeyOf (unknown_state known k)" by auto
  define f2 where "f2 = fold (\<lambda>k. queueActionLocked (unknown_state known k)) as f1"
  have ok: "fifo_ok f2" using assms(1) by (simp add: f1_def f2_def fifo_ok_fold)
  have "\<not> willObjectBeDeletedLocked k f1"
    using queued_fold_other [of objs Sync "unknown_state known k" f] k assms(5)
    by (auto simp: f1_def image_iff)
  then have "\<not> willObjectBeDeletedLocked k f2"
    using queued_fold_other [OF other(1), of f1] by (simp add: f2_def)
  then have "queued (unknown_state known k) (queueActionLocked (unknown_state known k) f2)"
    using grown_last [of "unknown_state known k" f2] ok by (simp add: queued_def queueActionLocked_eq)
  then have "queued (unknown_state known k)
      (fold (\<lambda>k. queueActionLocked (unknown_state known k)) (as @ k # bs) f1)"
    using queued_fold_other [OF other(2)] by (simp add: f2_def)
  then show ?thesis by (simp add: Replace_def Let_def ks f1_def queued_def)
qed

end
