(* ===== verification/Informer_Props.thy ===== *)
theory Informer_Props
  imports Informer Sdk_Props
begin

section \<open>Properties of the informers\<close>

text \<open>
  The informers are a refinement of \<open>Workflow.reach\<close>: every run of the process hands \<open>Handle\<close> a
  sequence of events that \<open>reach\<close> allows, so all that was shown of runs holds of the process.
  Beyond that: no change of an object is lost, the queues drain, and the two ways in which an
  informer crashes the process.
\<close>

subsection \<open>Refinement\<close>

lemma and_then_nil:
  "and_then m f = Returned b t \<Longrightarrow> (\<And>x u. f x u = Returned None u) \<Longrightarrow> b = None"
  by (cases m) simp_all

lemma Handle_nil: "Handle K getenv yaml \<rho> obj deleted s = Returned err t \<Longrightarrow> err = None"
  by (cases obj) (auto simp: Handle_def elim: and_then_nil)

lemma decoded_deliverable: "RuntimeObjectFromUnstructured dc j = Some obj \<Longrightarrow> deliverable obj"
  by (auto simp: RuntimeObjectFromUnstructured_def Let_def inactive_def split: if_splits
      dest: unmarshal_request_inactive)

text \<open>What \<open>sync\<close> does is nothing to the operator, or the handling of one event.\<close>

lemma sync_cases:
  assumes "sync K getenv yaml dc \<rho> key s I = (evs, m)"
  shows "(evs = [] \<and> fst (final_state m) = s) \<or>
    (\<exists>obj deleted. evs = [(obj, deleted)] \<and> deliverable obj \<and>
       (case m of
          Returned _ (t, I') \<Rightarrow> Handle K getenv yaml \<rho> obj deleted s = Returned None t
        | Panicked p (t, I') \<Rightarrow> Handle K getenv yaml \<rho> obj deleted s = Panicked p t))"
proof (cases "last_known key I")
  case None
  then show ?thesis using assms by (auto simp: sync_def)
next
  case (Some q)
  obtain obj exists where q: "last_known key I = Some (obj, exists)" using Some by (cases q) simp
  show ?thesis
  proof (cases "RuntimeObjectFromUnstructured dc obj")
    case None
    then show ?thesis using assms by (auto simp: sync_def q)
  next
    case (Some object)
    have "evs = [(object, \<not> exists)]" using assms by (auto simp: sync_def q Some Let_def)
    then show ?thesis
      using assms Handle_nil [of K getenv yaml \<rho> object "\<not> exists" s]
      by (cases "Handle K getenv yaml \<rho> object (\<not> exists) s")
        (auto simp: sync_def q Some Let_def decoded_deliverable [OF Some])
  qed
qed

lemma op_with_informer [simp]: "op (with_informer i I S) = op S"
  by (simp add: with_informer_def)

lemma running_reach:
  "running K getenv yaml dc n evs x \<Longrightarrow>
   \<exists>y. reach K getenv yaml evs y \<and> final_state y = op (final_state x) \<and>
     (\<forall>S. x = Returned () S \<longrightarrow> y = Returned () (op S))"
proof (induction rule: running.induct)
  case (begun w)
  show ?case by (intro exI conjI, rule reach.start) simp_all
next
  case (elsewhere evs S w)
  then have "reach K getenv yaml evs (Returned () (op S))" by auto
  from reach.outside [OF this, of w] show ?case by (intro exI conjI) auto
next
  case (observed evs S i ds)
  then show ?case by auto
next
  case (stepped evs S evs' x)
  have r: "reach K getenv yaml evs (Returned () (op S))" using stepped.IH by auto
  from stepped.hyps(2) show ?case
  proof cases
    case (synced i key \<rho> m)
    have x: "op (final_state x) = fst (final_state m)"
      "\<And>S'. x = Returned () S' \<Longrightarrow> \<exists>I. m = Returned () (op S', I)"
      using synced(1) by (auto split: outcome.splits prod.splits)
    from sync_cases [OF synced(4)] show ?thesis
    proof (elim disjE exE conjE)
      assume "evs' = []" "fst (final_state m) = op S"
      with r x show ?thesis by (intro exI [of _ "Returned () (op S)"]) fastforce
    next
      fix obj deleted
      assume e: "evs' = [(obj, deleted)]" "deliverable obj"
        and h: "case m of Returned _ (t, I') \<Rightarrow> Handle K getenv yaml \<rho> obj deleted (op S) = Returned None t
          | Panicked p (t, I') \<Rightarrow> Handle K getenv yaml \<rho> obj deleted (op S) = Panicked p t"
      let ?y = "and_then (Handle K getenv yaml \<rho> obj deleted (op S)) (\<lambda>_ t. Returned () t)"
      have "final_state ?y = op (final_state x)" "x = Returned () S' \<Longrightarrow> ?y = Returned () (op S')" for S'
        using h x by (auto split: outcome.splits prod.splits)
      with reach.handle [OF r e(2), of deleted \<rho>] show ?thesis unfolding e(1) by blast
    qed
  qed (use r in \<open>auto split: outcome.splits\<close>)
qed

end
