(* ===== verification/Informer_Steps.thy ===== *)
theory Informer_Steps
  imports Informer_Props
begin

section \<open>Invariants of an informer\<close>

text \<open>
  Every informer by itself: its steps, its invariants (the work queue is as \<open>wq_ok\<close> says and holds
  the worker's key, no key is ever delayed; every object is handled in its latest state or on its
  way to be), and a measure that each of its steps decreases.
\<close>

subsection \<open>The steps of one informer\<close>

text \<open>\<open>sync\<close> as a step of the informer alone: \<open>Handle\<close> always returns \<open>nil\<close>.\<close>

definition sync_informer :: "string \<Rightarrow> informer \<Rightarrow> informer" where
  "sync_informer key I =
     (case last_known key I of
        None \<Rightarrow> I\<lparr>worker := Synced key False None\<rparr>
      | Some (obj, exists) \<Rightarrow>
          I\<lparr>delivered := delivered I @ [(key, exists, obj)], worker := Synced key (\<not> exists) None\<rparr>)"

inductive local_step :: "informer \<Rightarrow> informer \<Rightarrow> bool" where
  notified: "notify I = Some (Returned u I') \<Longrightarrow> local_step I I'"
| taken: "get_key I = Some I' \<Longrightarrow> local_step I I'"
| synced: "worker I = Holding key \<Longrightarrow> local_step I (sync_informer key I)"
| finished: "finish_key bucket I = Some I' \<Longrightarrow> local_step I I'"
| readied: "ready_key key I = Some I' \<Longrightarrow> local_step I I'"

lemma sync_returned:
  assumes "sync K getenv yaml dc \<rho> key s I = (evs, Returned u (t, I'))"
  shows "I' = sync_informer key I"
proof (cases "last_known key I")
  case None
  then show ?thesis using assms by (auto simp: sync_def sync_informer_def)
next
  case (Some q)
  obtain obj exists where q: "last_known key I = Some (obj, exists)" using Some by (cases q) simp
  obtain object where d: "RuntimeObjectFromUnstructured dc obj = Some object"
    using assms by (cases "RuntimeObjectFromUnstructured dc obj") (auto simp: sync_def q)
  show ?thesis
    using assms Handle_nil [of K getenv yaml \<rho> object "\<not> exists" s]
    by (cases "Handle K getenv yaml \<rho> object (\<not> exists) s")
      (auto simp: sync_def sync_informer_def q d Let_def)
qed

lemma informers_with [simp]: "informers (with_informer i I S) = (informers S)[i := I]"
  by (simp add: with_informer_def)

lemma inner_local:
  assumes "inner K getenv yaml dc S evs (Returned u S')"
  shows "\<exists>i I'. i < length (informers S) \<and> informers S' = (informers S)[i := I'] \<and>
    local_step (informers S ! i) I'"
  using assms
proof cases
  case (notified i m)
  then show ?thesis by (auto intro: local_step.notified split: outcome.splits)
next
  case (taken i I)
  then show ?thesis by (auto intro: local_step.taken)
next
  case (synced i key \<rho> m)
  then obtain v t I' where "m = Returned v (t, I')" "informers S' = (informers S)[i := I']"
    by (auto split: outcome.splits)
  with synced sync_returned [of K getenv yaml dc \<rho> key "op S" "informers S ! i" evs v t I'] show ?thesis
    by (auto intro: local_step.synced)
next
  case (finished i bucket I)
  then show ?thesis by (auto intro: local_step.finished)
next
  case (readied i key I)
  then show ?thesis by (auto intro: local_step.readied)
qed

text \<open>A contract for invariants of single informers, and what it gives for the process.\<close>

locale informer_invariant =
  fixes inv :: "informer \<Rightarrow> bool"
  assumes at_start: "inv New"
    and on_delta: "inv I \<Longrightarrow> inv (HandleDelta d I)"
    and on_step: "inv I \<Longrightarrow> local_step I I' \<Longrightarrow> inv I'"
begin

lemma on_deltas: "inv I \<Longrightarrow> inv (HandleDeltas ds I)"
  unfolding HandleDeltas_def by (induction ds arbitrary: I) (simp_all add: on_delta)

lemma on_inner:
  "inner K getenv yaml dc S evs (Returned u S') \<Longrightarrow> list_all inv (informers S) \<Longrightarrow>
   list_all inv (informers S')"
  using on_step by (fastforce dest!: inner_local simp: list_all_length nth_list_update)

lemma on_running:
  "running K getenv yaml dc n evs x \<Longrightarrow> x = Returned () S \<Longrightarrow>
   length (informers S) = n \<and> list_all inv (informers S)"
proof (induction arbitrary: S rule: running.induct)
  case (begun w)
  then show ?case by (auto simp: list_all_length at_start)
next
  case (observed evs S0 i ds)
  then show ?case by (auto simp: list_all_length nth_list_update on_deltas)
next
  case (stepped evs S0 evs' x)
  then have i: "inner K getenv yaml dc S0 evs' (Returned () S)" by simp
  with stepped.IH show ?case using on_inner [OF i] inner_local [OF i] by auto
qed auto

end

subsection \<open>The queue\<close>

fun held_by :: "worker \<Rightarrow> string set" where
  "held_by Idle = {}"
| "held_by (Holding k) = {k}"
| "held_by (Synced k forget err) = {k}"

fun no_error :: "worker \<Rightarrow> bool" where
  "no_error (Synced k forget err) = (err = None)"
| "no_error _ = True"

definition queue_ok :: "informer \<Rightarrow> bool" where
  "queue_ok I \<longleftrightarrow> wq_ok (rl_queue (work I)) \<and> wq_processing (rl_queue (work I)) = held_by (worker I) \<and>
     rl_failures (work I) = (\<lambda>k. 0) \<and> rl_waiting (work I) = [] \<and> no_error (worker I)"

lemma queue_ok_Add:
  assumes "queue_ok I" and "work J = work I" and "worker J = worker I"
  shows "queue_ok (queue_Add key J)"
  using assms by (simp add: queue_ok_def queue_Add_def wq.add)

lemma finish_nil:
  "queue_ok I \<Longrightarrow> worker I = Synced key forget err \<Longrightarrow> finish_key bucket I =
     Some ((queue_Done key (if forget then I\<lparr>deletedObjects := (deletedObjects I)(key := None)\<rparr>
       else I))\<lparr>worker := Idle\<rparr>)"
  by (auto simp: finish_key_def handleErr_def queue_ok_def Forget_never_failed Let_def)

lemma notify_cases:
  assumes "notify I = Some (Returned u I')"
  shows "\<exists>n ns k. notifications I = n # ns \<and>
    (\<exists>obj. (n = AddNotification obj \<or> (\<exists>old. n = UpdateNotification old obj)) \<and>
       k = MetaNamespaceKeyFunc obj \<and> I' = queue_Add k (I\<lparr>notifications := ns\<rparr>) \<or>
     n = DeleteNotification (Object obj) \<and> k = MetaNamespaceKeyFunc obj \<and>
       I' = queue_Add k (I\<lparr>notifications := ns, deletedObjects := (deletedObjects I)(k \<mapsto> obj)\<rparr>))"
proof -
  obtain n ns where n: "notifications I = n # ns"
    using assms by (auto simp: notify_def split: list.splits)
  show ?thesis
  proof (cases n)
    case (DeleteNotification d)
    then show ?thesis using assms n by (cases d) (auto simp: notify_def Let_def)
  qed (use assms n in \<open>auto simp: notify_def handleAddResourceEvent_def handleUpdateResourceEvent_def\<close>)
qed

lemma queue_ok_step:
  assumes "queue_ok I" and "local_step I I'"
  shows "queue_ok I'"
  using assms(2)
proof cases
  case (notified u)
  from notify_cases [OF this] show ?thesis by (auto intro!: queue_ok_Add [OF assms(1)])
next
  case taken
  then obtain k q where q: "take_key (rl_queue (work I)) = Some (k, q)" "worker I = Idle"
    "I' = I\<lparr>work := (work I)\<lparr>rl_queue := q\<rparr>, worker := Holding k\<rparr>"
    by (auto simp: get_key_def split: if_splits option.splits)
  then show ?thesis using assms(1) wq.pick [OF _ q(1)] by (simp add: queue_ok_def)
next
  case (synced key)
  then show ?thesis using assms(1)
    by (auto simp: queue_ok_def sync_informer_def split: option.splits prod.splits)
next
  case (finished bucket)
  then obtain key forget err where w: "worker I = Synced key forget err"
    by (auto simp: finish_key_def split: worker.splits)
  have "wq_ok (rl_queue (work I))" "key \<in> wq_processing (rl_queue (work I))"
    "wq_processing (rl_queue (work I)) = {key}"
    using assms(1) w by (simp_all add: queue_ok_def)
  with wq.finish [OF this(1,2)] show ?thesis
    using assms(1) finished finish_nil [OF assms(1) w, of bucket]
    by (cases forget) (auto simp: queue_ok_def queue_Done_def)
next
  case (readied key)
  then show ?thesis using assms(1) by (simp add: ready_key_def queue_ok_def)
qed

interpretation queue_inv: informer_invariant queue_ok
proof unfold_locales
  show "queue_ok New" by (simp add: queue_ok_def New_def NewNamedRateLimitingQueue_def wq.fresh)
  show "queue_ok I \<Longrightarrow> queue_ok (HandleDelta d I)" for I d
    by (cases d) (simp_all add: queue_ok_def store_object_def delete_object_def Let_def)
qed (rule queue_ok_step)

subsection \<open>No change is lost\<close>

text \<open>What \<open>Handle\<close> was last called for with a key, and the keys of notifications.\<close>

definition last_delivered :: "informer \<Rightarrow> string \<Rightarrow> (bool \<times> json) option" where
  "last_delivered I k = map_of (rev (delivered I)) k"

fun notification_key :: "notification \<Rightarrow> string" where
  "notification_key (AddNotification obj) = MetaNamespaceKeyFunc obj"
| "notification_key (UpdateNotification old obj) = MetaNamespaceKeyFunc obj"
| "notification_key (DeleteNotification d) = DeletionHandlingMetaNamespaceKeyFunc d"

fun is_deletion :: "notification \<Rightarrow> bool" where
  "is_deletion (DeleteNotification d) = True"
| "is_deletion _ = False"

definition seen_gone :: "informer \<Rightarrow> string \<Rightarrow> bool" where
  "seen_gone I k \<longleftrightarrow> (\<exists>obj. last_delivered I k = Some (False, obj))"

text \<open>
  \<open>Handle\<close> has last seen the object as it is now, or as deleted when it is gone; or a
  notification, the queue or the worker still has the key. An object that is gone can still be
  handled as deleted.
\<close>

definition up_to_date :: "informer \<Rightarrow> string \<Rightarrow> bool" where
  "up_to_date I k \<longleftrightarrow>
     (case indexer I k of
        Some obj \<Rightarrow> last_delivered I k = Some (True, obj)
      | None \<Rightarrow> seen_gone I k)"

definition in_flight :: "informer \<Rightarrow> string \<Rightarrow> bool" where
  "in_flight I k \<longleftrightarrow> k \<in> notification_key ` set (notifications I) \<or>
     k \<in> wq_dirty (rl_queue (work I)) \<or> worker I = Holding k"

definition gone_known :: "informer \<Rightarrow> string \<Rightarrow> bool" where
  "gone_known I k \<longleftrightarrow> indexer I k \<noteq> None \<or> deletedObjects I k \<noteq> None \<or> seen_gone I k \<or>
     k \<in> notification_key ` set (filter is_deletion (notifications I))"

definition key_ok :: "informer \<Rightarrow> string \<Rightarrow> bool" where
  "key_ok I k \<longleftrightarrow> (up_to_date I k \<or> in_flight I k) \<and> gone_known I k"

fun forgets :: "worker \<Rightarrow> string \<Rightarrow> bool" where
  "forgets (Synced k forget err) k' = (forget \<and> k = k')"
| "forgets _ k' = False"

definition view_ok :: "informer \<Rightarrow> bool" where
  "view_ok I \<longleftrightarrow> queue_ok I \<and> (\<forall>k \<in> touched I. key_ok I k) \<and>
     (\<forall>k. forgets (worker I) k \<longrightarrow> seen_gone I k)"

lemmas key_defs = key_ok_def up_to_date_def in_flight_def gone_known_def seen_gone_def
  last_delivered_def

lemma key_ok_store: "key_ok I k \<or> k = MetaNamespaceKeyFunc obj \<Longrightarrow> key_ok (store_object obj I) k"
  by (cases "k = MetaNamespaceKeyFunc obj"; cases "indexer I k")
    (auto simp: key_defs store_object_def Let_def split: option.splits)

lemma key_ok_delete:
  "key_ok I k \<or> k = DeletionHandlingMetaNamespaceKeyFunc d \<Longrightarrow> key_ok (delete_object d I) k"
  by (cases "k = DeletionHandlingMetaNamespaceKeyFunc d"; cases "indexer I k")
    (auto simp: key_defs delete_object_def Let_def)

lemma view_ok_delta:
  assumes "view_ok I"
  shows "view_ok (HandleDelta d I)"
proof -
  have "worker (HandleDelta d I) = worker I" "delivered (HandleDelta d I) = delivered I"
    by (cases d; simp add: store_object_def delete_object_def Let_def)+
  moreover have "key_ok (HandleDelta d I) k" if "k \<in> touched (HandleDelta d I)" for k
    using that assms key_ok_store key_ok_delete
    by (cases d) (auto simp: view_ok_def store_object_def delete_object_def Let_def)
  ultimately show ?thesis
    using assms queue_inv.on_delta by (auto simp: view_ok_def seen_gone_def last_delivered_def)
qed

text \<open>A step that takes a key from a notification leaves it in the queue.\<close>

lemma key_ok_notified:
  assumes "queue_ok I" and "notify I = Some (Returned u I')" and "key_ok I k"
  shows "key_ok I' k"
proof -
  obtain n ns k' where n: "notifications I = n # ns"
    and c: "\<exists>obj. (n = AddNotification obj \<or> (\<exists>old. n = UpdateNotification old obj)) \<and>
       k' = MetaNamespaceKeyFunc obj \<and> I' = queue_Add k' (I\<lparr>notifications := ns\<rparr>) \<or>
     n = DeleteNotification (Object obj) \<and> k' = MetaNamespaceKeyFunc obj \<and>
       I' = queue_Add k' (I\<lparr>notifications := ns, deletedObjects := (deletedObjects I)(k' \<mapsto> obj)\<rparr>)"
    using notify_cases [OF assms(2)] by blast
  have k': "k' = notification_key n" using c by auto
  have d: "wq_dirty (rl_queue (work I')) = insert k' (wq_dirty (rl_queue (work I)))"
    using c assms(1) by (auto simp: queue_Add_def queue_ok_def wq.add)
  have same: "indexer I' = indexer I" "notifications I' = ns" "delivered I' = delivered I"
      "worker I' = worker I" "touched I' = touched I" using c by (auto simp: queue_Add_def)
  have del: "deletedObjects I' = deletedObjects I \<and> \<not> is_deletion n \<or>
      (\<exists>obj. deletedObjects I' = (deletedObjects I)(k' \<mapsto> obj))" using c by (auto simp: queue_Add_def)
  have "seen_gone I' k = seen_gone I k" "up_to_date I' k = up_to_date I k"
    by (simp_all add: up_to_date_def seen_gone_def last_delivered_def same cong: option.case_cong)
  moreover have "in_flight I k \<Longrightarrow> in_flight I' k" by (auto simp: in_flight_def d same n k')
  moreover have "gone_known I k \<Longrightarrow> gone_known I' k"
    using del \<open>seen_gone I' k = seen_gone I k\<close> by (auto simp: gone_known_def same n k' split: if_splits)
  ultimately show ?thesis using assms(3) unfolding key_ok_def by blast
qed

lemma key_ok_taken:
  assumes "queue_ok I" and "get_key I = Some I'" and "key_ok I k"
  shows "key_ok I' k"
proof -
  obtain k' q where q: "take_key (rl_queue (work I)) = Some (k', q)" "worker I = Idle"
    "I' = I\<lparr>work := (work I)\<lparr>rl_queue := q\<rparr>, worker := Holding k'\<rparr>"
    using assms(2) by (auto simp: get_key_def split: if_splits option.splits)
  have "wq_dirty q = wq_dirty (rl_queue (work I)) - {k'}"
    using wq.pick [OF _ q(1)] assms(1) by (simp add: queue_ok_def)
  then show ?thesis using assms(3) by (auto simp: key_defs q cong: option.case_cong)
qed

lemma last_delivered_append:
  "last_delivered (I\<lparr>delivered := delivered I @ [(key, v)], worker := w\<rparr>) k =
     (if k = key then Some v else last_delivered I k)"
  by (simp add: last_delivered_def)

lemma key_ok_synced:
  assumes "worker I = Holding key" and "key_ok I k"
  shows "key_ok (sync_informer key I) k"
proof (cases "last_known key I")
  case None
  then have n: "indexer I key = None" "deletedObjects I key = None"
    by (simp_all add: last_known_def split: option.splits)
  have I': "sync_informer key I = I\<lparr>worker := Synced key False None\<rparr>"
    by (simp add: sync_informer_def None)
  have "k = key \<Longrightarrow> seen_gone I k \<or> k \<in> notification_key ` set (notifications I)"
    using assms(2) n by (auto simp: key_ok_def gone_known_def)
  then show ?thesis
    using assms n unfolding I' by (auto simp: key_defs cong: option.case_cong)
next
  case (Some v)
  then obtain obj exists where v: "last_known key I = Some (obj, exists)" by (cases v) simp
  have I': "sync_informer key I =
      I\<lparr>delivered := delivered I @ [(key, exists, obj)], worker := Synced key (\<not> exists) None\<rparr>"
    by (simp add: sync_informer_def v)
  have e: "indexer I key = (if exists then Some obj else None)"
    using v by (auto simp: last_known_def split: option.splits)
  show ?thesis
  proof (cases "k = key")
    case True
    then show ?thesis using e unfolding I' by (cases exists)
      (simp_all add: key_ok_def up_to_date_def gone_known_def seen_gone_def last_delivered_append)
  next
    case False
    then show ?thesis using assms unfolding I'
      by (auto simp: key_ok_def up_to_date_def gone_known_def seen_gone_def in_flight_def
          last_delivered_append cong: option.case_cong)
  qed
qed

lemma key_ok_finished:
  assumes "queue_ok I" and "finish_key bucket I = Some I'" and "key_ok I k"
    and "forgets (worker I) k \<longrightarrow> seen_gone I k"
  shows "key_ok I' k"
proof -
  obtain key forget err where w: "worker I = Synced key forget err"
    using assms(2) by (auto simp: finish_key_def split: worker.splits)
  have q: "wq_ok (rl_queue (work I))" "key \<in> wq_processing (rl_queue (work I))"
    using assms(1) w by (simp_all add: queue_ok_def)
  have d: "wq_dirty (Done key (rl_queue (work I))) = wq_dirty (rl_queue (work I))"
    using wq.finish [OF q] by simp
  have I': "I' = (queue_Done key (if forget then I\<lparr>deletedObjects := (deletedObjects I)(key := None)\<rparr>
       else I))\<lparr>worker := Idle\<rparr>"
    using assms(2) finish_nil [OF assms(1) w, of bucket] by simp
  have same: "indexer I' = indexer I" "notifications I' = notifications I" "delivered I' = delivered I"
    "wq_dirty (rl_queue (work I')) = wq_dirty (rl_queue (work I))"
    unfolding I' by (cases forget; simp add: queue_Done_def d)+
  have del: "deletedObjects I' k = (if forget \<and> k = key then None else deletedObjects I k)"
    unfolding I' by (cases forget) (simp_all add: queue_Done_def)
  have seen: "seen_gone I' k = seen_gone I k" by (simp add: seen_gone_def last_delivered_def same)
  have "up_to_date I' k = up_to_date I k"
    by (simp add: up_to_date_def last_delivered_def seen same cong: option.case_cong)
  moreover have "in_flight I k \<Longrightarrow> in_flight I' k" by (auto simp: in_flight_def same w)
  moreover have "gone_known I k \<Longrightarrow> gone_known I' k"
    using assms(4) w by (auto simp: gone_known_def same del seen)
  ultimately show ?thesis using assms(3) unfolding key_ok_def by blast
qed

lemma touched_step: "local_step I I' \<Longrightarrow> touched I' = touched I"
  by (cases rule: local_step.cases, assumption)
    (auto dest!: notify_cases simp: queue_Add_def get_key_def sync_informer_def finish_key_def
      handleErr_def queue_Done_def ready_key_def Let_def
      split: if_splits option.splits prod.splits worker.splits)

lemma forgets_step:
  assumes "\<forall>k. forgets (worker I) k \<longrightarrow> seen_gone I k" and "local_step I I'" and "forgets (worker I') k"
  shows "seen_gone I' k"
  using assms(2)
proof cases
  case (notified u)
  from notify_cases [OF this] have "worker I' = worker I" "delivered I' = delivered I"
    by (auto simp: queue_Add_def)
  then show ?thesis using assms(1,3) by (simp add: seen_gone_def last_delivered_def)
next
  case taken
  then show ?thesis using assms(3) by (auto simp: get_key_def split: if_splits option.splits)
next
  case (synced key)
  then show ?thesis using assms(3)
    by (auto simp: sync_informer_def seen_gone_def last_delivered_def split: option.splits)
next
  case (finished bucket)
  then show ?thesis using assms(3) by (auto simp: finish_key_def Let_def split: worker.splits)
next
  case (readied key)
  then show ?thesis using assms(1,3)
    by (auto simp: ready_key_def seen_gone_def last_delivered_def split: if_splits)
qed

lemma view_ok_step:
  assumes "view_ok I" and "local_step I I'"
  shows "view_ok I'"
proof -
  have q: "queue_ok I" and k: "\<forall>k \<in> touched I. key_ok I k"
    and f: "\<forall>k. forgets (worker I) k \<longrightarrow> seen_gone I k"
    using assms(1) by (simp_all add: view_ok_def)
  have "key_ok I' k" if "k \<in> touched I'" for k
  proof -
    have ok: "key_ok I k" using that k touched_step [OF assms(2)] by simp
    from assms(2) show ?thesis
    proof cases
      case (notified u)
      then show ?thesis using key_ok_notified [OF q _ ok] by blast
    next
      case taken
      then show ?thesis using key_ok_taken [OF q _ ok] by blast
    next
      case (synced key)
      then show ?thesis using key_ok_synced [OF _ ok] by blast
    next
      case (finished bucket)
      then show ?thesis using key_ok_finished [OF q _ ok] f by blast
    next
      case (readied key)
      then show ?thesis using q by (simp add: ready_key_def queue_ok_def)
    qed
  qed
  then show ?thesis
    using queue_ok_step [OF q assms(2)] forgets_step [OF f assms(2)] by (simp add: view_ok_def)
qed

interpretation view_inv: informer_invariant view_ok
proof unfold_locales
  show "view_ok New"
    using queue_inv.at_start by (simp add: view_ok_def) (simp add: New_def)
qed (rule view_ok_delta view_ok_step, assumption+)+

subsection \<open>Progress\<close>

text \<open>What is left to do: every notification, every key that waits, and the worker's key.\<close>

fun worker_left :: "worker \<Rightarrow> nat" where
  "worker_left Idle = 0"
| "worker_left (Holding k) = 2"
| "worker_left (Synced k forget err) = 1"

definition left :: "informer \<Rightarrow> nat" where
  "left I = 4 * length (notifications I) + 3 * card (wq_dirty (rl_queue (work I))) +
     worker_left (worker I)"

definition quiescent :: "informer \<Rightarrow> bool" where
  "quiescent I \<longleftrightarrow> notifications I = [] \<and> wq_dirty (rl_queue (work I)) = {} \<and> worker I = Idle"

lemma left_step:
  assumes "queue_ok I" and "local_step I I'"
  shows "left I' < left I"
  using assms(2)
proof cases
  case (notified u)
  then obtain n ns k where n: "notifications I = n # ns" "notifications I' = ns" "worker I' = worker I"
    and d: "rl_queue (work I') = Add k (rl_queue (work I))"
    using notify_cases [OF notified] by (auto simp: queue_Add_def)
  have "card (wq_dirty (rl_queue (work I'))) \<le> Suc (card (wq_dirty (rl_queue (work I))))"
    unfolding d using assms(1) by (intro wq.card_add) (simp add: queue_ok_def)
  then show ?thesis by (simp add: left_def n)
next
  case taken
  then obtain k q where q: "take_key (rl_queue (work I)) = Some (k, q)" "worker I = Idle"
    "I' = I\<lparr>work := (work I)\<lparr>rl_queue := q\<rparr>, worker := Holding k\<rparr>"
    by (auto simp: get_key_def split: if_splits option.splits)
  have "card (wq_dirty (rl_queue (work I))) = Suc (card (wq_dirty q))"
    using assms(1) by (intro wq.card_pick [OF _ q(1)]) (simp add: queue_ok_def)
  then show ?thesis by (simp add: left_def q)
next
  case (synced key)
  have "notifications I' = notifications I" "work I' = work I" "worker_left (worker I') = 1"
    using synced(1) by (auto simp: sync_informer_def split: option.split prod.split)
  then show ?thesis by (simp add: left_def synced(2))
next
  case (finished bucket)
  obtain key forget err where w: "worker I = Synced key forget err"
    using finished by (auto simp: finish_key_def split: worker.splits)
  have q: "wq_ok (rl_queue (work I))" "key \<in> wq_processing (rl_queue (work I))"
    using assms(1) w by (simp_all add: queue_ok_def)
  have I': "I' = (queue_Done key (if forget then I\<lparr>deletedObjects := (deletedObjects I)(key := None)\<rparr>
       else I))\<lparr>worker := Idle\<rparr>"
    using finished finish_nil [OF assms(1) w, of bucket] by simp
  show ?thesis
    unfolding I' using wq.finish [OF q] w by (cases forget) (simp_all add: left_def queue_Done_def)
next
  case (readied key)
  then show ?thesis using assms(1) by (simp add: ready_key_def queue_ok_def)
qed

text \<open>An informer that is not quiescent has a notification to deliver, or its worker goes on.\<close>

lemma quiescent_iff:
  assumes "queue_ok I"
  shows "quiescent I \<longleftrightarrow> notify I = None \<and> get_key I = None \<and> worker I = Idle"
proof -
  have q: "wq_ok (rl_queue (work I))" "wq_processing (rl_queue (work I)) = held_by (worker I)"
    using assms by (simp_all add: queue_ok_def)
  have "notify I = None \<longleftrightarrow> notifications I = []" by (simp add: notify_def split: list.split)
  moreover have "worker I = Idle \<Longrightarrow> get_key I = None \<longleftrightarrow> wq_dirty (rl_queue (work I)) = {}"
    using wq.pick_idle [OF q(1)] q(2) by (auto simp: get_key_def split: option.split)
  ultimately show ?thesis by (auto simp: quiescent_def)
qed

lemma quiescent_up_to_date:
  assumes "view_ok I" and "quiescent I" and "k \<in> touched I"
  shows "up_to_date I k"
  using assms by (auto simp: view_ok_def key_ok_def in_flight_def quiescent_def)

end
