(* ===== verification/Draining.thy ===== *)
theory Draining
  imports Prelude
begin

section \<open>Systems that come to rest\<close>

text \<open>
  Steps that return or panic, and two contracts of a step relation: that every step uses up some
  of the work that is left (\<open>draining\<close>), and that a state in which something always remains to be
  done can only end in a panic (\<open>stubborn\<close>).
\<close>

inductive nsteps :: "('s \<Rightarrow> ('s, unit) outcome \<Rightarrow> bool) \<Rightarrow> nat \<Rightarrow> 's \<Rightarrow> 's \<Rightarrow> bool"
  for step
where
  none: "nsteps step 0 S S"
| more: "nsteps step m S T \<Longrightarrow> step T (Returned u U) \<Longrightarrow> nsteps step (Suc m) S U"

lemma nsteps_first:
  "nsteps step m T U \<Longrightarrow> step S (Returned () T) \<Longrightarrow> nsteps step (Suc m) S U"
proof (induction rule: nsteps.induct)
  case (none T)
  then show ?case using nsteps.more [OF nsteps.none, of step S "()" T] by simp
next
  case (more m T U u V)
  then show ?case using nsteps.more by metis
qed

lemma nsteps_invariant:
  assumes "nsteps step m S T" and "P S" and "\<And>T u U. P T \<Longrightarrow> step T (Returned u U) \<Longrightarrow> P U"
  shows "P T"
  using assms(1,2) by (induction rule: nsteps.induct) (auto intro: assms(3))

locale draining =
  fixes step :: "'s \<Rightarrow> ('s, unit) outcome \<Rightarrow> bool" and ok :: "'s \<Rightarrow> bool" and work :: "'s \<Rightarrow> nat"
  assumes step_ok: "ok S \<Longrightarrow> step S (Returned u T) \<Longrightarrow> ok T"
    and step_less: "ok S \<Longrightarrow> step S (Returned u T) \<Longrightarrow> work T < work S"
begin

lemma nsteps_work: "nsteps step m S T \<Longrightarrow> ok S \<Longrightarrow> m + work T \<le> work S \<and> ok T"
proof (induction rule: nsteps.induct)
  case (more m S T u U)
  then have "m + work T \<le> work S" "ok T" by auto
  then show ?case using step_less [OF _ more.hyps(2)] step_ok [OF _ more.hyps(2)] by auto
qed simp

end

locale stubborn = draining +
  fixes busy :: "'s \<Rightarrow> bool"
  assumes busy_stays: "ok S \<Longrightarrow> busy S \<Longrightarrow> step S (Returned u T) \<Longrightarrow> busy T"
    and busy_steps: "ok S \<Longrightarrow> busy S \<Longrightarrow> \<exists>x. step S x"
begin

lemma panic_next:
  "ok T \<Longrightarrow> busy T \<Longrightarrow> \<exists>k T' p U. nsteps step k T T' \<and> step T' (Panicked p U)"
proof (induction "work T" arbitrary: T rule: less_induct)
  case less
  obtain x where x: "step T x" using busy_steps [OF less.prems] by blast
  show ?case
  proof (cases x)
    case (Panicked p U)
    then have "step T (Panicked p U)" using x by simp
    then show ?thesis using nsteps.none [of step T] by blast
  next
    case (Returned u U)
    then have u: "step T (Returned u U)" using x by simp
    obtain k T' p V where "nsteps step k U T'" "step T' (Panicked p V)"
      using less.hyps [OF step_less [OF less.prems(1) u] step_ok [OF less.prems(1) u]
          busy_stays [OF less.prems u]] by blast
    then show ?thesis using u nsteps_first by fastforce
  qed
qed

lemma panic_ahead:
  assumes "ok S" and "busy S" and "nsteps step m S T"
  shows "m + work T \<le> work S \<and> (\<exists>k T' p U. nsteps step k T T' \<and> step T' (Panicked p U))"
proof -
  have "ok T \<and> busy T"
    using assms(3) by (rule nsteps_invariant) (use assms(1,2) step_ok busy_stays in blast)+
  then show ?thesis using nsteps_work [OF assms(3,1)] panic_next by blast
qed

end

end
