(* ===== verification/Process.thy ===== *)
theory Process
  imports Informer_Steps Draining
begin

section \<open>The process\<close>

text \<open>
  The informers, the client and the handlers together: what holds of every run of the process.
\<close>

subsection \<open>Steps without new deltas\<close>

text \<open>A step of the operator's own goroutines, whatever it hands to \<open>Handle\<close>.\<close>

definition own ::
    "'w api \<Rightarrow> (string \<Rightarrow> string) \<Rightarrow> (string \<Rightarrow> gmap \<times> error option) \<Rightarrow> decoders \<Rightarrow>
     'w system \<Rightarrow> ('w system, unit) outcome \<Rightarrow> bool"
where
  "own K getenv yaml dc S x \<longleftrightarrow> (\<exists>evs. inner K getenv yaml dc S evs x)"

definition all_left :: "'w system \<Rightarrow> nat" where
  "all_left S = sum_list (map left (informers S))"

lemma sum_list_update_less:
  "i < length xs \<Longrightarrow> f y < (f (xs ! i) :: nat) \<Longrightarrow> sum_list (map f (xs[i := y])) < sum_list (map f xs)"
proof (induction xs arbitrary: i)
  case (Cons x xs)
  then show ?case by (cases i) auto
qed simp

lemma inner_left:
  assumes "list_all queue_ok (informers S)" and "inner K getenv yaml dc S evs (Returned u T)"
  shows "all_left T < all_left S"
proof -
  obtain i I' where i: "i < length (informers S)" "informers T = (informers S)[i := I']"
    "local_step (informers S ! i) I'" using inner_local [OF assms(2)] by blast
  have "left I' < left (informers S ! i)"
    using assms(1) i by (intro left_step) (auto simp: list_all_length)
  from sum_list_update_less [OF i(1) this] show ?thesis by (simp add: all_left_def i(2))
qed

interpretation own_draining: draining "own K getenv yaml dc" "\<lambda>S. list_all queue_ok (informers S)" all_left
  for K :: "'w api" and getenv yaml dc
  by unfold_locales (auto simp: own_def intro: inner_left queue_inv.on_inner)

lemma quiescent_stops:
  assumes "list_all queue_ok (informers S)" and "list_all quiescent (informers S)"
  shows "\<not> inner K getenv yaml dc S evs x"
proof
  assume "inner K getenv yaml dc S evs x"
  then show False
  proof cases
    case (readied i key I)
    then show False using assms(1) by (auto simp: list_all_length ready_key_def queue_ok_def)
  qed (use assms quiescent_iff in \<open>auto simp: list_all_length finish_key_def\<close>)
qed

lemma busy_goes_on:
  assumes "I = informers S ! i" and "i < length (informers S)" and "queue_ok I" and "\<not> quiescent I"
  shows "\<exists>evs x. inner K getenv yaml dc S evs x"
proof (cases "notify I")
  case (Some m)
  then show ?thesis using inner.notified assms(1,2) by blast
next
  case None
  show ?thesis
  proof (cases "worker I")
    case Idle
    then obtain I' where "get_key I = Some I'" using None assms(3,4) by (auto simp: quiescent_iff)
    then show ?thesis using inner.taken assms(1,2) by blast
  next
    case (Holding key)
    obtain evs m where "sync K getenv yaml dc in_order key (op S) I = (evs, m)" by (metis surj_pair)
    then show ?thesis using inner.synced Holding assms(1,2) by blast
  next
    case (Synced key forget err)
    then obtain I' where "finish_key 0 I = Some I'" by (auto simp: finish_key_def)
    then show ?thesis using inner.finished assms(1,2) by blast
  qed
qed

lemma stuck_iff_quiescent:
  assumes "list_all queue_ok (informers S)"
  shows "(\<nexists>evs x. inner K getenv yaml dc S evs x) \<longleftrightarrow> list_all quiescent (informers S)"
proof
  assume stuck: "\<nexists>evs x. inner K getenv yaml dc S evs x"
  have "quiescent (informers S ! i)" if "i < length (informers S)" for i
  proof (rule ccontr)
    assume "\<not> quiescent (informers S ! i)"
    with busy_goes_on [OF refl that, of K getenv yaml dc] assms that stuck
    show False by (auto simp: list_all_length)
  qed
  then show "list_all quiescent (informers S)" by (simp add: list_all_length)
qed (use quiescent_stops [OF assms] in blast)

subsection \<open>Objects that cannot be decoded, deletions that were missed\<close>

interpretation stored_touched: informer_invariant "\<lambda>I. dom (indexer I) \<subseteq> touched I"
proof unfold_locales
  fix I I' :: informer and d
  show "dom (indexer New) \<subseteq> touched New" by (simp add: New_def)
  assume sub: "dom (indexer I) \<subseteq> touched I"
  then show "dom (indexer (HandleDelta d I)) \<subseteq> touched (HandleDelta d I)"
    by (cases d) (auto simp: store_object_def delete_object_def Let_def)
  assume step: "local_step I I'"
  then have "indexer I' = indexer I"
    by cases (auto dest!: notify_cases simp: queue_Add_def get_key_def sync_informer_def
        finish_key_def handleErr_def queue_Done_def ready_key_def Let_def
        split: if_splits option.splits prod.splits worker.splits)
  with sub touched_step [OF step] show "dom (indexer I') \<subseteq> touched I'" by simp
qed

lemma list_all_update: "list_all P xs \<Longrightarrow> P y \<Longrightarrow> list_all P (xs[i := y])"
  using set_update_subset_insert [of xs i y] by (auto simp: list_all_iff)

text \<open>Whatever was delivered was decoded.\<close>

definition decoded :: "decoders \<Rightarrow> informer \<Rightarrow> bool" where
  "decoded dc I \<longleftrightarrow> (\<forall>(k, exists, obj) \<in> set (delivered I). RuntimeObjectFromUnstructured dc obj \<noteq> None)"

lemma sync_decoded:
  assumes "decoded dc I" and "sync K getenv yaml dc \<rho> key s I = (evs, m)"
  shows "decoded dc (snd (final_state m))"
proof (cases "last_known key I")
  case None
  then show ?thesis using assms by (auto simp: sync_def decoded_def)
next
  case (Some q)
  obtain obj exists where q: "last_known key I = Some (obj, exists)" using Some by (cases q) simp
  show ?thesis
  proof (cases "RuntimeObjectFromUnstructured dc obj")
    case None
    then show ?thesis using assms by (auto simp: sync_def q)
  next
    case (Some object)
    then show ?thesis using assms
      by (cases "Handle K getenv yaml \<rho> object (\<not> exists) s")
        (auto simp: sync_def q Let_def decoded_def)
  qed
qed

lemma inner_decoded:
  assumes "inner K getenv yaml dc S evs (Returned u T)" and "list_all (decoded dc) (informers S)"
  shows "list_all (decoded dc) (informers T)"
proof -
  have keep: "list_all (decoded dc) ((informers S)[i := I])"
    if "i < length (informers S)" "decoded dc I" for i I
    using assms(2) that(2) by (rule list_all_update)
  have same: "decoded dc I" if "delivered I = delivered (informers S ! i)" "i < length (informers S)" for i I
    using assms(2) that by (simp add: list_all_length decoded_def)
  from assms(1) show ?thesis
  proof cases
    case (notified i m)
    then obtain v I where m: "m = Returned v I" "informers T = (informers S)[i := I]"
      by (auto split: outcome.splits)
    then have "delivered I = delivered (informers S ! i)"
      using notify_cases [of "informers S ! i" v I] notified by (auto simp: queue_Add_def)
    then show ?thesis using keep same m notified by simp
  next
    case (synced i key \<rho> m)
    then obtain v t I where m: "m = Returned v (t, I)" "informers T = (informers S)[i := I]"
      by (auto split: outcome.splits)
    have "decoded dc I" using sync_decoded [OF same synced(4)] synced m by auto
    then show ?thesis using keep m synced by simp
  next
    case (taken i I)
    then have "delivered I = delivered (informers S ! i)"
      by (auto simp: get_key_def split: if_splits option.splits)
    then show ?thesis using keep same taken by simp
  next
    case (finished i bucket I)
    then have "delivered I = delivered (informers S ! i)"
      by (auto simp: finish_key_def handleErr_def queue_Done_def Let_def split: worker.splits if_splits)
    then show ?thesis using keep same finished by simp
  next
    case (readied i key I)
    then have "delivered I = delivered (informers S ! i)" by (auto simp: ready_key_def split: if_splits)
    then show ?thesis using keep same readied by simp
  qed
qed

lemma running_decoded:
  "running K getenv yaml dc n evs x \<Longrightarrow> x = Returned () S \<Longrightarrow> list_all (decoded dc) (informers S)"
proof (induction arbitrary: S rule: running.induct)
  case (begun w)
  then show ?case by (auto simp: list_all_length decoded_def New_def)
next
  case (observed evs S0 i ds)
  have "delivered (HandleDelta d I) = delivered I" for d I
    by (cases d) (simp_all add: store_object_def delete_object_def Let_def)
  then have "delivered (HandleDeltas ds I) = delivered I" for I
    unfolding HandleDeltas_def by (induction ds arbitrary: I) simp_all
  moreover have "i < length (informers S0)"
    using queue_inv.on_running [OF observed.hyps(1) refl] observed.hyps(2) by simp
  ultimately have "decoded dc (HandleDeltas ds (informers S0 ! i))"
    using observed.IH by (simp add: list_all_length decoded_def)
  with observed show ?case by (auto intro: list_all_update)
next
  case (stepped evs S0 evs' x)
  then show ?case using inner_decoded by blast
qed auto

text \<open>Without new deltas the stored objects stay, and so does a notification that cannot be delivered.\<close>

definition missed_deletion :: "notification \<Rightarrow> bool" where
  "missed_deletion n \<longleftrightarrow> (\<exists>key obj. n = DeleteNotification (DeletedFinalStateUnknown key obj))"

lemma local_step_keeps:
  assumes "local_step I I'"
  shows "indexer I' = indexer I \<and>
    (list_ex missed_deletion (notifications I) \<longrightarrow> list_ex missed_deletion (notifications I'))"
  using assms
proof cases
  case (notified u)
  from notify_cases [OF this] show ?thesis by (auto simp: queue_Add_def missed_deletion_def)
qed (auto simp: get_key_def sync_informer_def finish_key_def handleErr_def queue_Done_def
    ready_key_def Let_def split: if_splits option.splits prod.splits worker.splits)

lemma inner_keeps:
  assumes "inner K getenv yaml dc S evs (Returned u T)" and "i < length (informers S)"
  shows "length (informers T) = length (informers S) \<and>
   indexer (informers T ! i) = indexer (informers S ! i) \<and>
   (list_ex missed_deletion (notifications (informers S ! i)) \<longrightarrow>
      list_ex missed_deletion (notifications (informers T ! i)))"
proof -
  obtain j I' where j: "j < length (informers S)" "informers T = (informers S)[j := I']"
    "local_step (informers S ! j) I'" using inner_local [OF assms(1)] by blast
  then show ?thesis using assms(2) local_step_keeps [OF j(3)] by (cases "i = j") auto
qed

text \<open>While such a notification or object is there, the informers go on.\<close>

lemma busy_not_quiescent:
  assumes "list_all queue_ok (informers S)" and "i < length (informers S)"
    and "\<not> quiescent (informers S ! i)"
  shows "\<exists>x. own K getenv yaml dc S x"
  using busy_goes_on [OF refl assms(2), of K getenv yaml dc] assms
  by (auto simp: own_def list_all_length)

definition missed :: "nat \<Rightarrow> 'w system \<Rightarrow> bool" where
  "missed i S \<longleftrightarrow> i < length (informers S) \<and> list_ex missed_deletion (notifications (informers S ! i))"

interpretation own_missed: stubborn "own K getenv yaml dc" "\<lambda>S. list_all queue_ok (informers S)" all_left
    "missed i"
  for K :: "'w api" and getenv yaml dc i
proof unfold_locales
  fix S T :: "'w system" and u
  assume ok: "list_all queue_ok (informers S)" and m: "missed i S"
  then show "own K getenv yaml dc S (Returned u T) \<Longrightarrow> missed i T"
    using inner_keeps by (fastforce simp: own_def missed_def)
  have "\<not> quiescent (informers S ! i)" using m by (auto simp: missed_def quiescent_def)
  then show "\<exists>x. own K getenv yaml dc S x"
    using busy_not_quiescent [OF ok] m by (auto simp: missed_def)
qed

text \<open>An object that cannot be decoded, and what the informers know of the objects they have stored.\<close>

definition holds :: "nat \<Rightarrow> string \<Rightarrow> json \<Rightarrow> 'w system \<Rightarrow> bool" where
  "holds i k obj S \<longleftrightarrow> i < length (informers S) \<and> indexer (informers S ! i) k = Some obj"

definition sound :: "decoders \<Rightarrow> 'w system \<Rightarrow> bool" where
  "sound dc S \<longleftrightarrow> list_all view_ok (informers S) \<and> list_all (decoded dc) (informers S) \<and>
     list_all (\<lambda>I. dom (indexer I) \<subseteq> touched I) (informers S)"

lemma sound_queue: "sound dc S \<Longrightarrow> list_all queue_ok (informers S)"
  by (auto simp: sound_def view_ok_def list_all_iff)

lemma running_sound: "running K getenv yaml dc n evs (Returned () S) \<Longrightarrow> sound dc S"
  using view_inv.on_running [of K getenv yaml dc n evs _ S] running_decoded [of K getenv yaml dc n evs _ S]
    stored_touched.on_running [of K getenv yaml dc n evs _ S] by (auto simp: sound_def)

lemma sound_inner: "sound dc S \<Longrightarrow> inner K getenv yaml dc S evs (Returned u T) \<Longrightarrow> sound dc T"
  using view_inv.on_inner inner_decoded stored_touched.on_inner by (fastforce simp: sound_def)

lemma undecodable_not_quiescent:
  assumes "sound dc S" and "holds i k obj S" and "RuntimeObjectFromUnstructured dc obj = None"
  shows "\<not> quiescent (informers S ! i)"
proof
  let ?I = "informers S ! i"
  assume "quiescent ?I"
  moreover have I: "view_ok ?I" "decoded dc ?I" "k \<in> touched ?I" "indexer ?I k = Some obj"
    using assms(1,2) by (auto simp: sound_def holds_def list_all_length dest!: subsetD [of "dom _", OF _ domI])
  ultimately have "map_of (rev (delivered ?I)) k = Some (True, obj)"
    using quiescent_up_to_date [OF I(1) _ I(3)] by (simp add: up_to_date_def last_delivered_def)
  then have "(k, True, obj) \<in> set (delivered ?I)" by (auto dest: map_of_SomeD)
  with I(2) assms(3) show False by (auto simp: decoded_def)
qed

text \<open>The state of being busy is that of holding the object; that it cannot be decoded is fixed.\<close>

definition undecodable :: "decoders \<Rightarrow> nat \<Rightarrow> string \<Rightarrow> 'w system \<Rightarrow> bool" where
  "undecodable dc i k S \<longleftrightarrow> (\<exists>obj. holds i k obj S \<and> RuntimeObjectFromUnstructured dc obj = None)"

interpretation own_undecodable: stubborn "own K getenv yaml dc" "sound dc" all_left "undecodable dc i k"
  for K :: "'w api" and getenv yaml dc i k
proof unfold_locales
  fix S T :: "'w system" and u
  assume ok: "sound dc S"
  then show "own K getenv yaml dc S (Returned u T) \<Longrightarrow> sound dc T"
    using sound_inner by (auto simp: own_def)
  show "own K getenv yaml dc S (Returned u T) \<Longrightarrow> all_left T < all_left S"
    using own_draining.step_less [OF sound_queue [OF ok]] .
  assume m: "undecodable dc i k S"
  then show "own K getenv yaml dc S (Returned u T) \<Longrightarrow> undecodable dc i k T"
    using inner_keeps by (fastforce simp: own_def undecodable_def holds_def)
  show "\<exists>x. own K getenv yaml dc S x"
    using m busy_not_quiescent [OF sound_queue [OF ok], of i] undecodable_not_quiescent [OF ok]
    by (auto simp: undecodable_def holds_def)
qed

subsection \<open>Properties\<close>

text \<open>C12: No change of an object is lost: when an informer has come to rest, \<open>Handle\<close> was last
  called for each object the server ever reported with the object as it is now, or, if it is
  gone, with its deletion; whatever came in while it was worked on.\<close>

theorem no_change_lost:
  assumes "running K getenv yaml dc n evs (Returned () S)" and "i < n"
    and "quiescent (informers S ! i)" and "k \<in> touched (informers S ! i)"
  shows "case indexer (informers S ! i) k of
      Some obj \<Rightarrow> last_delivered (informers S ! i) k = Some (True, obj)
    | None \<Rightarrow> \<exists>obj. last_delivered (informers S ! i) k = Some (False, obj)"
proof -
  have "view_ok (informers S ! i)"
    using view_inv.on_running [OF assms(1) refl] assms(2) by (auto simp: list_all_length)
  from quiescent_up_to_date [OF this assms(3,4)] show ?thesis
    by (simp add: up_to_date_def seen_gone_def split: option.splits)
qed

text \<open>The informers come to rest: without new deltas from the server they take only finitely
  many steps, at most as many as there is work left, and they stop only when no notification, no
  key and no worker has anything left to do.\<close>

theorem process_drains:
  assumes "running K getenv yaml dc n evs (Returned () S)"
  shows "(\<forall>m T. nsteps (own K getenv yaml dc) m S T \<longrightarrow> m + all_left T \<le> all_left S) \<and>
    ((\<nexists>x. own K getenv yaml dc S x) \<longleftrightarrow> list_all quiescent (informers S))"
proof -
  have ok: "list_all queue_ok (informers S)" using queue_inv.on_running [OF assms refl] by blast
  show ?thesis
    using own_draining.nsteps_work [OF _ ok] stuck_iff_quiescent [OF ok, of K getenv yaml dc]
    by (auto simp: own_def)
qed

text \<open>C22: In every state of the process the queue of an informer holds each key once, exactly the
  keys that wait and are not being worked on, and only the worker's key is being worked on; no key
  has ever failed and none waits to be tried again: since \<open>Handle\<close> returns \<open>nil\<close> whatever its
  handlers return, an event whose handling failed is never handled again.\<close>

theorem informer_queue_invariant:
  assumes "running K getenv yaml dc n evs (Returned () S)" and "i < n"
  shows "let I = informers S ! i; q = rl_queue (work I) in
    distinct (wq_queue q) \<and> set (wq_queue q) = wq_dirty q - wq_processing q \<and>
    wq_processing q = held_by (worker I) \<and>
    rl_failures (work I) = (\<lambda>k. 0) \<and> rl_waiting (work I) = []"
proof -
  have "queue_ok (informers S ! i)"
    using queue_inv.on_running [OF assms(1) refl] assms(2) by (auto simp: list_all_length)
  then show ?thesis by (simp add: queue_ok_def wq_ok_def Let_def)
qed

text \<open>A deletion that the watch missed crashes the operator: once the notification with its
  \<open>DeletedFinalStateUnknown\<close> is there, the informers take only finitely many steps more, and
  however they go on, a panic stays ahead of them.\<close>

theorem missed_deletion_crashes:
  assumes "running K getenv yaml dc n evs (Returned () S)" and "i < n"
    and "list_ex missed_deletion (notifications (informers S ! i))"
    and "nsteps (own K getenv yaml dc) m S T"
  shows "m + all_left T \<le> all_left S \<and> (\<exists>k T' p U.
    nsteps (own K getenv yaml dc) k T T' \<and> own K getenv yaml dc T' (Panicked p U))"
proof -
  have "list_all queue_ok (informers S)" "missed i S"
    using queue_inv.on_running [OF assms(1) refl] assms(2,3) by (simp_all add: missed_def)
  from own_missed.panic_ahead [OF this assms(4)] show ?thesis .
qed

text \<open>C23: An object that cannot be decoded crashes the operator: once an informer has stored it,
  the informers take only finitely many steps more while it stays, and however they go on, a
  panic stays ahead of them. A fencing request with a number for its target is such an object.\<close>

theorem undecodable_object_crashes:
  assumes "running K getenv yaml dc n evs (Returned () S)" and "i < n"
    and "indexer (informers S ! i) k = Some obj" and "RuntimeObjectFromUnstructured dc obj = None"
    and "nsteps (own K getenv yaml dc) m S T"
  shows "m + all_left T \<le> all_left S \<and> (\<exists>k T' p U.
    nsteps (own K getenv yaml dc) k T T' \<and> own K getenv yaml dc T' (Panicked p U))"
proof -
  have "undecodable dc i k S"
    using queue_inv.on_running [OF assms(1) refl] assms(2-4) by (auto simp: undecodable_def holds_def)
  from own_undecodable.panic_ahead [OF running_sound [OF assms(1)] this assms(5)] show ?thesis .
qed

subsection \<open>A run of the process\<close>

text \<open>
  One informer, to which a lost node is reported: the delta, the notification, and the worker's
  three steps.
\<close>

definition sample_decoders :: decoders where
  "sample_decoders = \<lparr>decode_meta = name_decoder, decode_node = (\<lambda>j. Some (lost_node ''Unknown'')),
     decode_event = (\<lambda>j. None), decode_job = (\<lambda>j. None), decode_config_map = (\<lambda>j. None),
     decodes_other = (\<lambda>j. False)\<rparr>"

definition node_object :: json where
  "node_object = JObj [(''apiVersion'', JStr ''v1''), (''kind'', JStr ''Node''),
     (''metadata'', JObj [(''name'', JStr ''n'')])]"

lemmas unstructured_defs = GroupVersionKind_def ParseGroupVersion_def GetKind_def GetAPIVersion_def GetName_def GetNamespace_def
  nested_string_def MetaNamespaceKeyFunc_def

lemma node_object_facts:
  "MetaNamespaceKeyFunc node_object = ''n''"
  "RuntimeObjectFromUnstructured sample_decoders node_object = Some (ENode (lost_node ''Unknown''))"
  by (simp_all add: node_object_def unstructured_defs RuntimeObjectFromUnstructured_def
      sample_decoders_def)

definition stage :: "notification list \<Rightarrow> string wqueue \<Rightarrow> worker \<Rightarrow> (string \<times> bool \<times> json) list \<Rightarrow> informer" where
  "stage ns q w ds = \<lparr>indexer = Map.empty(''n'' \<mapsto> node_object), notifications = ns,
     deletedObjects = Map.empty, work = \<lparr>rl_queue = q, rl_failures = (\<lambda>k. 0), rl_waiting = []\<rparr>,
     worker = w, delivered = ds, touched = {''n''}\<rparr>"

definition holding :: "string wqueue" where
  "holding = NewNamed\<lparr>wq_processing := {''n''}\<rparr>"

definition waiting :: "string wqueue" where
  "waiting = NewNamed\<lparr>wq_queue := [''n''], wq_dirty := {''n''}\<rparr>"

lemma stage_steps:
  "HandleDeltas [Added node_object] New = stage [AddNotification node_object] NewNamed Idle []"
  "notify (stage [AddNotification node_object] NewNamed Idle []) = Some (Returned () (stage [] waiting Idle []))"
  "get_key (stage [] waiting Idle []) = Some (stage [] holding (Holding ''n'') [])"
  "sync_informer ''n'' (stage [] holding (Holding ''n'') []) =
     stage [] holding (Synced ''n'' False None) [(''n'', True, node_object)]"
  "finish_key 0 (stage [] holding (Synced ''n'' False None) [(''n'', True, node_object)]) =
     Some (stage [] NewNamed Idle [(''n'', True, node_object)])"
  by (simp_all add: HandleDeltas_def store_object_def New_def NewNamedRateLimitingQueue_def stage_def
      node_object_facts notify_def handleAddResourceEvent_def queue_Add_def Add_def NewNamed_def
      waiting_def get_key_def take_key_eq holding_def sync_informer_def last_known_def
      finish_key_def handleErr_def Forget_never_failed queue_Done_def Done_def Let_def)

definition sample_system :: "'w opstate \<Rightarrow> informer \<Rightarrow> 'w system" where
  "sample_system s I = \<lparr>op = s, informers = [I]\<rparr>"

lemma sample_system_facts [simp]:
  "op (sample_system s I) = s" "informers (sample_system s I) = [I]"
  "with_informer 0 I' (sample_system s I) = sample_system s I'"
  "(sample_system s I)\<lparr>op := t\<rparr> = sample_system t I"
  by (simp_all add: sample_system_def with_informer_def)

abbreviation start_state :: "unit opstate" where
  "start_state \<equiv> \<lparr>world = (), fencingConfigs = [], calls = []\<rparr>"

abbreviation sample_running :: "(event_object \<times> bool) list \<Rightarrow> (unit system, unit) outcome \<Rightarrow> bool" where
  "sample_running \<equiv> running empty_api (\<lambda>v. ''ns'') sample_yaml sample_decoders 1"

lemma sample_begun:
  "sample_running [] (Returned () (sample_system \<lparr>world = (), fencingConfigs = [], calls = []\<rparr> New))"
  using running.begun [of empty_api "\<lambda>v. ''ns''" sample_yaml sample_decoders 1 "()"]
  by (simp add: sample_system_def)

lemma sample_observed:
  "sample_running evs (Returned () (sample_system s I)) \<Longrightarrow>
   sample_running evs (Returned () (sample_system s (HandleDeltas ds I)))"
  using running.observed [of empty_api "\<lambda>v. ''ns''" sample_yaml sample_decoders 1 evs "sample_system s I" 0 ds]
  by simp

lemma sample_reported:
  "sample_running [] (Returned () (sample_system \<lparr>world = (), fencingConfigs = [], calls = []\<rparr>
     (stage [AddNotification node_object] NewNamed Idle [])))"
  using sample_observed [OF sample_begun, of "[Added node_object]"] by (simp add: stage_steps(1))

text \<open>The steps of the one informer.\<close>

lemma sample_step:
  assumes "sample_running evs (Returned () (sample_system s I))"
    and "inner empty_api (\<lambda>v. ''ns'') sample_yaml sample_decoders (sample_system s I) evs' x"
  shows "sample_running (evs @ evs') x"
  using running.stepped [OF assms] .

abbreviation sample_inner ::
    "unit system \<Rightarrow> (event_object \<times> bool) list \<Rightarrow> (unit system, unit) outcome \<Rightarrow> bool" where
  "sample_inner \<equiv> inner empty_api (\<lambda>v. ''ns'') sample_yaml sample_decoders"

lemma inner_notified:
  "notify I = Some (Returned () I') \<Longrightarrow>
   sample_inner (sample_system s I) [] (Returned () (sample_system s I'))"
  using inner.notified [of 0 "sample_system s I" "Returned () I'"] by fastforce

lemma inner_taken:
  "get_key I = Some I' \<Longrightarrow> sample_inner (sample_system s I) [] (Returned () (sample_system s I'))"
  using inner.taken [of 0 "sample_system s I" I'] by fastforce

lemma inner_synced:
  "worker I = Holding key \<Longrightarrow>
   sync empty_api (\<lambda>v. ''ns'') sample_yaml sample_decoders \<rho> key s I = (evs', Returned () (t, I')) \<Longrightarrow>
   sample_inner (sample_system s I) evs' (Returned () (sample_system t I'))"
  using inner.synced [of 0 "sample_system s I" key empty_api "\<lambda>v. ''ns''" sample_yaml
      sample_decoders \<rho> evs' "Returned () (t, I')"] by fastforce

lemma inner_finished:
  "finish_key bucket I = Some I' \<Longrightarrow>
   sample_inner (sample_system s I) [] (Returned () (sample_system s I'))"
  using inner.finished [of 0 "sample_system s I" bucket I'] by fastforce

text \<open>The worker handles the lost node.\<close>

lemma sample_synced:
  "\<exists>t. sample_inner (sample_system start_state (stage [] holding (Holding ''n'') []))
     [(ENode (lost_node ''Unknown''), False)]
     (Returned () (sample_system t (stage [] holding (Synced ''n'' False None) [(''n'', True, node_object)])))"
proof -
  obtain t where "Handle empty_api (\<lambda>v. ''ns'') sample_yaml in_order (ENode (lost_node ''Unknown''))
      False start_state = Returned None t" by (simp add: Handle_def)
  then have "sync empty_api (\<lambda>v. ''ns'') sample_yaml sample_decoders in_order ''n'' start_state
      (stage [] holding (Holding ''n'') []) = ([(ENode (lost_node ''Unknown''), False)],
       Returned () (t, stage [] holding (Synced ''n'' False None) [(''n'', True, node_object)]))"
    by (simp add: sync_def last_known_def stage_def node_object_facts)
  from inner_synced [OF _ this] show ?thesis by (auto simp: stage_def)
qed

lemma sample_worked:
  "\<exists>s. sample_running [(ENode (lost_node ''Unknown''), False)]
     (Returned () (sample_system s (stage [] NewNamed Idle [(''n'', True, node_object)])))"
proof -
  obtain t where t: "sample_inner (sample_system start_state (stage [] holding (Holding ''n'') []))
     [(ENode (lost_node ''Unknown''), False)]
     (Returned () (sample_system t (stage [] holding (Synced ''n'' False None) [(''n'', True, node_object)])))"
    using sample_synced by blast
  note sample_step [OF sample_reported inner_notified [OF stage_steps(2)]]
  note sample_step [OF this inner_taken [OF stage_steps(3)]]
  note sample_step [OF this t]
  from sample_step [OF this inner_finished [OF stage_steps(5)]] show ?thesis by auto
qed

text \<open>A request whose target is a number, and the informer that has stored it.\<close>

definition bad_request :: json where
  "bad_request = JObj [(''apiVersion'', JStr fencing_version), (''kind'', JStr ''FencingRequest''),
     (''metadata'', JObj [(''name'', JStr ''r'')]), (''spec'', JObj [(''target'', JInt 1)])]"

lemma bad_request_facts:
  "MetaNamespaceKeyFunc bad_request = ''r''"
  "RuntimeObjectFromUnstructured sample_decoders bad_request = None"
  by (simp_all add: bad_request_def unstructured_defs RuntimeObjectFromUnstructured_def fencing_version_def
      unmarshal_request_def unmarshal_spec_def json_field_def dominant_def request_tags_def spec_tags_def
      sample_decoders_def bind_eq_None_conv)

text \<open>What the runs look like in the terms of the properties.\<close>

lemma sample_worked':
  "\<exists>S. sample_running [(ENode (lost_node ''Unknown''), False)] (Returned () S) \<and>
     informers S = [stage [] NewNamed Idle [(''n'', True, node_object)]]"
  using sample_worked by fastforce

theorem no_change_lost_witness:
  "\<exists>S. sample_running [(ENode (lost_node ''Unknown''), False)] (Returned () S) \<and>
     quiescent (informers S ! 0) \<and> last_delivered (informers S ! 0) ''n'' = Some (True, node_object)"
proof -
  obtain S where S: "sample_running [(ENode (lost_node ''Unknown''), False)] (Returned () S)"
    and I: "informers S = [stage [] NewNamed Idle [(''n'', True, node_object)]]"
    using sample_worked' by blast
  have q: "quiescent (informers S ! 0)" "''n'' \<in> touched (informers S ! 0)"
    "indexer (informers S ! 0) ''n'' = Some node_object"
    by (simp_all add: I stage_def quiescent_def NewNamed_def)
  from no_change_lost [OF S _ q(1,2)] S q show ?thesis by auto
qed

theorem process_drains_witness:
  "\<exists>S. sample_running [] (Returned () S) \<and> all_left S = 4 \<and>
     (\<exists>x. own empty_api (\<lambda>v. ''ns'') sample_yaml sample_decoders S x)"
proof -
  let ?I = "stage [AddNotification node_object] NewNamed Idle []"
  have "\<not> list_all quiescent (informers (sample_system start_state ?I))"
    by (simp add: stage_def quiescent_def)
  moreover have "all_left (sample_system start_state ?I) = 4"
    by (simp add: all_left_def left_def stage_def NewNamed_def)
  ultimately show ?thesis using process_drains [OF sample_reported] sample_reported by blast
qed

theorem informer_queue_invariant_witness:
  "\<exists>S. sample_running [] (Returned () S) \<and> rl_waiting (work (informers S ! 0)) = [] \<and>
     wq_queue (rl_queue (work (informers S ! 0))) = [''n''] \<and>
     distinct (wq_queue (rl_queue (work (informers S ! 0))))"
proof -
  have r: "sample_running [] (Returned () (sample_system start_state (stage [] waiting Idle [])))"
    using sample_step [OF sample_reported inner_notified [OF stage_steps(2)]] by simp
  from informer_queue_invariant [OF r, of 0] r show ?thesis
    by (intro exI [of _ "sample_system start_state (stage [] waiting Idle [])"])
      (simp add: stage_def waiting_def Let_def)
qed

theorem missed_deletion_crashes_witness:
  "\<exists>S k T' p U. sample_running [] (Returned () S) \<and>
     nsteps (own empty_api (\<lambda>v. ''ns'') sample_yaml sample_decoders) k S T' \<and>
     own empty_api (\<lambda>v. ''ns'') sample_yaml sample_decoders T' (Panicked p U)"
proof -
  let ?I = "HandleDeltas [Deleted (DeletedFinalStateUnknown ''n'' node_object)] New"
  have r: "sample_running [] (Returned () (sample_system start_state ?I))"
    by (rule sample_observed [OF sample_begun])
  have "list_ex missed_deletion (notifications (informers (sample_system start_state ?I) ! 0))"
    by (simp add: HandleDeltas_def delete_object_def New_def missed_deletion_def Let_def)
  from missed_deletion_crashes [OF r _ this nsteps.none] r show ?thesis by fastforce
qed

theorem undecodable_object_crashes_witness:
  "\<exists>S k T' p U. sample_running [] (Returned () S) \<and>
     nsteps (own empty_api (\<lambda>v. ''ns'') sample_yaml sample_decoders) k S T' \<and>
     own empty_api (\<lambda>v. ''ns'') sample_yaml sample_decoders T' (Panicked p U)"
proof -
  let ?I = "HandleDeltas [Added bad_request] New"
  have r: "sample_running [] (Returned () (sample_system start_state ?I))"
    by (rule sample_observed [OF sample_begun])
  have "indexer (informers (sample_system start_state ?I) ! 0) ''r'' = Some bad_request"
    by (simp add: HandleDeltas_def store_object_def New_def bad_request_facts Let_def)
  from undecodable_object_crashes [OF r _ this bad_request_facts(2) nsteps.none] r
  show ?thesis by fastforce
qed

end
