(* ===== verification/Reflector.thy ===== *)
theory Reflector
  imports Delta_FIFO Process
begin

section \<open>The reflector (vendored client-go: tools/cache/reflector.go)\<close>

text \<open>
  What feeds an informer: the reflector lists the objects, replaces everything the queue knows by
  the list, then watches for changes until the watch ends, and lists again. What the server
  answers is left open, but for one thing: no two objects of a list have the same key. There is no
  periodic resynchronisation (\<open>main.go\<close> asks for none: \<open>resyncInterval := 0\<close>), and the resource
  versions that a watch starts from are left out. With this the process is a system that reacts to
  lists and watch events of the server.
\<close>

subsection \<open>One reflector\<close>

datatype watch_event = WatchAdded json | WatchModified json | WatchDeleted json

text \<open>
  \<open>listing\<close>: the next thing \<open>ListAndWatch\<close> does is to list. Two ghost fields: \<open>reported\<close>, the
  objects the server has reported to exist, and \<open>overlapped\<close>, whether a list ever came at a time at
  which the queue does not take it in correctly (\<open>overlap\<close>): a listed object whose deletion is
  still queued, whose \<open>Sync\<close> is ignored; or an object that is not listed any more and is queued
  without having been handled before, for which no deletion is queued.
\<close>

record source =
  fifo :: delta_fifo
  listing :: bool
  reported :: "string \<rightharpoonup> json"
  overlapped :: bool

definition start_source :: source where
  "start_source = \<lparr>fifo = NewDeltaFIFO, listing = True, reported = Map.empty, overlapped = False\<rparr>"

definition overlap :: "(string \<rightharpoonup> json) \<Rightarrow> json list \<Rightarrow> delta_fifo \<Rightarrow> bool" where
  "overlap known objs f \<longleftrightarrow> list_ex
     (\<lambda>k. case listed objs k of
            Some obj \<Rightarrow> willObjectBeDeletedLocked k f
          | None \<Rightarrow> known k = None \<and> \<not> willObjectBeDeletedLocked k f) (fifo_queue f)"

definition syncWith :: "(string \<rightharpoonup> json) \<Rightarrow> string list \<Rightarrow> json list \<Rightarrow> source \<Rightarrow> source" where
  "syncWith known ks objs src =
     src\<lparr>fifo := Replace known ks objs (fifo src), listing := False, reported := listed objs,
         overlapped := (overlapped src \<or> overlap known objs (fifo src))\<rparr>"

fun watchHandler :: "(string \<rightharpoonup> json) \<Rightarrow> watch_event \<Rightarrow> source \<Rightarrow> source" where
  "watchHandler known (WatchAdded obj) src =
     src\<lparr>fifo := fifo_Add obj (fifo src), reported := (reported src)(MetaNamespaceKeyFunc obj \<mapsto> obj)\<rparr>"
| "watchHandler known (WatchModified obj) src =
     src\<lparr>fifo := fifo_Update obj (fifo src), reported := (reported src)(MetaNamespaceKeyFunc obj \<mapsto> obj)\<rparr>"
| "watchHandler known (WatchDeleted obj) src =
     src\<lparr>fifo := fifo_Delete known obj (fifo src),
         reported := (reported src)(MetaNamespaceKeyFunc obj := None)\<rparr>"

subsection \<open>The process and its reflectors\<close>

record 'w cluster =
  sys :: "'w system"
  sources :: "source list"

definition with_source :: "nat \<Rightarrow> source \<Rightarrow> 'w cluster \<Rightarrow> 'w cluster" where
  "with_source i src S = S\<lparr>sources := (sources S)[i := src]\<rparr>"

definition informer_of :: "nat \<Rightarrow> 'w cluster \<Rightarrow> informer" where
  "informer_of i S = informers (sys S) ! i"

text \<open>The deltas of one key are handled under the lock of the queue.\<close>

definition popped_into :: "nat \<Rightarrow> delta list \<Rightarrow> delta_fifo \<Rightarrow> 'w cluster \<Rightarrow> 'w cluster" where
  "popped_into i ds f S =
     with_source i ((sources S ! i)\<lparr>fifo := f\<rparr>)
       (S\<lparr>sys := with_informer i (HandleDeltas ds (informer_of i S)) (sys S)\<rparr>)"

text \<open>The worker starts when the first list has been handled (\<open>WaitForCacheSync\<close>).\<close>

definition synced_first :: "'w cluster \<Rightarrow> ('w system, unit) outcome \<Rightarrow> bool" where
  "synced_first S x \<longleftrightarrow> (\<forall>i < length (sources S).
     worker (informer_of i S) = Idle \<longrightarrow> worker (informers (final_state x) ! i) \<noteq> Idle \<longrightarrow>
     HasSynced (fifo (sources S ! i)))"

definition in_cluster :: "'w cluster \<Rightarrow> ('w system, unit) outcome \<Rightarrow> ('w cluster, unit) outcome" where
  "in_cluster S x =
     (case x of Returned u T \<Rightarrow> Returned u (S\<lparr>sys := T\<rparr>) | Panicked p T \<Rightarrow> Panicked p (S\<lparr>sys := T\<rparr>))"

text \<open>The steps that need nothing from the server's lists and watches.\<close>

inductive internal ::
    "'w api \<Rightarrow> (string \<Rightarrow> string) \<Rightarrow> (string \<Rightarrow> gmap \<times> error option) \<Rightarrow> decoders \<Rightarrow>
     'w cluster \<Rightarrow> (event_object \<times> bool) list \<Rightarrow> ('w cluster, unit) outcome \<Rightarrow> bool"
  for K getenv yaml dc
where
  popped: "i < length (sources S) \<Longrightarrow> Pop (fifo (sources S ! i)) = Some (ds, f) \<Longrightarrow>
    internal K getenv yaml dc S [] (Returned () (popped_into i ds f S))"
| worked: "inner K getenv yaml dc (sys S) evs x \<Longrightarrow> synced_first S x \<Longrightarrow>
    internal K getenv yaml dc S evs (in_cluster S x)"

inductive serving ::
    "'w api \<Rightarrow> (string \<Rightarrow> string) \<Rightarrow> (string \<Rightarrow> gmap \<times> error option) \<Rightarrow> decoders \<Rightarrow> nat \<Rightarrow>
     (event_object \<times> bool) list \<Rightarrow> ('w cluster, unit) outcome \<Rightarrow> bool"
  for K getenv yaml dc n
where
  started: "serving K getenv yaml dc n [] (Returned ()
    \<lparr>sys = \<lparr>op = \<lparr>world = w, fencingConfigs = [], calls = []\<rparr>, informers = replicate n New\<rparr>,
     sources = replicate n start_source\<rparr>)"
| changed: "serving K getenv yaml dc n evs (Returned () S) \<Longrightarrow>
    serving K getenv yaml dc n evs (Returned () (S\<lparr>sys := (sys S)\<lparr>op := (op (sys S))\<lparr>world := w\<rparr>\<rparr>\<rparr>))"
| relisted: "serving K getenv yaml dc n evs (Returned () S) \<Longrightarrow> i < n \<Longrightarrow> listing (sources S ! i) \<Longrightarrow>
    distinct (map MetaNamespaceKeyFunc objs) \<Longrightarrow> distinct ks \<Longrightarrow>
    set ks = dom (indexer (informer_of i S)) \<Longrightarrow>
    serving K getenv yaml dc n evs (Returned () (with_source i
      (syncWith (indexer (informer_of i S)) ks objs (sources S ! i)) S))"
| watched: "serving K getenv yaml dc n evs (Returned () S) \<Longrightarrow> i < n \<Longrightarrow> \<not> listing (sources S ! i) \<Longrightarrow>
    serving K getenv yaml dc n evs (Returned () (with_source i
      (watchHandler (indexer (informer_of i S)) e (sources S ! i)) S))"
| watch_ended: "serving K getenv yaml dc n evs (Returned () S) \<Longrightarrow> i < n \<Longrightarrow> \<not> listing (sources S ! i) \<Longrightarrow>
    serving K getenv yaml dc n evs (Returned () (with_source i ((sources S ! i)\<lparr>listing := True\<rparr>) S))"
| proceeded: "serving K getenv yaml dc n evs (Returned () S) \<Longrightarrow>
    internal K getenv yaml dc S evs' x \<Longrightarrow> serving K getenv yaml dc n (evs @ evs') x"

lemma with_source_simps [simp]:
  "sys (with_source i src S) = sys S" "sources (with_source i src S) = (sources S)[i := src]"
  "informer_of j (with_source i src S) = informer_of j S"
  by (simp_all add: with_source_def informer_of_def)

lemma popped_into_simps [simp]:
  "sys (popped_into i ds f S) = with_informer i (HandleDeltas ds (informer_of i S)) (sys S)"
  "sources (popped_into i ds f S) = (sources S)[i := (sources S ! i)\<lparr>fifo := f\<rparr>]"
  by (simp_all add: popped_into_def with_source_def)

subsection \<open>A refinement of the process with any deltas\<close>

definition system_of :: "('w cluster, unit) outcome \<Rightarrow> ('w system, unit) outcome" where
  "system_of x = (case x of Returned u S \<Rightarrow> Returned u (sys S) | Panicked p S \<Rightarrow> Panicked p (sys S))"

lemma system_of_simps [simp]:
  "system_of (Returned u S) = Returned u (sys S)" "system_of (Panicked p S) = Panicked p (sys S)"
  "system_of (in_cluster S x) = x"
  by (simp_all add: system_of_def in_cluster_def split: outcome.split)

lemma internal_sources:
  "internal K getenv yaml dc S evs (Returned u T) \<Longrightarrow> length (sources T) = length (sources S)"
  by (erule internal.cases) (auto simp: in_cluster_def split: outcome.splits)

lemma serving_lengths:
  "serving K getenv yaml dc n evs x \<Longrightarrow> x = Returned () S \<Longrightarrow> length (sources S) = n"
proof (induction arbitrary: S rule: serving.induct)
  case (proceeded evs S0 evs' x)
  then show ?case using internal_sources by fastforce
qed auto

lemma serving_running:
  "serving K getenv yaml dc n evs x \<Longrightarrow> running K getenv yaml dc n evs (system_of x)"
proof (induction rule: serving.induct)
  case (started w)
  then show ?case using running.begun by simp
next
  case (changed evs S w)
  then show ?case using running.elsewhere by simp
next
  case (proceeded evs S evs' x)
  have r: "running K getenv yaml dc n evs (Returned () (sys S))" using proceeded.IH by simp
  from proceeded.hyps(2) show ?case
  proof cases
    case (popped i ds f)
    then have "i < n" using serving_lengths [OF proceeded.hyps(1) refl] by simp
    from running.observed [OF r this, of ds] popped show ?thesis by (simp add: informer_of_def)
  next
    case (worked y)
    then show ?thesis using running.stepped [OF r] by simp
  qed
qed simp_all

end
