(* ===== verification/Reflector_Props.thy ===== *)
theory Reflector_Props
  imports Reflector
begin

section \<open>Properties of the process from the server's lists to the handlers\<close>

subsection \<open>Handling deltas\<close>

lemma HandleDeltas_Cons: "HandleDeltas (d # ds) I = HandleDeltas ds (HandleDelta d I)"
  by (simp add: HandleDeltas_def)

lemma HandleDeltas_Nil [simp]: "HandleDeltas [] I = I"
  by (simp add: HandleDeltas_def)

lemma HandleDelta_indexer: "indexer (HandleDelta d I) = (indexer I)(KeyOf d := outcome_of d)"
  by (cases d) (simp_all add: store_object_def delete_object_def Let_def)

lemma HandleDeltas_indexer:
  "ds \<noteq> [] \<Longrightarrow> \<forall>d \<in> set ds. KeyOf d = k \<Longrightarrow>
   indexer (HandleDeltas ds I) = (indexer I)(k := outcome_of (last ds))"
proof (induction ds arbitrary: I)
  case (Cons d ds)
  then show ?case
    by (cases ds) (auto simp: HandleDeltas_Cons HandleDelta_indexer fun_eq_iff)
qed simp

lemma left_HandleDelta: "left (HandleDelta d I) = left I + 4"
  by (cases d) (simp_all add: left_def store_object_def delete_object_def Let_def)

lemma left_HandleDeltas: "left (HandleDeltas ds I) = left I + 4 * length ds"
  by (induction ds arbitrary: I) (simp_all add: HandleDeltas_Cons left_HandleDelta)

lemma notifications_HandleDelta:
  "\<exists>m. notifications (HandleDelta d I) = notifications I @ [m] \<and> (\<forall>e. d = Deleted e \<longrightarrow> m = DeleteNotification e)"
  by (cases d) (simp_all add: store_object_def delete_object_def Let_def)

lemma notifications_HandleDeltas:
  "set (notifications I) \<subseteq> set (notifications (HandleDeltas ds I)) \<and>
   (\<forall>e. Deleted e \<in> set ds \<longrightarrow> DeleteNotification e \<in> set (notifications (HandleDeltas ds I)))"
proof (induction ds arbitrary: I)
  case Nil
  then show ?case by simp
next
  case (Cons d ds)
  obtain m where "notifications (HandleDelta d I) = notifications I @ [m]"
    "\<forall>e. d = Deleted e \<longrightarrow> m = DeleteNotification e" using notifications_HandleDelta by blast
  then show ?case using Cons [of "HandleDelta d I"] by (auto simp: HandleDeltas_Cons)
qed

subsection \<open>An invariant of every reflector\<close>

text \<open>
  The queue is well formed; as long as objects of the first list have not been handled they are in the
  queue; before the first list nothing has happened at all; and unless a list overlapped with
  deltas in the queue, the objects the server has reported are those that the informer has, or
  will have when the queue is empty.
\<close>

definition source_ok :: "informer \<Rightarrow> source \<Rightarrow> bool" where
  "source_ok I src \<longleftrightarrow> fifo_ok (fifo src) \<and>
     initialPopulationCount (fifo src) \<le> length (fifo_queue (fifo src)) \<and>
     (\<not> populated (fifo src) \<longrightarrow> fifo src = NewDeltaFIFO \<and> I = New) \<and>
     (\<not> overlapped src \<longrightarrow> view (indexer I) (fifo src) = reported src)"

lemma queue_grows: "length (fifo_queue f) \<le> length (fifo_queue (queueActionLocked d f))"
  by (simp add: queueActionLocked_eq)

lemma queue_grows_fold: "length (fifo_queue f) \<le> length (fifo_queue (fold (\<lambda>x. queueActionLocked (g x)) xs f))"
  by (induction xs arbitrary: f) (auto intro: order_trans [OF queue_grows])

lemma populated_fold [simp]:
  "populated (fold (\<lambda>x. queueActionLocked (g x)) xs f) = populated f"
  "initialPopulationCount (fold (\<lambda>x. queueActionLocked (g x)) xs f) = initialPopulationCount f"
  by (induction xs arbitrary: f) simp_all

lemma first_list:
  "distinct (map MetaNamespaceKeyFunc objs) \<Longrightarrow> \<forall>obj \<in> set objs. items f (MetaNamespaceKeyFunc obj) = None \<Longrightarrow>
   fifo_queue (fold (\<lambda>obj. queueActionLocked (Sync obj)) objs f) =
     fifo_queue f @ map MetaNamespaceKeyFunc objs"
proof (induction objs arbitrary: f)
  case (Cons obj objs)
  have i: "\<not> ignored (Sync obj) f" using Cons.prems
    by (simp add: ignored_def willObjectBeDeletedLocked_def)
  then have "\<forall>o' \<in> set objs. items (queueActionLocked (Sync obj) f) (MetaNamespaceKeyFunc o') = None"
    using Cons.prems by (auto simp: queueActionLocked_eq image_iff)
  from Cons.IH [OF _ this] show ?case using Cons.prems i by (simp add: queueActionLocked_eq)
qed simp

lemma Replace_count:
  assumes "source_ok I src" and "distinct (map MetaNamespaceKeyFunc objs)" and "set ks = dom (indexer I)"
  shows "populated (Replace (indexer I) ks objs (fifo src)) \<and>
    initialPopulationCount (Replace (indexer I) ks objs (fifo src)) \<le>
      length (fifo_queue (Replace (indexer I) ks objs (fifo src)))"
proof (cases "populated (fifo src)")
  case True
  let ?f1 = "fold (\<lambda>obj. queueActionLocked (Sync obj)) objs (fifo src)"
  have "length (fifo_queue (fifo src)) \<le> length (fifo_queue ?f1)" by (rule queue_grows_fold)
  also have "\<dots> \<le> length (fifo_queue (Replace (indexer I) ks objs (fifo src)))"
    by (simp add: Replace_def Let_def queue_grows_fold)
  finally show ?thesis using True assms(1) by (simp add: Replace_def Let_def source_ok_def)
next
  case False
  then have new: "fifo src = NewDeltaFIFO" "ks = []" using assms(1,3) by (auto simp: source_ok_def New_def)
  have "fifo_queue (fold (\<lambda>obj. queueActionLocked (Sync obj)) objs NewDeltaFIFO) =
      map MetaNamespaceKeyFunc objs"
    using first_list [OF assms(2), of NewDeltaFIFO] by (simp add: NewDeltaFIFO_def)
  then show ?thesis by (simp add: Replace_def Let_def new) (simp add: NewDeltaFIFO_def)
qed

lemma view_relisted:
  assumes "fifo_ok f" and "distinct (map MetaNamespaceKeyFunc objs)" and "set ks = dom known"
    and "\<not> overlap known objs f"
  shows "view known (Replace known ks objs f) = listed objs"
proof
  fix k
  have calm: "case listed objs k of Some obj \<Rightarrow> \<not> willObjectBeDeletedLocked k f
      | None \<Rightarrow> known k \<noteq> None \<or> willObjectBeDeletedLocked k f" if "items f k \<noteq> None"
  proof -
    have "k \<in> set (fifo_queue f)" using that assms(1) by (auto simp: fifo_ok_def)
    then show ?thesis using assms(4) by (auto simp: overlap_def list_ex_iff split: option.splits)
  qed
  show "view known (Replace known ks objs f) k = listed objs k"
  proof (cases "items f k")
    case None
    then have "\<not> willObjectBeDeletedLocked k f" "view known f k = known k"
      by (simp_all add: willObjectBeDeletedLocked_def view_def)
    then show ?thesis using assms(3) by (auto simp: view_Replace [OF assms(2)] split: option.split)
  next
    case (Some ds)
    then show ?thesis using calm assms(3) view_deleted [of k f known]
      by (auto simp: view_Replace [OF assms(2)] split: option.splits)
  qed
qed

lemma source_ok_syncWith:
  assumes "source_ok I src" and "distinct (map MetaNamespaceKeyFunc objs)" and "set ks = dom (indexer I)"
  shows "source_ok I (syncWith (indexer I) ks objs src)"
proof -
  have ok: "fifo_ok (fifo src)" using assms(1) by (simp add: source_ok_def)
  show ?thesis
    using Replace_count [OF assms] fifo_ok_Replace [OF ok] view_relisted [OF ok assms(2,3)]
    by (simp add: source_ok_def syncWith_def)
qed

lemma watch_count:
  "populated (fifo (watchHandler known e src)) \<and>
   initialPopulationCount (fifo (watchHandler known e src)) = initialPopulationCount (fifo src) \<and>
   length (fifo_queue (fifo src)) \<le> length (fifo_queue (fifo (watchHandler known e src)))"
  using queue_grows [of "(fifo src)\<lparr>populated := True\<rparr>"]
  by (cases e) (simp_all add: fifo_Add_def fifo_Update_def fifo_Delete_def Let_def)

lemma source_ok_watchHandler:
  assumes "source_ok I src"
  shows "source_ok I (watchHandler (indexer I) e src)"
proof -
  have ok: "fifo_ok (fifo src)" using assms by (simp add: source_ok_def)
  have "fifo_ok (fifo (watchHandler (indexer I) e src))" "overlapped (watchHandler (indexer I) e src) = overlapped src"
    "view (indexer I) (fifo src) = reported src \<Longrightarrow>
       view (indexer I) (fifo (watchHandler (indexer I) e src)) = reported (watchHandler (indexer I) e src)"
    by (cases e; simp add: fifo_ok_operations ok view_Add view_Update view_Delete)+
  then show ?thesis using assms watch_count [of "indexer I" e src] by (simp add: source_ok_def)
qed

lemma view_popped:
  assumes "fifo_ok f" and "Pop f = Some (ds, f')"
  shows "view (indexer (HandleDeltas ds I)) f' = view (indexer I) f"
proof -
  obtain k rest where k: "items f k = Some ds"
    and f': "f' = f\<lparr>items := (items f)(k := None), fifo_queue := rest,
         initialPopulationCount := initialPopulationCount f - 1\<rparr>"
    using Pop_cases [OF assms(1)] assms(2) by auto
  have ds: "ds \<noteq> []" "\<forall>d \<in> set ds. KeyOf d = k" using assms(1) k by (simp_all add: fifo_ok_def)
  show ?thesis
    by (rule ext) (simp add: view_def HandleDeltas_indexer [OF ds] f' k split: option.split)
qed

lemma source_ok_popped:
  assumes "source_ok I src" and "Pop (fifo src) = Some (ds, f)"
  shows "source_ok (HandleDeltas ds I) (src\<lparr>fifo := f\<rparr>)"
proof -
  have ok: "fifo_ok (fifo src)" using assms(1) by (simp add: source_ok_def)
  obtain k rest where k: "fifo_queue (fifo src) = k # rest"
    and f: "f = (fifo src)\<lparr>items := (items (fifo src))(k := None), fifo_queue := rest,
         initialPopulationCount := initialPopulationCount (fifo src) - 1\<rparr>"
    using Pop_cases [OF ok] assms(2) by auto
  have "populated (fifo src)" using assms(1) k by (auto simp: source_ok_def NewDeltaFIFO_def)
  then have "populated f" "initialPopulationCount f \<le> length (fifo_queue f)"
    using assms(1) k by (auto simp: source_ok_def f)
  then show ?thesis
    using assms(1) fifo_ok_Pop [OF ok assms(2)] view_popped [OF ok assms(2), of I]
    by (simp add: source_ok_def)
qed

lemma New_stays: "\<not> local_step New I"
proof
  assume "local_step New I"
  then show False
    by cases (simp_all add: New_def notify_def get_key_def take_key_eq NewNamedRateLimitingQueue_def
        NewNamed_def finish_key_def ready_key_def)
qed

lemma source_ok_worked: "source_ok I src \<Longrightarrow> local_step I I' \<Longrightarrow> source_ok I' src"
  using local_step_keeps [of I I'] New_stays [of I'] by (auto simp: source_ok_def)

definition sources_ok :: "'w cluster \<Rightarrow> bool" where
  "sources_ok S \<longleftrightarrow> length (sources S) = length (informers (sys S)) \<and>
     (\<forall>i < length (sources S). source_ok (informer_of i S) (sources S ! i))"

lemma sources_ok_with:
  assumes "sources_ok S" and "i < length (sources S)" and "source_ok (informer_of i S) src"
  shows "sources_ok (with_source i src S)"
  using assms by (simp add: sources_ok_def nth_list_update)

lemma sources_ok_internal:
  assumes "sources_ok S" and "internal K getenv yaml dc S evs (Returned u T)"
  shows "sources_ok T"
  using assms(2)
proof cases
  case (popped i ds f)
  then have "source_ok (HandleDeltas ds (informer_of i S)) ((sources S ! i)\<lparr>fifo := f\<rparr>)"
    using assms(1) source_ok_popped by (auto simp: sources_ok_def)
  then show ?thesis using assms(1) popped
    by (auto simp: sources_ok_def nth_list_update informer_of_def)
next
  case (worked x)
  then obtain y where y: "x = Returned u y" "T = S\<lparr>sys := y\<rparr>"
    by (cases x) (auto simp: in_cluster_def)
  obtain j I' where j: "j < length (informers (sys S))" "informers y = (informers (sys S))[j := I']"
    "local_step (informers (sys S) ! j) I'" using inner_local worked y by blast
  then show ?thesis using assms(1) source_ok_worked [OF _ j(3)]
    by (auto simp: sources_ok_def y nth_list_update informer_of_def)
qed

lemma serving_sources_ok:
  "serving K getenv yaml dc n evs x \<Longrightarrow> x = Returned () S \<Longrightarrow> sources_ok S"
proof (induction arbitrary: S rule: serving.induct)
  case (started w)
  then show ?case
    by (auto simp: sources_ok_def informer_of_def source_ok_def start_source_def NewDeltaFIFO_def fifo_ok_def
        view_def New_def)
next
  case (changed evs S0 w)
  then show ?case by (auto simp: sources_ok_def informer_of_def)
next
  case (relisted evs S0 i objs ks)
  have S0: "sources_ok S0" "i < length (sources S0)"
    using relisted serving_lengths [OF relisted.hyps(1) refl] by simp_all
  then have "source_ok (informer_of i S0) (sources S0 ! i)" by (simp add: sources_ok_def)
  from sources_ok_with [OF S0 source_ok_syncWith [OF this relisted.hyps(4,6)]] show ?case using relisted.prems by simp
next
  case (watched evs S0 i e)
  have S0: "sources_ok S0" "i < length (sources S0)"
    using watched serving_lengths [OF watched.hyps(1) refl] by simp_all
  then have "source_ok (informer_of i S0) (sources S0 ! i)" by (simp add: sources_ok_def)
  from sources_ok_with [OF S0 source_ok_watchHandler [OF this], of e] show ?case using watched.prems by simp
next
  case (watch_ended evs S0 i)
  have S0: "sources_ok S0" "i < length (sources S0)"
    using watch_ended serving_lengths [OF watch_ended.hyps(1) refl] by simp_all
  then have "source_ok (informer_of i S0) ((sources S0 ! i)\<lparr>listing := True\<rparr>)"
    by (simp add: sources_ok_def source_ok_def)
  from sources_ok_with [OF S0 this] show ?case using watch_ended.prems by simp
next
  case (proceeded evs S0 evs' x)
  then show ?case using sources_ok_internal by blast
qed


subsection \<open>Properties\<close>

text \<open>C20: The queue of deltas together with the informer's store is a map from keys to objects: adding,
  updating and deleting are updates of the map, handing the deltas of a key to the informer does
  not change it; and a list replaces it by the listed objects, with two exceptions: a listed object
  whose deletion is still queued is lost, and an object that is queued but neither listed nor
  known to the informer stays.\<close>

theorem fifo_refines_map:
  assumes "fifo_ok f" and "distinct (map MetaNamespaceKeyFunc objs)"
  shows "view known (fifo_Add obj f) = (view known f)(MetaNamespaceKeyFunc obj \<mapsto> obj) \<and>
    view known (fifo_Update obj f) = (view known f)(MetaNamespaceKeyFunc obj \<mapsto> obj) \<and>
    view known (fifo_Delete known obj f) = (view known f)(MetaNamespaceKeyFunc obj := None) \<and>
    (\<forall>ds f' I. Pop f = Some (ds, f') \<longrightarrow>
       view (indexer (HandleDeltas ds I)) f' = view (indexer I) f) \<and>
    view known (Replace known ks objs f) = (\<lambda>k.
      case listed objs k of
        Some obj \<Rightarrow> if willObjectBeDeletedLocked k f then None else Some obj
      | None \<Rightarrow> if k \<in> set ks then None else view known f k)"
  using view_popped [OF assms(1)] view_Replace [OF assms(2)]
  by (simp add: view_Add view_Update view_Delete fun_eq_iff)

text \<open>Both exceptions: a node that is listed again before its deletion was handled, and one that is
  gone before its addition was.\<close>

theorem fifo_refines_map_witness:
  "view (Map.empty(''n'' \<mapsto> node_object)) (Replace (Map.empty(''n'' \<mapsto> node_object)) [''n''] [node_object]
     (fifo_Delete (Map.empty(''n'' \<mapsto> node_object)) node_object NewDeltaFIFO)) ''n'' = None \<and>
   view Map.empty (Replace Map.empty [] [] (fifo_Add node_object NewDeltaFIFO)) ''n'' = Some node_object"
proof -
  have ok: "fifo_ok (fifo_Delete (Map.empty(''n'' \<mapsto> node_object)) node_object NewDeltaFIFO)"
    "fifo_ok (fifo_Add node_object NewDeltaFIFO)"
    by (intro fifo_ok_operations; simp add: fifo_ok_def NewDeltaFIFO_def)+
  have d: "distinct (map MetaNamespaceKeyFunc [node_object])" "distinct (map MetaNamespaceKeyFunc [])" by simp_all
  have "willObjectBeDeletedLocked ''n'' (fifo_Delete (Map.empty(''n'' \<mapsto> node_object)) node_object NewDeltaFIFO)"
    by (simp add: fifo_Delete_def will_queue node_object_facts)
  then show ?thesis
    using fifo_refines_map [OF ok(1) d(1), of "Map.empty(''n'' \<mapsto> node_object)" node_object "[''n'']"]
      fifo_refines_map [OF ok(2) d(2), of Map.empty node_object "[]"]
    by (simp add: listed_def node_object_facts view_Add)
qed

end
