(* ===== verification/Serving.thy ===== *)
theory Serving
  imports Reflector_Props
begin

section \<open>The process from the server's lists to the handlers\<close>

text \<open>
  Every run of the process with its reflectors refines the operator as a transition system of
  events; between two lists the process comes to rest, and then every object the server has
  reported was handled in its last state; and a deletion that is only noticed by a list ends the
  process.
\<close>

subsection \<open>Work that is left\<close>

definition fifo_left :: "delta_fifo \<Rightarrow> nat" where
  "fifo_left f = sum_list
     (map (\<lambda>k. case items f k of None \<Rightarrow> 1 | Some ds \<Rightarrow> Suc (4 * length ds)) (fifo_queue f))"

definition cluster_left :: "'w cluster \<Rightarrow> nat" where
  "cluster_left S = all_left (sys S) + sum_list (map (\<lambda>src. fifo_left (fifo src)) (sources S))"

lemma fifo_left_Pop:
  assumes "fifo_ok f" and "Pop f = Some (ds, f')"
  shows "fifo_left f = Suc (4 * length ds) + fifo_left f'"
proof -
  obtain k rest where k: "fifo_queue f = k # rest" "items f k = Some ds"
    and f': "f' = f\<lparr>items := (items f)(k := None), fifo_queue := rest,
         initialPopulationCount := initialPopulationCount f - 1\<rparr>"
    using Pop_cases [OF assms(1)] assms(2) by auto
  have "k \<notin> set rest" using assms(1) k(1) by (simp add: fifo_ok_def)
  then have same: "map (\<lambda>k. case items f' k of None \<Rightarrow> 1 | Some ds \<Rightarrow> Suc (4 * length ds)) rest =
      map (\<lambda>k. case items f k of None \<Rightarrow> 1 | Some ds \<Rightarrow> Suc (4 * length ds)) rest"
    by (auto simp: f')
  have "fifo_queue f' = rest" by (simp add: f')
  then show ?thesis unfolding fifo_left_def same [symmetric] k(1) by (simp add: k(2) same)
qed

lemma sum_list_replaced:
  "i < length xs \<Longrightarrow> sum_list (map g (xs[i := y])) + g (xs ! i) = sum_list (map g xs) + (g y :: nat)"
proof (induction xs arbitrary: i)
  case (Cons x xs)
  then show ?case by (cases i) auto
qed simp

text \<open>A step of the process itself, whatever it hands to \<open>Handle\<close>.\<close>

definition proceeds ::
    "'w api \<Rightarrow> (string \<Rightarrow> string) \<Rightarrow> (string \<Rightarrow> gmap \<times> error option) \<Rightarrow> decoders \<Rightarrow>
     'w cluster \<Rightarrow> ('w cluster, unit) outcome \<Rightarrow> bool"
where
  "proceeds K getenv yaml dc S x \<longleftrightarrow> (\<exists>evs. internal K getenv yaml dc S evs x)"

definition cluster_ok :: "'w cluster \<Rightarrow> bool" where
  "cluster_ok S \<longleftrightarrow> sources_ok S \<and> list_all queue_ok (informers (sys S))"

lemma in_cluster_Returned: "Returned u T = in_cluster S x \<longleftrightarrow> (\<exists>y. x = Returned u y \<and> T = S\<lparr>sys := y\<rparr>)"
  by (cases x) (auto simp: in_cluster_def)

lemma cluster_ok_internal:
  assumes "cluster_ok S" and "internal K getenv yaml dc S evs (Returned u T)"
  shows "cluster_ok T"
proof -
  have "list_all queue_ok (informers (sys T))"
    using assms(2)
  proof cases
    case (popped i ds f)
    then have "i < length (informers (sys S))" using assms(1) by (simp add: cluster_ok_def sources_ok_def)
    then have "queue_ok (HandleDeltas ds (informer_of i S))"
      using assms(1) by (simp add: cluster_ok_def queue_inv.on_deltas list_all_length informer_of_def)
    then show ?thesis using assms(1) popped by (auto simp: cluster_ok_def intro: list_all_update)
  next
    case (worked x)
    then show ?thesis using queue_inv.on_inner assms(1) by (auto simp: in_cluster_Returned cluster_ok_def)
  qed
  then show ?thesis using assms sources_ok_internal by (auto simp: cluster_ok_def)
qed

lemma internal_left:
  assumes "cluster_ok S" and "internal K getenv yaml dc S evs (Returned u T)"
  shows "cluster_left T < cluster_left S"
  using assms(2)
proof cases
  case (popped i ds f)
  have p: "i < length (sources S)" "Pop (fifo (sources S ! i)) = Some (ds, f)" using popped by simp_all
  have i: "i < length (informers (sys S))" "fifo_ok (fifo (sources S ! i))"
    using assms(1) popped by (simp_all add: cluster_ok_def sources_ok_def source_ok_def)
  have "all_left (sys T) + left (informer_of i S) =
      all_left (sys S) + (left (informer_of i S) + 4 * length ds)"
    using sum_list_replaced [OF i(1), of left] popped
    by (simp add: all_left_def informer_of_def left_HandleDeltas)
  moreover have "sum_list (map (\<lambda>src. fifo_left (fifo src)) (sources T)) + fifo_left (fifo (sources S ! i)) =
      sum_list (map (\<lambda>src. fifo_left (fifo src)) (sources S)) + fifo_left f"
    using sum_list_replaced [OF p(1), of "\<lambda>src. fifo_left (fifo src)"] popped by simp
  ultimately show ?thesis using fifo_left_Pop [OF i(2) p(2)] by (simp add: cluster_left_def)
next
  case (worked x)
  then obtain y where y: "x = Returned u y" "T = S\<lparr>sys := y\<rparr>" by (auto simp: in_cluster_Returned)
  then have "all_left y < all_left (sys S)"
    using worked assms(1) inner_left by (auto simp: cluster_ok_def)
  then show ?thesis by (simp add: cluster_left_def y)
qed

interpretation proceeds_draining: draining "proceeds K getenv yaml dc" cluster_ok cluster_left
  for K :: "'w api" and getenv yaml dc
  by unfold_locales (auto simp: proceeds_def intro: cluster_ok_internal internal_left)

subsection \<open>Coming to rest\<close>

text \<open>A step of the informers is a step of one that is not at rest.\<close>

lemma inner_where:
  assumes "inner K getenv yaml dc S evs x" and "list_all queue_ok (informers S)"
  shows "\<exists>i I. i < length (informers S) \<and> informers (final_state x) = (informers S)[i := I] \<and>
    \<not> quiescent (informers S ! i)"
proof -
  have ok: "queue_ok (informers S ! i)" if "i < length (informers S)" for i
    using assms(2) that by (simp add: list_all_length)
  from assms(1) show ?thesis
  proof cases
    case (notified i m)
    then show ?thesis using quiescent_iff [OF ok] by (cases m) (auto intro!: exI [of _ i])
  next
    case (taken i I)
    then show ?thesis using quiescent_iff [OF ok] by (auto intro!: exI [of _ i])
  next
    case (synced i key \<rho> m)
    then show ?thesis by (cases m) (auto simp: quiescent_def intro!: exI [of _ i])
  next
    case (finished i bucket I)
    then show ?thesis by (auto simp: quiescent_def finish_key_def intro!: exI [of _ i])
  next
    case (readied i key I)
    then show ?thesis using ok [of i] by (auto simp: ready_key_def queue_ok_def)
  qed
qed

definition at_rest :: "'w cluster \<Rightarrow> bool" where
  "at_rest S \<longleftrightarrow> list_all (\<lambda>src. fifo_queue (fifo src) = []) (sources S) \<and>
     list_all quiescent (informers (sys S))"

lemma New_quiescent: "quiescent New"
  by (simp add: quiescent_def New_def NewNamedRateLimitingQueue_def NewNamed_def)

lemma synced_when_empty:
  assumes "cluster_ok S" and "i < length (sources S)" and "fifo_queue (fifo (sources S ! i)) = []"
    and "\<not> quiescent (informer_of i S)"
  shows "HasSynced (fifo (sources S ! i))"
  using assms New_quiescent by (auto simp: cluster_ok_def sources_ok_def source_ok_def HasSynced_def)

lemma proceeds_unless_at_rest:
  assumes "cluster_ok S" and "\<not> at_rest S"
  shows "\<exists>x. proceeds K getenv yaml dc S x"
proof (cases "list_all (\<lambda>src. fifo_queue (fifo src) = []) (sources S)")
  case False
  then obtain i where i: "i < length (sources S)" "fifo_queue (fifo (sources S ! i)) \<noteq> []"
    by (auto simp: list_all_length)
  then have "fifo_ok (fifo (sources S ! i))" using assms(1) by (simp add: cluster_ok_def sources_ok_def source_ok_def)
  with i Pop_cases [of "fifo (sources S ! i)"] obtain ds f where "Pop (fifo (sources S ! i)) = Some (ds, f)"
    by auto
  with i show ?thesis using internal.popped unfolding proceeds_def by blast
next
  case True
  have ok: "list_all queue_ok (informers (sys S))" "length (sources S) = length (informers (sys S))"
    using assms(1) by (simp_all add: cluster_ok_def sources_ok_def)
  have "\<not> list_all quiescent (informers (sys S))" using assms(2) True by (simp add: at_rest_def)
  then obtain evs x where x: "inner K getenv yaml dc (sys S) evs x"
    using stuck_iff_quiescent [OF ok(1), of K getenv yaml dc] by blast
  obtain i I where i: "i < length (informers (sys S))" "informers (final_state x) = (informers (sys S))[i := I]"
    "\<not> quiescent (informers (sys S) ! i)" using inner_where [OF x ok(1)] by blast
  have "synced_first S x"
    unfolding synced_first_def
  proof (intro allI impI)
    fix j assume j: "j < length (sources S)" "worker (informer_of j S) = Idle"
      "worker (informers (final_state x) ! j) \<noteq> Idle"
    then have "j = i" using i(2) by (cases "j = i") (auto simp: informer_of_def)
    then show "HasSynced (fifo (sources S ! j))"
      using synced_when_empty [OF assms(1) j(1)] True j(1) i(3) by (simp add: list_all_length informer_of_def)
  qed
  with x show ?thesis using internal.worked unfolding proceeds_def by blast
qed

lemma at_rest_stops:
  assumes "cluster_ok S" and "at_rest S"
  shows "\<not> proceeds K getenv yaml dc S x"
proof
  assume "proceeds K getenv yaml dc S x"
  then obtain evs where "internal K getenv yaml dc S evs x" by (auto simp: proceeds_def)
  then show False
  proof cases
    case (popped i ds f)
    then show False using assms Pop_cases [of "fifo (sources S ! i)"]
      by (auto simp: at_rest_def list_all_length cluster_ok_def sources_ok_def source_ok_def)
  next
    case (worked y)
    then show False using assms quiescent_stops [of "sys S" K getenv yaml dc evs y]
      by (simp add: at_rest_def cluster_ok_def)
  qed
qed


subsection \<open>Markers of deletions that were missed\<close>

definition missed_delta :: "delta \<Rightarrow> bool" where
  "missed_delta d \<longleftrightarrow> (\<exists>k obj. d = Deleted (DeletedFinalStateUnknown k obj))"

definition marked :: "nat \<Rightarrow> 'w cluster \<Rightarrow> bool" where
  "marked i S \<longleftrightarrow> i < length (sources S) \<and>
     ((\<exists>d. missed_delta d \<and> queued d (fifo (sources S ! i))) \<or> missed i (sys S))"

lemma missed_handled:
  "missed_delta d \<Longrightarrow> d \<in> set ds \<Longrightarrow> list_ex missed_deletion (notifications (HandleDeltas ds I))"
  using notifications_HandleDeltas [of I ds] by (auto simp: missed_delta_def missed_deletion_def list_ex_iff)

lemma marked_popped:
  assumes "cluster_ok S" and "marked i S" and "j < length (sources S)"
    and "Pop (fifo (sources S ! j)) = Some (ds, f)"
  shows "marked i (popped_into j ds f S)"
proof -
  have len: "length (sources S) = length (informers (sys S))"
    using assms(1) by (simp add: cluster_ok_def sources_ok_def)
  have stays: "missed i (sys S) \<Longrightarrow> marked i (popped_into j ds f S)"
    using notifications_HandleDeltas [of "informer_of j S" ds] assms(2,3) len
    by (cases "i = j") (auto simp: marked_def missed_def informer_of_def list_ex_iff)
  show ?thesis
  proof (cases "missed i (sys S)")
    case False
    then obtain d where d: "missed_delta d" "queued d (fifo (sources S ! i))" and i: "i < length (sources S)"
      using assms(2) by (auto simp: marked_def)
    show ?thesis
    proof (cases "i = j")
      case True
      have "fifo_ok (fifo (sources S ! j))" using assms(1,3) by (simp add: cluster_ok_def sources_ok_def source_ok_def)
      then obtain k where k: "items (fifo (sources S ! j)) k = Some ds"
        "items f = (items (fifo (sources S ! j)))(k := None)"
        using Pop_cases [of "fifo (sources S ! j)"] assms(4) by auto
      show ?thesis
      proof (cases "KeyOf d = k")
        case True
        then have "d \<in> set ds" using d(2) k(1) \<open>i = j\<close> by (simp add: queued_def)
        from missed_handled [OF d(1) this] show ?thesis
          using \<open>i = j\<close> assms(3) len by (auto simp: marked_def missed_def)
      next
        case False
        then have "queued d f" using d(2) k \<open>i = j\<close> by (simp add: queued_def)
        then show ?thesis using \<open>i = j\<close> assms(3) d(1) by (auto simp: marked_def)
      qed
    next
      case False
      then show ?thesis using d i by (auto simp: marked_def)
    qed
  qed (rule stays)
qed

lemma marked_worked:
  assumes "cluster_ok S" and "marked i S" and "inner K getenv yaml dc (sys S) evs (Returned u T)"
  shows "marked i (S\<lparr>sys := T\<rparr>)"
  using assms own_missed.busy_stays [of "sys S" i K getenv yaml dc u T]
  by (auto simp: marked_def cluster_ok_def own_def)

interpretation proceeds_marked: stubborn "proceeds K getenv yaml dc" cluster_ok cluster_left "marked i"
  for K :: "'w api" and getenv yaml dc i
proof unfold_locales
  fix S T :: "'w cluster" and u
  assume ok: "cluster_ok S" and m: "marked i S"
  show "proceeds K getenv yaml dc S (Returned u T) \<Longrightarrow> marked i T"
    using marked_popped [OF ok m] marked_worked [OF ok m]
    by (auto simp: proceeds_def in_cluster_Returned elim!: internal.cases)
  have "\<not> at_rest S"
  proof
    assume rest: "at_rest S"
    then have "fifo_queue (fifo (sources S ! i)) = []" "i < length (sources S)"
      using m by (auto simp: at_rest_def list_all_length marked_def)
    moreover have "fifo_ok (fifo (sources S ! i))" using ok m
      by (simp add: cluster_ok_def sources_ok_def source_ok_def marked_def)
    ultimately have "\<not> queued d (fifo (sources S ! i))" for d by (auto simp: queued_def fifo_ok_def)
    then have "missed i (sys S)" using m by (simp add: marked_def)
    with rest show False by (auto simp: missed_def at_rest_def list_all_length quiescent_def)
  qed
  with proceeds_unless_at_rest [OF ok] show "\<exists>x. proceeds K getenv yaml dc S x" .
qed

lemma empty_queue: "fifo_ok f \<Longrightarrow> fifo_queue f = [] \<Longrightarrow> items f = Map.empty"
  by (simp add: fifo_ok_def flip: dom_eq_empty_conv)

lemma serving_cluster_ok:
  assumes "serving K getenv yaml dc n evs (Returned () S)"
  shows "cluster_ok S \<and> length (sources S) = n \<and> length (informers (sys S)) = n"
  using serving_sources_ok [OF assms refl] serving_running [OF assms] serving_lengths [OF assms refl]
    queue_inv.on_running [of K getenv yaml dc n evs _ "sys S"] by (auto simp: cluster_ok_def)

lemma queued_marks:
  "i < length (sources S) \<Longrightarrow> missed_delta d \<Longrightarrow> queued d (fifo src) \<Longrightarrow> marked i (with_source i src S)"
  by (auto simp: marked_def)

subsection \<open>Properties\<close>

text \<open>C11: In any run of the process with the client it is built with, whatever the server reports and
  answers, every job that is created is built from the first method of a loaded configuration, as it
  was decoded but for the elements of commands that answers were decoded into (\<open>good\<close>), every update
  carries its history and no write is tried twice after a sleep. The cache is what the ConfigMap
  events that were handled make of it, when the server gives back what it is sent (\<open>echoes\<close>), and
  otherwise up to the names and elements of commands that answers were decoded into.\<close>

theorem serving_runs_good:
  assumes "serving (sdk_api D base) getenv yaml dc n evs x" and "yaml_ok yaml"
  shows "list_all (good (sdk_api D base) yaml) (calls (op (sys (final_state x)))) \<and>
    (if echoes (sdk_api D base)
     then map_of (fencingConfigs (op (sys (final_state x)))) = fold (table_step yaml) evs Map.empty
     else table_outline (map_of (fencingConfigs (op (sys (final_state x))))) =
       table_outline (fold (table_step yaml) evs Map.empty))"
proof -
  have "final_state (system_of x) = sys (final_state x)" by (cases x) simp_all
  with running_reach [OF serving_running [OF assms(1)]] obtain y
    where y: "reach (sdk_api D base) getenv yaml evs y" "final_state y = op (sys (final_state x))" by auto
  show ?thesis
    using reach_good [OF y(1) wire_sdk assms(2)] reach_table [OF y(1) assms(2)] by (simp add: y(2))
qed

text \<open>C9: When the process has come to rest, \<open>Handle\<close> was last called for every object the server
  has reported with the object as it was last reported, and for every other object that was ever
  seen with its deletion; unless a list came while the queue could not take it in correctly.\<close>

theorem handled_is_reported:
  assumes "serving K getenv yaml dc n evs (Returned () S)" and "i < n" and "at_rest S"
    and "\<not> overlapped (sources S ! i)"
  shows "case reported (sources S ! i) k of
      Some obj \<Rightarrow> last_delivered (informer_of i S) k = Some (True, obj)
    | None \<Rightarrow> k \<in> touched (informer_of i S) \<longrightarrow>
        (\<exists>obj. last_delivered (informer_of i S) k = Some (False, obj))"
proof -
  let ?I = "informer_of i S" and ?src = "sources S ! i"
  have S: "cluster_ok S" "length (sources S) = n" "length (informers (sys S)) = n"
    using serving_cluster_ok [OF assms(1)] by blast+
  have src: "source_ok ?I ?src" "fifo_queue (fifo ?src) = []" "quiescent ?I"
    using S assms(2,3) by (auto simp: cluster_ok_def sources_ok_def at_rest_def list_all_length informer_of_def)
  then have "items (fifo ?src) = Map.empty" using empty_queue by (simp add: source_ok_def)
  then have "reported ?src k = indexer ?I k"
    using src(1) assms(4) by (simp add: source_ok_def view_def fun_eq_iff)
  moreover have "view_ok ?I" "dom (indexer ?I) \<subseteq> touched ?I"
    using running_sound [of K getenv yaml dc n evs "sys S"] serving_running [OF assms(1)] S(3) assms(2)
    by (auto simp: sound_def list_all_length informer_of_def)
  ultimately have "reported ?src k = indexer ?I k" "k \<in> touched ?I \<Longrightarrow> up_to_date ?I k"
      "indexer ?I k \<noteq> None \<Longrightarrow> k \<in> touched ?I"
    using quiescent_up_to_date [OF _ src(3), of k] by (simp, simp, blast)
  then show ?thesis by (cases "indexer ?I k") (simp_all add: up_to_date_def seen_gone_def)
qed

text \<open>C21: Without lists and watch events the process takes only finitely many steps, at most as many as
  there is work left, and it stops exactly when no delta, no notification, no key and no worker has
  anything left to do.\<close>

theorem serving_drains:
  assumes "serving K getenv yaml dc n evs (Returned () S)"
  shows "(\<forall>m T. nsteps (proceeds K getenv yaml dc) m S T \<longrightarrow> m + cluster_left T \<le> cluster_left S) \<and>
    ((\<nexists>x. proceeds K getenv yaml dc S x) \<longleftrightarrow> at_rest S)"
proof -
  have "cluster_ok S" using serving_cluster_ok [OF assms] by blast
  then show ?thesis
    using proceeds_draining.nsteps_work proceeds_unless_at_rest at_rest_stops by blast
qed

text \<open>C10: A deletion that the watch missed crashes the operator: if a list does not contain an object
  that the informer has and expects to be there, then after the list the process takes only
  finitely many steps, and however it goes on, a panic stays ahead of it.\<close>

theorem missed_deletion_ends_process:
  assumes "serving K getenv yaml dc n evs (Returned () S)" and "i < n" and "listing (sources S ! i)"
    and "distinct (map MetaNamespaceKeyFunc objs)" and "distinct ks"
    and "set ks = dom (indexer (informer_of i S))" and "k \<in> set ks" and "listed objs k = None"
    and "view (indexer (informer_of i S)) (fifo (sources S ! i)) k \<noteq> None"
    and "S' = with_source i (syncWith (indexer (informer_of i S)) ks objs (sources S ! i)) S"
    and "nsteps (proceeds K getenv yaml dc) m S' T"
  shows "m + cluster_left T \<le> cluster_left S' \<and> (\<exists>j T' p U.
    nsteps (proceeds K getenv yaml dc) j T T' \<and> proceeds K getenv yaml dc T' (Panicked p U))"
proof -
  have S: "cluster_ok S" "length (sources S) = n" using serving_cluster_ok [OF assms(1)] by blast+
  have "cluster_ok S'"
    unfolding assms(10) using serving_cluster_ok [OF serving.relisted [OF assms(1-6)]] by blast
  have "fifo_ok (fifo (sources S ! i))"
    using S assms(2) by (simp add: cluster_ok_def sources_ok_def source_ok_def)
  moreover have "\<not> willObjectBeDeletedLocked k (fifo (sources S ! i))"
    using view_deleted [of k "fifo (sources S ! i)" "indexer (informer_of i S)"] assms(9) by fastforce
  ultimately have "queued (unknown_state (indexer (informer_of i S)) k)
      (Replace (indexer (informer_of i S)) ks objs (fifo (sources S ! i)))"
    by (rule Replace_marks [OF _ assms(5,7,8)])
  then have "queued (unknown_state (indexer (informer_of i S)) k)
      (fifo (syncWith (indexer (informer_of i S)) ks objs (sources S ! i)))" by (simp add: syncWith_def)
  moreover have "missed_delta (unknown_state (indexer (informer_of i S)) k)"
    by (simp add: missed_delta_def unknown_state_def)
  ultimately have "marked i S'" unfolding assms(10) using queued_marks S(2) assms(2) by blast
  from proceeds_marked.panic_ahead [OF \<open>cluster_ok S'\<close> this assms(11)] show ?thesis .
qed

subsection \<open>A run\<close>

text \<open>
  One informer: the first list has a lost node, which is handled; then the watch ends, and the
  next list is empty.
\<close>

definition sample_source :: "delta_fifo \<Rightarrow> bool \<Rightarrow> source" where
  "sample_source f l = \<lparr>fifo = f, listing = l, reported = Map.empty(''n'' \<mapsto> node_object), overlapped = False\<rparr>"

definition sample_fifo :: delta_fifo where
  "sample_fifo = \<lparr>items = Map.empty(''n'' \<mapsto> [Sync node_object]), fifo_queue = [''n''], populated = True,
     initialPopulationCount = 1\<rparr>"

definition drained_fifo :: delta_fifo where
  "drained_fifo = \<lparr>items = Map.empty, fifo_queue = [], populated = True, initialPopulationCount = 0\<rparr>"

definition sample_cluster :: "'w opstate \<Rightarrow> informer \<Rightarrow> source \<Rightarrow> 'w cluster" where
  "sample_cluster s I src = \<lparr>sys = sample_system s I, sources = [src]\<rparr>"

lemma sample_cluster_facts [simp]:
  "sys (sample_cluster s I src) = sample_system s I" "sources (sample_cluster s I src) = [src]"
  "informer_of 0 (sample_cluster s I src) = I"
  "with_source 0 src' (sample_cluster s I src) = sample_cluster s I src'"
  "(sample_cluster s I src)\<lparr>sys := sample_system t J\<rparr> = sample_cluster t J src"
  by (simp_all add: sample_cluster_def informer_of_def with_source_def)

abbreviation sample_serving :: "(event_object \<times> bool) list \<Rightarrow> (unit cluster, unit) outcome \<Rightarrow> bool" where
  "sample_serving \<equiv> serving empty_api (\<lambda>v. ''ns'') sample_yaml sample_decoders 1"

lemma sample_listed:
  "sample_serving [] (Returned () (sample_cluster start_state New (sample_source sample_fifo False)))"
proof -
  have s: "sample_serving [] (Returned () (sample_cluster start_state New start_source))"
    using serving.started [of empty_api "\<lambda>v. ''ns''" sample_yaml sample_decoders 1 "()"]
    by (simp add: sample_cluster_def sample_system_def)
  have "syncWith (indexer New) [] [node_object] start_source = sample_source sample_fifo False"
    by (simp add: syncWith_def start_source_def sample_source_def sample_fifo_def Replace_def Let_def
        NewDeltaFIFO_def queueActionLocked_def willObjectBeDeletedLocked_def dedupDeltas_def listed_def
        node_object_facts overlap_def)
  with serving.relisted [OF s, of 0 "[node_object]" "[]"] show ?thesis
    by (simp add: start_source_def) (simp add: New_def)
qed

lemma sample_popped:
  "sample_serving [] (Returned () (sample_cluster start_state
     (stage [AddNotification node_object] NewNamed Idle []) (sample_source drained_fifo False)))"
proof -
  have "Pop sample_fifo = Some ([Sync node_object], drained_fifo)"
    by (simp add: Pop_def sample_fifo_def drained_fifo_def)
  then have "internal empty_api (\<lambda>v. ''ns'') sample_yaml sample_decoders
      (sample_cluster start_state New (sample_source sample_fifo False)) [] (Returned ()
        (popped_into 0 [Sync node_object] drained_fifo
          (sample_cluster start_state New (sample_source sample_fifo False))))"
    by (intro internal.popped) (simp_all add: sample_source_def)
  moreover have "HandleDeltas [Sync node_object] New = stage [AddNotification node_object] NewNamed Idle []"
    using stage_steps(1) by (simp add: HandleDeltas_def)
  ultimately show ?thesis
    using serving.proceeded [OF sample_listed] by (simp add: popped_into_def sample_source_def)
qed

lemma sample_cluster_step:
  assumes "sample_serving evs (Returned () (sample_cluster s I (sample_source drained_fifo l)))"
    and "sample_inner (sample_system s I) evs' (Returned () (sample_system t J))"
  shows "sample_serving (evs @ evs') (Returned () (sample_cluster t J (sample_source drained_fifo l)))"
proof -
  let ?S = "sample_cluster s I (sample_source drained_fifo l)"
  have "synced_first ?S (Returned () (sample_system t J))"
    by (simp add: synced_first_def sample_source_def drained_fifo_def HasSynced_def)
  then have "internal empty_api (\<lambda>v. ''ns'') sample_yaml sample_decoders ?S evs'
      (in_cluster ?S (Returned () (sample_system t J)))"
    using assms(2) by (intro internal.worked) simp_all
  from serving.proceeded [OF assms(1) this] show ?thesis by (simp add: in_cluster_def)
qed

lemma sample_handled:
  "\<exists>t. sample_serving [(ENode (lost_node ''Unknown''), False)] (Returned () (sample_cluster t
     (stage [] NewNamed Idle [(''n'', True, node_object)]) (sample_source drained_fifo False)))"
proof -
  obtain t where t: "sample_inner (sample_system start_state (stage [] holding (Holding ''n'') []))
     [(ENode (lost_node ''Unknown''), False)]
     (Returned () (sample_system t (stage [] holding (Synced ''n'' False None) [(''n'', True, node_object)])))"
    using sample_synced by blast
  note sample_cluster_step [OF sample_popped inner_notified [OF stage_steps(2)]]
  note sample_cluster_step [OF this inner_taken [OF stage_steps(3)]]
  note sample_cluster_step [OF this t]
  from sample_cluster_step [OF this inner_finished [OF stage_steps(5)]] show ?thesis by auto
qed

theorem serving_runs_good_witness:
  "\<exists>S. sample_serving [(ENode (lost_node ''Unknown''), False)] (Returned () S) \<and>
     list_all (good empty_api sample_yaml) (calls (op (sys S))) \<and>
     map_of (fencingConfigs (op (sys S))) = Map.empty"
proof -
  obtain S where S: "serving (sdk_api empty_sdk quiet) (\<lambda>v. ''ns'') sample_yaml sample_decoders 1
      [(ENode (lost_node ''Unknown''), False)] (Returned () S)"
    using sample_handled unfolding empty_api_def by blast
  from serving_runs_good [OF S yaml_ok_sample] S show ?thesis
    using echoes_empty unfolding empty_api_def by auto
qed

theorem handled_is_reported_witness:
  "\<exists>S. sample_serving [(ENode (lost_node ''Unknown''), False)] (Returned () S) \<and> at_rest S \<and>
     last_delivered (informer_of 0 S) ''n'' = Some (True, node_object)"
proof -
  obtain t where S: "sample_serving [(ENode (lost_node ''Unknown''), False)] (Returned () (sample_cluster t
     (stage [] NewNamed Idle [(''n'', True, node_object)]) (sample_source drained_fifo False)))"
      (is "sample_serving _ (Returned () ?S)")
    using sample_handled by blast
  have rest: "at_rest ?S"
    by (simp add: at_rest_def sample_source_def drained_fifo_def quiescent_def stage_def NewNamed_def)
  have "\<not> overlapped (sources ?S ! 0)" "reported (sources ?S ! 0) ''n'' = Some node_object"
    by (simp_all add: sample_source_def)
  with handled_is_reported [OF S _ rest, of 0 "''n''"] S rest show ?thesis by auto
qed

theorem serving_drains_witness:
  "\<exists>S. sample_serving [] (Returned () S) \<and> cluster_left S = 5 \<and>
     (\<exists>x. proceeds empty_api (\<lambda>v. ''ns'') sample_yaml sample_decoders S x)"
proof -
  let ?S = "sample_cluster start_state New (sample_source sample_fifo False)"
  have "\<not> at_rest ?S" by (simp add: at_rest_def sample_source_def sample_fifo_def)
  moreover have "cluster_left ?S = 5"
    by (simp add: cluster_left_def all_left_def left_def sample_source_def fifo_left_def sample_fifo_def
        New_def NewNamedRateLimitingQueue_def NewNamed_def)
  ultimately show ?thesis using serving_drains [OF sample_listed] sample_listed by blast
qed

theorem missed_deletion_ends_process_witness:
  "\<exists>S S' j T' p U. sample_serving [] (Returned () S) \<and>
     S' = with_source 0 (syncWith (indexer (informer_of 0 S)) [''n''] [] (sources S ! 0)) S \<and>
     nsteps (proceeds empty_api (\<lambda>v. ''ns'') sample_yaml sample_decoders) j S' T' \<and>
     proceeds empty_api (\<lambda>v. ''ns'') sample_yaml sample_decoders T' (Panicked p U)"
proof -
  let ?I = "stage [AddNotification node_object] NewNamed Idle []"
  let ?S = "sample_cluster start_state ?I (sample_source drained_fifo True)"
  have S: "sample_serving [] (Returned () ?S)"
    using serving.watch_ended [OF sample_popped, of 0] by (simp add: sample_source_def)
  have l: "listing (sources ?S ! 0)" and d: "set [''n''] = dom (indexer (informer_of 0 ?S))"
    and v: "view (indexer (informer_of 0 ?S)) (fifo (sources ?S ! 0)) ''n'' \<noteq> None"
    by (simp_all add: sample_source_def stage_def view_def drained_fifo_def)
  have c: "(0::nat) < 1" "distinct (map MetaNamespaceKeyFunc [])" "distinct [''n'']" "''n'' \<in> set [''n'']"
    "listed [] ''n'' = None" by (simp_all add: listed_def)
  show ?thesis
    using missed_deletion_ends_process [OF S c(1) l c(2,3) d c(4,5) v refl nsteps.none] S by blast
qed

end
