(* ===== verification/Election.thy ===== *)
theory Election
  imports Bootstrap "HOL-Library.Signed_Division"
begin

section \<open>Leader election (vendored client-go: tools/leaderelection)\<close>

text \<open>
  \<open>SingletonWith\<close> hands its configuration to \<open>RunOrDie\<close>, which campaigns for a lock kept in the
  annotation of an \<open>Endpoints\<close> object and, once it has it, renews it. First one attempt
  (\<open>tryAcquireOrRenew\<close>) over any lock (\<open>resourcelock.Interface\<close>) and the lock the operator uses
  (\<open>EndpointsLock\<close>) over any client; then the election: the candidates' processes, their loops
  \<open>acquire\<close> and \<open>renew\<close>, and the server that keeps the object, as a transition system in real time.
\<close>

subsection \<open>Times (Go's time.Time and metav1.Time)\<close>

text \<open>
  A time reads the wall clock in nanoseconds since year 1 and, when it comes from \<open>time.Now\<close>, the
  monotonic clock of the machine too, which \<open>After\<close> prefers and JSON does not carry. JSON has a
  precision of a second, and the zero time is \<open>null\<close>.
\<close>

record Time =
  wall :: int
  mono :: "int option"

definition zero_time :: Time where
  "zero_time = \<lparr>wall = 0, mono = None\<rparr>"

definition time_Add :: "Time \<Rightarrow> int \<Rightarrow> Time" where
  "time_Add t d = t\<lparr>wall := wall t + d, mono := map_option (\<lambda>m. m + d) (mono t)\<rparr>"

definition time_After :: "Time \<Rightarrow> Time \<Rightarrow> bool" where
  "time_After t u =
     (case (mono t, mono u) of
        (Some m, Some n) \<Rightarrow> n < m
      | _ \<Rightarrow> wall u < wall t)"

definition wire_time :: "Time \<Rightarrow> Time" where
  "wire_time t =
     (if wall t = 0 then zero_time else \<lparr>wall = wall t div second * second, mono = None\<rparr>)"

lemma wire_time_mono [simp]: "mono (wire_time t) = None"
  by (simp add: wire_time_def zero_time_def)

lemma second_pos: "0 < second"
  by (simp add: second_def)

lemma wire_time_le: "wall (wire_time t) \<le> wall t"
  and wire_time_gt: "wall t - second < wall (wire_time t)"
proof -
  have "wall t div second * second \<le> wall t \<and> wall t < wall t div second * second + second"
    using second_pos div_mult_mod_eq [of "wall t" second]
      pos_mod_sign [of second "wall t"] pos_mod_bound [of second "wall t"] by linarith
  then show "wall (wire_time t) \<le> wall t" and "wall t - second < wall (wire_time t)"
    using second_pos by (auto simp: wire_time_def zero_time_def)
qed

lemma wire_time_wire_time: "wire_time (wire_time t) = wire_time t"
  using second_pos by (simp add: wire_time_def zero_time_def)

subsection \<open>The record and its lock (resourcelock)\<close>

record LeaderElectionRecord =
  HolderIdentity :: string
  LeaseDurationSeconds :: "64 word"
  AcquireTime :: Time
  RenewTime :: Time
  LeaderTransitions :: "64 word"

definition zero_record :: LeaderElectionRecord where
  "zero_record = \<lparr>HolderIdentity = [], LeaseDurationSeconds = 0, AcquireTime = zero_time,
     RenewTime = zero_time, LeaderTransitions = 0\<rparr>"

text \<open>A record as it is read back after \<open>json.Marshal\<close> has written it.\<close>

definition wire_record :: "LeaderElectionRecord \<Rightarrow> LeaderElectionRecord" where
  "wire_record r = r\<lparr>AcquireTime := wire_time (AcquireTime r), RenewTime := wire_time (RenewTime r)\<rparr>"

lemma wire_record_sel [simp]:
  "HolderIdentity (wire_record r) = HolderIdentity r"
  "LeaseDurationSeconds (wire_record r) = LeaseDurationSeconds r"
  "AcquireTime (wire_record r) = wire_time (AcquireTime r)"
  "RenewTime (wire_record r) = wire_time (RenewTime r)"
  "LeaderTransitions (wire_record r) = LeaderTransitions r"
  by (simp_all add: wire_record_def)

text \<open>The annotation \<open>LeaderElectionRecordAnnotationKey\<close> of an \<open>Endpoints\<close> object: there may be none,
  or one that is no record.\<close>

datatype annotation = Absent | Garbled string | Holds LeaderElectionRecord

record Endpoints =
  ep_Version :: nat
  ep_annotation :: annotation

definition new_endpoints :: Endpoints where
  "new_endpoints = \<lparr>ep_Version = 0, ep_annotation = Absent\<rparr>"

text \<open>\<open>EndpointsLock.Get\<close> after the request.\<close>

definition unmarshal_record :: "Endpoints \<Rightarrow> error + LeaderElectionRecord" where
  "unmarshal_record e =
     (case ep_annotation e of
        Absent \<Rightarrow> Inr zero_record
      | Garbled m \<Rightarrow> Inl (Errorf m)
      | Holds r \<Rightarrow> Inr r)"

text \<open>\<open>resourcelock.New\<close>: the object a lock is kept in, by its type, namespace and name.\<close>

datatype lock_object = EndpointsMeta string string | ConfigMapMeta string string

definition resourcelock_New :: "string \<Rightarrow> string \<Rightarrow> string \<Rightarrow> error + lock_object" where
  "resourcelock_New lockType ns name =
     (if lockType = ''endpoints'' then Inr (EndpointsMeta ns name)
      else if lockType = ''configmaps'' then Inr (ConfigMapMeta ns name)
      else Inl (Errorf (''Invalid lock-type '' @ lockType)))"

text \<open>The client for \<open>Endpoints\<close>, of any world, and the lock over it with its field \<open>e\<close>, the object
  last seen. Marshalling a record does not fail.\<close>

record 'w endpoints_client =
  endpoints_Get :: "'w \<Rightarrow> (Endpoints \<times> error option) \<times> 'w"
  endpoints_Create :: "annotation \<Rightarrow> 'w \<Rightarrow> (Endpoints \<times> error option) \<times> 'w"
  endpoints_Update :: "Endpoints \<Rightarrow> 'w \<Rightarrow> (Endpoints \<times> error option) \<times> 'w"
  time_Now :: "'w \<Rightarrow> Time"

definition EndpointsLock_Get ::
    "'w endpoints_client \<Rightarrow> Endpoints option \<times> 'w \<Rightarrow>
     (error + LeaderElectionRecord) \<times> Endpoints option \<times> 'w" where
  "EndpointsLock_Get C st =
     (let ((e, err), w) = endpoints_Get C (snd st)
      in (case err of Some x \<Rightarrow> Inl x | None \<Rightarrow> unmarshal_record e, Some e, w))"

definition EndpointsLock_Create ::
    "'w endpoints_client \<Rightarrow> LeaderElectionRecord \<Rightarrow> Endpoints option \<times> 'w \<Rightarrow>
     error option \<times> Endpoints option \<times> 'w" where
  "EndpointsLock_Create C ler st =
     (let ((e, err), w) = endpoints_Create C (Holds (wire_record ler)) (snd st)
      in (err, Some e, w))"

definition EndpointsLock_Update ::
    "'w endpoints_client \<Rightarrow> LeaderElectionRecord \<Rightarrow> Endpoints option \<times> 'w \<Rightarrow>
     error option \<times> Endpoints option \<times> 'w" where
  "EndpointsLock_Update C ler st =
     (case fst st of
        None \<Rightarrow> (Some (Errorf ''endpoint not initialized, call get or create first''), st)
      | Some e0 \<Rightarrow>
          (let ((e, err), w) =
                 endpoints_Update C (e0\<lparr>ep_annotation := Holds (wire_record ler)\<rparr>) (snd st)
           in (err, Some e, w)))"

text \<open>\<open>resourcelock.Interface\<close>, as far as an attempt uses it, with the clock of the machine.\<close>

record 's resource_lock =
  lock_Get :: "'s \<Rightarrow> (error + LeaderElectionRecord) \<times> 's"
  lock_Create :: "LeaderElectionRecord \<Rightarrow> 's \<Rightarrow> error option \<times> 's"
  lock_Update :: "LeaderElectionRecord \<Rightarrow> 's \<Rightarrow> error option \<times> 's"
  lock_clock :: "'s \<Rightarrow> Time"

definition EndpointsLock :: "'w endpoints_client \<Rightarrow> (Endpoints option \<times> 'w) resource_lock" where
  "EndpointsLock C =
     \<lparr>lock_Get = EndpointsLock_Get C, lock_Create = EndpointsLock_Create C,
      lock_Update = EndpointsLock_Update C, lock_clock = \<lambda>st. time_Now C (snd st)\<rparr>"

subsection \<open>One attempt (leaderelection.go)\<close>

record LeaderElector =
  observedRecord :: LeaderElectionRecord
  observedTime :: Time
  reportedLeader :: string

definition new_elector :: LeaderElector where
  "new_elector = \<lparr>observedRecord = zero_record, observedTime = zero_time, reportedLeader = []\<rparr>"

definition NewLeaderElector :: "LeaderElectionConfig \<Rightarrow> string + LeaderElector" where
  "NewLeaderElector lec =
     (case election_error lec of Some e \<Rightarrow> Inl e | None \<Rightarrow> Inr new_elector)"

definition GetLeader :: "LeaderElector \<Rightarrow> string" where
  "GetLeader le = HolderIdentity (observedRecord le)"

definition IsLeader :: "LeaderElectionConfig \<Rightarrow> LeaderElector \<Rightarrow> bool" where
  "IsLeader lec le = (HolderIdentity (observedRecord le) = Identity lec)"

text \<open>
  The parts of \<open>tryAcquireOrRenew\<close> between its calls: the record it starts with, what it observes,
  whether it leaves the lock to its holder, the record it writes, and what it notes when that
  has succeeded.
\<close>

definition fresh_record :: "LeaderElectionConfig \<Rightarrow> Time \<Rightarrow> LeaderElectionRecord" where
  "fresh_record lec start =
     \<lparr>HolderIdentity = Identity lec,
      LeaseDurationSeconds = word_of_int (LeaseDuration lec sdiv second),
      AcquireTime = start, RenewTime = start, LeaderTransitions = 0\<rparr>"

definition observe :: "LeaderElectionRecord \<Rightarrow> Time \<Rightarrow> LeaderElector \<Rightarrow> LeaderElector" where
  "observe old t le =
     (if observedRecord le \<noteq> old then le\<lparr>observedRecord := old, observedTime := t\<rparr> else le)"

definition held_by_other ::
    "LeaderElectionConfig \<Rightarrow> LeaderElector \<Rightarrow> LeaderElectionRecord \<Rightarrow> Time \<Rightarrow> bool" where
  "held_by_other lec le old start =
     (time_After (time_Add (observedTime le) (LeaseDuration lec)) start \<and>
      HolderIdentity old \<noteq> Identity lec)"

definition next_record ::
    "LeaderElectionConfig \<Rightarrow> LeaderElectionRecord \<Rightarrow> LeaderElectionRecord \<Rightarrow> LeaderElectionRecord" where
  "next_record lec old ler =
     (if HolderIdentity old = Identity lec
      then ler\<lparr>AcquireTime := AcquireTime old, LeaderTransitions := LeaderTransitions old\<rparr>
      else ler\<lparr>LeaderTransitions := LeaderTransitions old + 1\<rparr>)"

definition acknowledged :: "LeaderElectionRecord \<Rightarrow> Time \<Rightarrow> LeaderElector \<Rightarrow> LeaderElector" where
  "acknowledged ler t le = le\<lparr>observedRecord := ler, observedTime := t\<rparr>"

fun IsNotFound :: "error \<Rightarrow> bool" where
  "IsNotFound (StatusError r m) = (r = ''NotFound'')"
| "IsNotFound (Errorf m) = False"

definition tryAcquireOrRenew ::
    "'s resource_lock \<Rightarrow> LeaderElectionConfig \<Rightarrow> LeaderElector \<Rightarrow> 's \<Rightarrow>
     bool \<times> LeaderElector \<times> 's" where
  "tryAcquireOrRenew L lec le s =
     (let start = lock_clock L s;
          ler = fresh_record lec start;
          (got, s1) = lock_Get L s
      in case got of
           Inl err \<Rightarrow>
             if \<not> IsNotFound err then (False, le, s1)
             else (let (err2, s2) = lock_Create L ler s1
                   in if err2 \<noteq> None then (False, le, s2)
                      else (True, acknowledged ler (lock_clock L s2) le, s2))
         | Inr old \<Rightarrow>
             (let le1 = observe old (lock_clock L s1) le
              in if held_by_other lec le1 old start then (False, le1, s1)
                 else (let ler1 = next_record lec old ler;
                           (err2, s2) = lock_Update L ler1 s1
                       in if err2 \<noteq> None then (False, le1, s2)
                          else (True, acknowledged ler1 (lock_clock L s2) le1, s2))))"

text \<open>The second result is the leader reported to \<open>OnNewLeader\<close>, if there is such a callback; the
  operator has none.\<close>

definition maybeReportTransition :: "bool \<Rightarrow> LeaderElector \<Rightarrow> LeaderElector \<times> string option" where
  "maybeReportTransition callback le =
     (if HolderIdentity (observedRecord le) = reportedLeader le then (le, None)
      else (le\<lparr>reportedLeader := HolderIdentity (observedRecord le)\<rparr>,
            if callback then Some (HolderIdentity (observedRecord le)) else None))"

lemma next_record_sel [simp]:
  "HolderIdentity (next_record lec old ler) = HolderIdentity ler"
  "RenewTime (next_record lec old ler) = RenewTime ler"
  by (simp_all add: next_record_def)

lemma fresh_record_sel [simp]:
  "HolderIdentity (fresh_record lec t) = Identity lec"
  "RenewTime (fresh_record lec t) = t"
  "AcquireTime (fresh_record lec t) = t"
  by (simp_all add: fresh_record_def)

lemma observedRecord_observe [simp]: "observedRecord (observe old t le) = old"
  by (simp add: observe_def)

end
