(* ===== verification/Candidates.thy ===== *)
theory Candidates
  imports Election
begin

section \<open>The candidates of an election, and the server\<close>

text \<open>
  Every candidate is a process that runs \<open>LeaderElector.Run\<close>: \<open>acquire\<close>, an endless loop of
  attempts, then \<open>renew\<close>, an endless loop of polls. A poll repeats attempts every
  \<open>RetryPeriod\<close>; when \<open>RenewDeadline\<close> has passed its channel is closed, and the attempt that follows
  is the last: if it fails too, the process ends. An attempt is split at its calls, between which
  the other candidates and the server take steps, requests arrive late or never, answers get
  lost, and time passes.
\<close>

subsection \<open>State\<close>

text \<open>
  A request to write: who sent it, the version it is based on (\<open>None\<close> for a creation), the record
  written, and (a ghost) when its attempt began.
\<close>

record lock_write =
  w_by :: string
  w_base :: "nat option"
  w_record :: LeaderElectionRecord
  w_start :: int

datatype phase =
    Down                          \<comment> \<open>the process does not run\<close>
  | Waiting                       \<comment> \<open>between two attempts\<close>
  | Getting                       \<comment> \<open>the request to get the object is on its way\<close>
  | Got "Endpoints option"        \<comment> \<open>so is its answer, \<open>None\<close> being "not found"\<close>
  | Writing lock_write            \<comment> \<open>the request to write is on its way\<close>
  | Written LeaderElectionRecord  \<comment> \<open>the record is written and the answer is on its way\<close>

text \<open>
  \<open>begun\<close> is the beginning of the latest attempt, \<open>idle_since\<close> the end of the one before,
  \<open>not_before\<close> the reading of the machine's clock before which no timer of the loop fires. For a leader (\<open>leading\<close>:
  \<open>OnStartedLeading\<close> has been called), \<open>poll_start\<close> is the beginning of its poll, \<open>last_try\<close> whether the
  poll's channel is closed, and \<open>last_ok\<close> (a ghost) the beginning of its latest attempt that
  succeeded.
\<close>

record candidate =
  elector :: LeaderElector
  phase :: phase
  begun :: int
  idle_since :: int
  not_before :: int
  leading :: bool
  poll_start :: int
  last_try :: bool
  last_ok :: int

text \<open>
  The state of the election at a real time (\<open>elapsed\<close>, in nanoseconds). \<open>strays\<close> are the requests to write that nobody waits for any more
  and that the server may still carry out; \<open>made\<close> (a ghost) is when the attempt began that wrote
  the record in the object.
\<close>

record election =
  elapsed :: int
  candidates :: "string \<Rightarrow> candidate"
  object :: "Endpoints option"
  made :: int
  strays :: "lock_write list"

text \<open>
  The setting: the identities, the durations, what the clock of each candidate's machine reads at
  a real time, and the bound \<open>delay\<close>: an attempt with its calls, and the reaction to a timer, take no
  longer. A duration (a timer, a lease) is measured with the machine's clock.
\<close>

record setting =
  identities :: "string list"
  durations :: LeaderElectionConfig
  clock_of :: "string \<Rightarrow> int \<Rightarrow> int"
  delay :: int

definition lec_of :: "setting \<Rightarrow> string \<Rightarrow> LeaderElectionConfig" where
  "lec_of E c = (durations E)\<lparr>Identity := c\<rparr>"

definition time_at :: "setting \<Rightarrow> string \<Rightarrow> int \<Rightarrow> Time" where
  "time_at E c t = \<lparr>wall = clock_of E c t, mono = Some (clock_of E c t)\<rparr>"

lemma lec_of_sel [simp]:
  "Identity (lec_of E c) = c"
  "LeaseDuration (lec_of E c) = LeaseDuration (durations E)"
  by (simp_all add: lec_of_def)

lemma time_at_sel [simp]:
  "wall (time_at E c t) = clock_of E c t" "mono (time_at E c t) = Some (clock_of E c t)"
  by (simp_all add: time_at_def)

abbreviation set_candidate :: "string \<Rightarrow> candidate \<Rightarrow> election \<Rightarrow> election" where
  "set_candidate c p S \<equiv> S\<lparr>candidates := (candidates S)(c := p)\<rparr>"

subsection \<open>Steps of a candidate\<close>

definition no_candidate :: candidate where
  "no_candidate = \<lparr>elector = new_elector, phase = Down, begun = 0, idle_since = 0, not_before = 0,
     leading = False, poll_start = 0, last_try = False, last_ok = 0\<rparr>"

text \<open>A process starts with a new elector; only the ghost \<open>begun\<close> stays.\<close>

definition started :: "setting \<Rightarrow> string \<Rightarrow> int \<Rightarrow> candidate \<Rightarrow> candidate" where
  "started E c t p =
     no_candidate\<lparr>phase := Waiting, begun := begun p, idle_since := t, not_before := clock_of E c t\<rparr>"

definition ended :: "candidate \<Rightarrow> candidate" where
  "ended p = p\<lparr>phase := Down, leading := False\<rparr>"

text \<open>
  The timer of a leader's poll has fired (the clock has reached \<open>RenewDeadline\<close> after the poll's
  start), and the process may have noticed only now, or not yet.
\<close>

definition timer_fired :: "setting \<Rightarrow> string \<Rightarrow> int \<Rightarrow> candidate \<Rightarrow> bool" where
  "timer_fired E c t p \<longleftrightarrow>
     clock_of E c (poll_start p) + RenewDeadline (durations E) \<le> clock_of E c t"

definition timer_unnoticed :: "setting \<Rightarrow> string \<Rightarrow> int \<Rightarrow> candidate \<Rightarrow> bool" where
  "timer_unnoticed E c t p \<longleftrightarrow>
     clock_of E c (t - delay E) \<le> clock_of E c (poll_start p) + RenewDeadline (durations E)"

text \<open>
  When an attempt may begin: for a leader within a poll as long as the poll's timer has not been
  noticed, and a last time (\<open>final\<close>) after it.
\<close>

definition may_begin :: "setting \<Rightarrow> string \<Rightarrow> bool \<Rightarrow> int \<Rightarrow> candidate \<Rightarrow> bool" where
  "may_begin E c final t p \<longleftrightarrow>
     phase p = Waiting \<and> not_before p \<le> clock_of E c t \<and>
     (if \<not> leading p then \<not> final
      else if final then timer_fired E c t p else timer_unnoticed E c t p)"

definition begin_attempt :: "bool \<Rightarrow> int \<Rightarrow> candidate \<Rightarrow> candidate" where
  "begin_attempt final t p = p\<lparr>phase := Getting, begun := t, last_try := final\<rparr>"

text \<open>
  An attempt that fails: \<open>acquire\<close> waits for its period, \<open>renew\<close> for the next tick of its poll,
  unless the attempt was the last one of the poll.
\<close>

definition attempt_failed :: "setting \<Rightarrow> string \<Rightarrow> int \<Rightarrow> candidate \<Rightarrow> candidate" where
  "attempt_failed E c t p =
     (if leading p then
        (if last_try p
         then ended (p\<lparr>elector := fst (maybeReportTransition False (elector p))\<rparr>)
         else p\<lparr>phase := Waiting, idle_since := t\<rparr>)
      else p\<lparr>phase := Waiting, idle_since := t,
             not_before := clock_of E c t + RetryPeriod (durations E),
             elector := fst (maybeReportTransition False (elector p))\<rparr>)"

text \<open>One that succeeds: the candidate becomes or stays the leader, and a new poll begins.\<close>

definition attempt_succeeded ::
    "setting \<Rightarrow> string \<Rightarrow> int \<Rightarrow> LeaderElectionRecord \<Rightarrow> candidate \<Rightarrow> candidate" where
  "attempt_succeeded E c t ler p =
     p\<lparr>phase := Waiting, idle_since := t,
       not_before := clock_of E c t + RetryPeriod (durations E), leading := True, poll_start := t, last_try := False, last_ok := begun p,
       elector := fst (maybeReportTransition False (acknowledged ler (time_at E c t) (elector p)))\<rparr>"

text \<open>The answer to the first request arrives: \<open>tryAcquireOrRenew\<close> up to its second.\<close>

definition decide ::
    "setting \<Rightarrow> string \<Rightarrow> int \<Rightarrow> Endpoints option \<Rightarrow> candidate \<Rightarrow> candidate" where
  "decide E c t reply p =
     (let start = time_at E c (begun p);
          ler = fresh_record (lec_of E c) start
      in case reply of
           None \<Rightarrow> p\<lparr>phase := Writing \<lparr>w_by = c, w_base = None, w_record = ler, w_start = begun p\<rparr>\<rparr>
         | Some e \<Rightarrow>
             (case unmarshal_record e of
                Inl err \<Rightarrow> attempt_failed E c t p
              | Inr old \<Rightarrow>
                  (let le = observe old (time_at E c t) (elector p); p1 = p\<lparr>elector := le\<rparr>
                   in if held_by_other (lec_of E c) le old start then attempt_failed E c t p1
                      else p1\<lparr>phase := Writing \<lparr>w_by = c, w_base = Some (ep_Version e),
                               w_record = next_record (lec_of E c) old ler, w_start = begun p\<rparr>\<rparr>)))"

subsection \<open>Steps of the server\<close>

text \<open>A write is carried out only if nothing has changed since the read it is based on.\<close>

definition applicable :: "lock_write \<Rightarrow> election \<Rightarrow> bool" where
  "applicable w S \<longleftrightarrow> w_base w = map_option ep_Version (object S)"

definition carry_out :: "lock_write \<Rightarrow> election \<Rightarrow> election" where
  "carry_out w S =
     S\<lparr>object := Some \<lparr>ep_Version = (case object S of None \<Rightarrow> 1 | Some e \<Rightarrow> Suc (ep_Version e)),
                       ep_annotation = Holds (wire_record (w_record w))\<rparr>,
       made := w_start w\<rparr>"

subsection \<open>Time\<close>

text \<open>Until when a candidate has taken its next step.\<close>

definition in_time :: "setting \<Rightarrow> string \<Rightarrow> int \<Rightarrow> candidate \<Rightarrow> bool" where
  "in_time E c t p =
     (case phase p of
        Down \<Rightarrow> True
      | Waiting \<Rightarrow>
          leading p \<longrightarrow> timer_unnoticed E c t p \<or> t \<le> idle_since p + delay E
      | _ \<Rightarrow> t \<le> begun p + delay E)"

subsection \<open>The transition system\<close>

text \<open>
  What can happen. \<open>Lost\<close> is an error in place of an answer: the request was refused, or never
  arrived, or was carried out nevertheless, or will be (\<open>Late\<close>, by its place among the strays).
  \<open>Touched\<close> is a change of the object by others, who leave the annotation alone.
\<close>

datatype election_event =
    Started string
  | Begins bool string
  | Get_served string
  | Answered string
  | Write_served string
  | Acknowledged string
  | Lost string
  | Late nat
  | Touched
  | Crashed string
  | Passes int

fun stray :: "phase \<Rightarrow> lock_write list" where
  "stray (Writing w) = [w]"
| "stray _ = []"

definition running_candidate :: "setting \<Rightarrow> string \<Rightarrow> election \<Rightarrow> bool" where
  "running_candidate E c S \<longleftrightarrow> c \<in> set (identities E) \<and> c \<noteq> [] \<and> phase (candidates S c) \<noteq> Down"

fun occurs :: "setting \<Rightarrow> election_event \<Rightarrow> election \<Rightarrow> election option" where
  "occurs E (Started c) S =
     (if c \<in> set (identities E) \<and> c \<noteq> [] \<and> phase (candidates S c) = Down
      then Some (set_candidate c (started E c (elapsed S) (candidates S c)) S) else None)"
| "occurs E (Begins final c) S =
     (if running_candidate E c S \<and> may_begin E c final (elapsed S) (candidates S c)
      then Some (set_candidate c (begin_attempt final (elapsed S) (candidates S c)) S) else None)"
| "occurs E (Get_served c) S =
     (if running_candidate E c S \<and> phase (candidates S c) = Getting
      then Some (set_candidate c ((candidates S c)\<lparr>phase := Got (object S)\<rparr>) S) else None)"
| "occurs E (Answered c) S =
     (if running_candidate E c S then
        (case phase (candidates S c) of
           Got reply \<Rightarrow> Some (set_candidate c (decide E c (elapsed S) reply (candidates S c)) S)
         | _ \<Rightarrow> None)
      else None)"
| "occurs E (Write_served c) S =
     (if running_candidate E c S then
        (case phase (candidates S c) of
           Writing w \<Rightarrow>
             if applicable w S
             then Some (carry_out w
                    (set_candidate c ((candidates S c)\<lparr>phase := Written (w_record w)\<rparr>) S))
             else None
         | _ \<Rightarrow> None)
      else None)"
| "occurs E (Acknowledged c) S =
     (if running_candidate E c S then
        (case phase (candidates S c) of
           Written ler \<Rightarrow>
             Some (set_candidate c (attempt_succeeded E c (elapsed S) ler (candidates S c)) S)
         | _ \<Rightarrow> None)
      else None)"
| "occurs E (Lost c) S =
     (if running_candidate E c S \<and> phase (candidates S c) \<noteq> Waiting
      then Some ((set_candidate c (attempt_failed E c (elapsed S) (candidates S c)) S)
                   \<lparr>strays := stray (phase (candidates S c)) @ strays S\<rparr>)
      else None)"
| "occurs E (Late n) S =
     (if n < length (strays S) \<and> applicable (strays S ! n) S
      then Some ((carry_out (strays S ! n) S)\<lparr>strays := take n (strays S) @ drop (Suc n) (strays S)\<rparr>)
      else None)"
| "occurs E Touched S =
     (case object S of
        None \<Rightarrow> Some (S\<lparr>object := Some \<lparr>ep_Version = 1, ep_annotation = Absent\<rparr>\<rparr>)
      | Some e \<Rightarrow> Some (S\<lparr>object := Some (e\<lparr>ep_Version := Suc (ep_Version e)\<rparr>)\<rparr>))"
| "occurs E (Crashed c) S =
     (if running_candidate E c S
      then Some ((set_candidate c (ended (candidates S c)) S)
                   \<lparr>strays := stray (phase (candidates S c)) @ strays S\<rparr>)
      else None)"
| "occurs E (Passes d) S =
     (if 0 \<le> d \<and> (\<forall>c \<in> set (identities E). in_time E c (elapsed S + d) (candidates S c))
      then Some (S\<lparr>elapsed := elapsed S + d\<rparr>) else None)"

fun play :: "setting \<Rightarrow> election_event list \<Rightarrow> election \<Rightarrow> election option" where
  "play E [] S = Some S"
| "play E (ev # evs) S = (case occurs E ev S of None \<Rightarrow> None | Some S1 \<Rightarrow> play E evs S1)"

definition nobody :: election where
  "nobody = \<lparr>elapsed = 0, candidates = \<lambda>_. no_candidate, object = None, made = 0, strays = []\<rparr>"

inductive elects :: "setting \<Rightarrow> election \<Rightarrow> bool" for E where
  start: "elects E nobody"
| step: "elects E S \<Longrightarrow> occurs E ev S = Some S' \<Longrightarrow> elects E S'"

lemma play_elects: "elects E S \<Longrightarrow> play E evs S = Some S' \<Longrightarrow> elects E S'"
  by (induction evs arbitrary: S) (auto split: option.splits intro: elects.step)

end
