(* ===== verification/Election_Invariant.thy ===== *)
theory Election_Invariant
  imports Candidates
begin

section \<open>An invariant of the election\<close>

text \<open>
  The clocks and durations under which there is one leader. \<open>R\<close> is a bound, in real time, on what
  any clock takes for \<open>RenewDeadline\<close>, \<open>L\<close> one from below on what it takes for \<open>LeaseDuration\<close>, and \<open>X\<close> one on
  what it takes for a second, the precision of the times in a record.
\<close>

definition prompt :: "setting \<Rightarrow> int \<Rightarrow> int \<Rightarrow> int \<Rightarrow> bool" where
  "prompt E R L X \<longleftrightarrow>
     0 \<le> delay E \<and> 0 \<le> R \<and> R + 5 * delay E + X \<le> L \<and>
     (\<forall>c s t. s \<le> t \<longrightarrow> clock_of E c s \<le> clock_of E c t) \<and>
     (\<forall>c s t. clock_of E c t \<le> clock_of E c s + RenewDeadline (durations E) \<longrightarrow> t \<le> s + R) \<and>
     (\<forall>c s t. clock_of E c s + LeaseDuration (durations E) \<le> clock_of E c t \<longrightarrow> s + L \<le> t) \<and>
     (\<forall>c s t. clock_of E c s - second < clock_of E c t \<longrightarrow> s - X < t)"

lemma promptD:
  assumes "prompt E R L X"
  shows "0 \<le> delay E" and "0 \<le> R" and "R + 5 * delay E + X \<le> L"
    and "s \<le> t \<Longrightarrow> clock_of E c s \<le> clock_of E c t"
    and "clock_of E c t \<le> clock_of E c s + RenewDeadline (durations E) \<Longrightarrow> t \<le> s + R"
    and "clock_of E c s + LeaseDuration (durations E) \<le> clock_of E c t \<Longrightarrow> s + L \<le> t"
    and "clock_of E c s - second < clock_of E c t \<Longrightarrow> s - X < t"
  using assms unfolding prompt_def by blast+

text \<open>A record exists by the real time \<open>t\<close>, as far as its holder's clock tells.\<close>

definition born_by :: "setting \<Rightarrow> LeaderElectionRecord \<Rightarrow> int \<Rightarrow> bool" where
  "born_by E r t \<longleftrightarrow> wall (RenewTime r) \<le> clock_of E (HolderIdentity r) t"

lemma born_by_later:
  assumes "prompt E R L X" "born_by E r s" "s \<le> t"
  shows "born_by E r t"
  using promptD(4) [OF assms(1,3), of "HolderIdentity r"] assms(2) by (simp add: born_by_def)

lemma timer_unnoticedD:
  assumes "prompt E R L X" "timer_unnoticed E c t p"
  shows "t \<le> poll_start p + R + delay E"
  using promptD(5) [OF assms(1)] assms(2) by (fastforce simp: timer_unnoticed_def)

text \<open>The candidate \<open>c\<close> has held the lock since an attempt that began at \<open>t\<close> or later.\<close>

definition holds_since :: "election \<Rightarrow> string \<Rightarrow> int \<Rightarrow> bool" where
  "holds_since S c t \<longleftrightarrow>
     (\<exists>e r. object S = Some e \<and> ep_annotation e = Holds r \<and> HolderIdentity r = c \<and> t \<le> made S)"

text \<open>A candidate is on time.\<close>

definition timely :: "setting \<Rightarrow> int \<Rightarrow> int \<Rightarrow> candidate \<Rightarrow> bool" where
  "timely E R t p \<longleftrightarrow>
     begun p \<le> t \<and>
     (phase p = Down \<longrightarrow> \<not> leading p) \<and>
     (phase p \<noteq> Down \<and> phase p \<noteq> Waiting \<longrightarrow> t \<le> begun p + delay E) \<and>
     (leading p \<longrightarrow>
        last_ok p \<le> begun p \<and> poll_start p \<le> last_ok p + delay E \<and>
        (if phase p = Waiting
         then idle_since p \<le> poll_start p + R + 2 * delay E \<and> t \<le> poll_start p + R + 3 * delay E
         else begun p \<le> poll_start p + R + 3 * delay E \<and>
              (\<not> last_try p \<longrightarrow> begun p \<le> poll_start p + R + delay E)))"

text \<open>A record is not observed before it is born.\<close>

definition observes :: "setting \<Rightarrow> string \<Rightarrow> LeaderElector \<Rightarrow> bool" where
  "observes E c le \<longleftrightarrow>
     (HolderIdentity (observedRecord le) \<noteq> [] \<longrightarrow>
      (\<exists>t. mono (observedTime le) = Some (clock_of E c t) \<and> born_by E (observedRecord le) t))"

definition annotation_ok :: "setting \<Rightarrow> int \<Rightarrow> annotation \<Rightarrow> bool" where
  "annotation_ok E t a \<longleftrightarrow> (\<forall>r. a = Holds r \<longrightarrow> HolderIdentity r \<noteq> [] \<and> born_by E r t)"

definition object_ok :: "setting \<Rightarrow> election \<Rightarrow> bool" where
  "object_ok E S \<longleftrightarrow>
     (\<forall>e. object S = Some e \<longrightarrow>
        annotation_ok E (elapsed S) (ep_annotation e) \<and>
        (\<forall>r. ep_annotation e = Holds r \<longrightarrow>
           clock_of E (HolderIdentity r) (made S) - second < wall (RenewTime r) \<and>
           made S \<le> begun (candidates S (HolderIdentity r))))"

text \<open>What was read is older than the object, unless it is the object.\<close>

definition got_ok :: "setting \<Rightarrow> election \<Rightarrow> Endpoints \<Rightarrow> bool" where
  "got_ok E S e \<longleftrightarrow>
     annotation_ok E (elapsed S) (ep_annotation e) \<and>
     (\<exists>e'. object S = Some e' \<and> ep_Version e \<le> ep_Version e' \<and>
           (ep_Version e = ep_Version e' \<longrightarrow> e = e'))"

text \<open>A request to write that would be carried out now renews the lock or finds it expired.\<close>

definition write_ok :: "setting \<Rightarrow> int \<Rightarrow> election \<Rightarrow> lock_write \<Rightarrow> bool" where
  "write_ok E L S w \<longleftrightarrow>
     w_by w \<noteq> [] \<and> HolderIdentity (w_record w) = w_by w \<and>
     RenewTime (w_record w) = time_at E (w_by w) (w_start w) \<and>
     (\<forall>v. w_base w = Some v \<longrightarrow> (\<exists>e. object S = Some e \<and> v \<le> ep_Version e)) \<and>
     (applicable w S \<longrightarrow>
        (\<forall>e r. object S = Some e \<longrightarrow> ep_annotation e = Holds r \<longrightarrow>
           (if HolderIdentity r = w_by w then made S \<le> w_start w
            else \<exists>t. born_by E r t \<and> t + L \<le> w_start w)))"

definition candidate_ok :: "setting \<Rightarrow> int \<Rightarrow> int \<Rightarrow> election \<Rightarrow> string \<Rightarrow> candidate \<Rightarrow> bool" where
  "candidate_ok E R L S c p \<longleftrightarrow>
     (phase p \<noteq> Down \<longrightarrow> c \<in> set (identities E) \<and> c \<noteq> []) \<and>
     timely E R (elapsed S) p \<and> observes E c (elector p) \<and>
     (\<forall>e. phase p = Got (Some e) \<longrightarrow> got_ok E S e) \<and>
     (\<forall>w. phase p = Writing w \<longrightarrow> w_by w = c \<and> w_start w = begun p \<and> write_ok E L S w) \<and>
     (\<forall>r. phase p = Written r \<longrightarrow>
        HolderIdentity r = c \<and> RenewTime r = time_at E c (begun p) \<and> holds_since S c (begun p)) \<and>
     (leading p \<longrightarrow> holds_since S c (last_ok p))"

definition stray_ok :: "setting \<Rightarrow> int \<Rightarrow> election \<Rightarrow> lock_write \<Rightarrow> bool" where
  "stray_ok E L S w \<longleftrightarrow> write_ok E L S w \<and> w_start w \<le> begun (candidates S (w_by w))"

definition sound :: "setting \<Rightarrow> int \<Rightarrow> int \<Rightarrow> election \<Rightarrow> bool" where
  "sound E R L S \<longleftrightarrow>
     object_ok E S \<and> (\<forall>c. candidate_ok E R L S c (candidates S c)) \<and>
     (\<forall>w \<in> set (strays S). stray_ok E L S w)"

lemma sound_nobody: "sound E R L nobody"
  by (simp add: sound_def object_ok_def candidate_ok_def nobody_def no_candidate_def timely_def
      observes_def new_elector_def zero_record_def)

lemma born_wire_record:
  assumes "RenewTime r = time_at E (HolderIdentity r) t"
  shows "born_by E (wire_record r) t"
    and "clock_of E (HolderIdentity r) t - second < wall (wire_time (RenewTime r))"
  using wire_time_le [of "RenewTime r"] wire_time_gt [of "RenewTime r"]
  by (simp_all add: born_by_def assms)

subsection \<open>Steps of one candidate\<close>

lemma sound_candidate:
  assumes S: "sound E R L S" and p: "candidate_ok E R L S c p"
    and begun: "begun (candidates S c) \<le> begun p"
    and strays: "\<And>w. w \<in> set ws \<Longrightarrow> write_ok E L S w \<and> w_by w = c \<and> w_start w \<le> begun p"
  shows "sound E R L ((set_candidate c p S)\<lparr>strays := ws @ strays S\<rparr>)"
proof -
  let ?S = "(set_candidate c p S)\<lparr>strays := ws @ strays S\<rparr>"
  have same: "candidate_ok E R L ?S d q = candidate_ok E R L S d q" "write_ok E L ?S w = write_ok E L S w" for d q w
    by (simp_all add: candidate_ok_def got_ok_def write_ok_def applicable_def holds_since_def)
  have le: "begun (candidates S d) \<le> begun (candidates ?S d)" for d using begun by simp
  have "object_ok E ?S"
    using S le order_trans [OF _ le] by (fastforce simp: sound_def object_ok_def)
  moreover have "candidate_ok E R L ?S d (candidates ?S d)" for d
    using S p by (simp add: same sound_def)
  moreover have "stray_ok E L ?S w" if "w \<in> set (strays ?S)" for w
    using that S strays [of w] order_trans [OF _ le, of "w_start w" "w_by w"]
    by (auto simp: sound_def stray_ok_def same)
  ultimately show ?thesis by (simp add: sound_def)
qed

lemma set_no_strays: "(set_candidate c p S)\<lparr>strays := [] @ strays S\<rparr> = set_candidate c p S"
  by simp

lemmas sound_candidate_only = sound_candidate [where ws = "[]", unfolded set_no_strays, simplified]

lemma soundD:
  assumes "sound E R L S"
  shows "candidate_ok E R L S c (candidates S c)" and "object_ok E S"
    and "w \<in> set (strays S) \<Longrightarrow> stray_ok E L S w"
  using assms by (simp_all add: sound_def)

lemma candidate_ok_started:
  assumes "candidate_ok E R L S c p" "c \<in> set (identities E)" "c \<noteq> []"
  shows "candidate_ok E R L S c (started E c (elapsed S) p)"
  using assms by (simp add: candidate_ok_def started_def no_candidate_def timely_def observes_def
      new_elector_def zero_record_def)

lemma candidate_ok_ended:
  assumes "candidate_ok E R L S c p"
  shows "candidate_ok E R L S c (ended p)"
  using assms by (simp add: candidate_ok_def ended_def timely_def)

lemma candidate_ok_begins:
  assumes E: "prompt E R L X" and p: "candidate_ok E R L S c p" "may_begin E c final (elapsed S) p"
  shows "candidate_ok E R L S c (begin_attempt final (elapsed S) p)"
  using p promptD(1) [OF E] timer_unnoticedD [OF E, of c "elapsed S" p]
  by (auto simp: candidate_ok_def begin_attempt_def timely_def may_begin_def split: if_splits)

lemma candidate_ok_failed:
  assumes E: "prompt E R L X" and p: "candidate_ok E R L S c p" and busy: "phase p \<noteq> Down" "phase p \<noteq> Waiting"
  shows "candidate_ok E R L S c (attempt_failed E c (elapsed S) p)"
proof -
  have "observes E c (fst (maybeReportTransition False (elector p)))"
    using p by (simp add: candidate_ok_def observes_def maybeReportTransition_def)
  then show ?thesis
    using promptD(1,2) [OF E] p busy
    by (auto simp: candidate_ok_def attempt_failed_def ended_def timely_def)
qed

lemma candidate_ok_succeeded:
  assumes E: "prompt E R L X" and p: "candidate_ok E R L S c p" and phase: "phase p = Written r"
  shows "candidate_ok E R L S c (attempt_succeeded E c (elapsed S) r p)"
proof -
  have "HolderIdentity r = c" "RenewTime r = time_at E c (begun p)" "begun p \<le> elapsed S"
    using p phase by (simp_all add: candidate_ok_def timely_def)
  then have "born_by E r (elapsed S)" using promptD(4) [OF E] by (simp add: born_by_def)
  then have "observes E c (fst (maybeReportTransition False
      (acknowledged r (time_at E c (elapsed S)) (elector p))))"
    by (auto simp: observes_def maybeReportTransition_def acknowledged_def)
  then show ?thesis
    using promptD(1,2) [OF E] p phase
    by (auto simp: candidate_ok_def attempt_succeeded_def timely_def)
qed

text \<open>A candidate that goes on to write after it has read \<open>e\<close>.\<close>

lemma observes_observe:
  assumes "observes E c le" and "HolderIdentity old \<noteq> [] \<Longrightarrow> born_by E old t"
  shows "observes E c (observe old (time_at E c t) le)"
  using assms by (auto simp: observes_def observe_def)

lemma not_held_by_other:
  assumes E: "prompt E R L X" and le: "observes E c le" "observedRecord le = old"
    and old: "HolderIdentity old \<noteq> []" "HolderIdentity old \<noteq> c"
    and free: "\<not> held_by_other (lec_of E c) le old (time_at E c t)"
  shows "\<exists>u. born_by E old u \<and> u + L \<le> t"
proof -
  obtain u where u: "mono (observedTime le) = Some (clock_of E c u)" "born_by E old u"
    using le old(1) by (auto simp: observes_def)
  then have "clock_of E c u + LeaseDuration (durations E) \<le> clock_of E c t"
    using free old(2) by (simp add: held_by_other_def time_After_def time_Add_def)
  then show ?thesis using promptD(6) [OF E] u(2) by blast
qed

lemma unmarshal_holds: "ep_annotation e = Holds r \<Longrightarrow> unmarshal_record e = Inr r"
  by (simp add: unmarshal_record_def)

lemma unmarshal_holder:
  assumes "unmarshal_record e = Inr old" "HolderIdentity old \<noteq> []"
  shows "ep_annotation e = Holds old"
  using assms by (auto simp: unmarshal_record_def zero_record_def split: annotation.splits)

lemma decided_write_ok:
  assumes E: "prompt E R L X" and S: "object_ok E S" and c: "c \<noteq> []" and e: "got_ok E S e" and old: "unmarshal_record e = Inr old"
    and begun: "begun (candidates S c) = t"
    and le: "observes E c le" "observedRecord le = old"
    and free: "\<not> held_by_other (lec_of E c) le old (time_at E c t)"
  shows "write_ok E L S \<lparr>w_by = c, w_base = Some (ep_Version e),
    w_record = next_record (lec_of E c) old (fresh_record (lec_of E c) (time_at E c t)), w_start = t\<rparr>"
proof -
  have "if HolderIdentity r = c then made S \<le> t else \<exists>u. born_by E r u \<and> u + L \<le> t"
    if obj: "object S = Some e" and r: "ep_annotation e = Holds r" for r
  proof -
    have "old = r" using old r by (simp add: unmarshal_record_def)
    moreover have "HolderIdentity r \<noteq> []" using e r by (simp add: got_ok_def annotation_ok_def)
    moreover have "HolderIdentity r = c \<Longrightarrow> made S \<le> t"
      using S obj r begun by (auto simp: object_ok_def)
    ultimately show ?thesis using not_held_by_other [OF E le _ _ free] by auto
  qed
  then show ?thesis using c e by (auto simp: write_ok_def got_ok_def applicable_def)
qed

lemma candidate_ok_decide:
  assumes E: "prompt E R L X" and S: "object_ok E S" and p: "candidate_ok E R L S c p"
    and cand: "candidates S c = p" and phase: "phase p = Got reply"
  shows "candidate_ok E R L S c (decide E c (elapsed S) reply p)"
proof (cases reply)
  case None
  then show ?thesis using p phase
    by (simp add: decide_def candidate_ok_def timely_def write_ok_def applicable_def split: if_splits)
next
  case (Some e)
  have e: "got_ok E S e" using p phase Some by (simp add: candidate_ok_def)
  show ?thesis
  proof (cases "unmarshal_record e")
    case (Inl err)
    then show ?thesis using candidate_ok_failed [OF E p] phase Some by (simp add: decide_def)
  next
    case (Inr old)
    define le where "le = observe old (time_at E c (elapsed S)) (elector p)"
    have le: "observes E c le"
      unfolding le_def using p e unmarshal_holder [OF Inr]
      by (intro observes_observe) (auto simp: candidate_ok_def got_ok_def annotation_ok_def)
    have p1: "candidate_ok E R L S c (p\<lparr>elector := le\<rparr>)"
      using p le phase by (simp add: candidate_ok_def timely_def)
    show ?thesis
    proof (cases "held_by_other (lec_of E c) le old (time_at E c (begun p))")
      case True
      then show ?thesis using candidate_ok_failed [OF E p1] phase Some Inr
        by (simp add: decide_def Let_def le_def)
    next
      case False
      have c: "c \<noteq> []" using p phase by (simp add: candidate_ok_def)
      have "write_ok E L S \<lparr>w_by = c, w_base = Some (ep_Version e), w_record = next_record (lec_of E c) old
          (fresh_record (lec_of E c) (time_at E c (begun p))), w_start = begun p\<rparr>"
        by (rule decided_write_ok [OF E S c e Inr _ le _ False]) (simp_all add: cand le_def)
      then show ?thesis using p1 False phase Some Inr
        by (simp add: decide_def Let_def le_def candidate_ok_def timely_def split: if_splits)
    qed
  qed
qed

subsection \<open>Steps of the server, and time\<close>

lemma leading_until:
  assumes "prompt E R L X" "timely E R t p" "leading p"
  shows "t \<le> last_ok p + R + 5 * delay E"
  using promptD(1,2) [OF assms(1)] assms(2,3) by (auto simp: timely_def split: if_splits)

text \<open>Whoever holds the lock in time keeps it when a request is carried out.\<close>

lemma holds_since_carry_out:
  assumes E: "prompt E R L X" and S: "object_ok E S" and w: "write_ok E L S w" "applicable w S"
    and now: "w_start w \<le> elapsed S" and c: "holds_since S c t"
    and time: "elapsed S \<le> t + R + 5 * delay E"
  shows "holds_since (carry_out w S) c t"
proof -
  obtain e r where e: "object S = Some e" "ep_annotation e = Holds r" "HolderIdentity r = c"
    and t: "t \<le> made S" using c by (auto simp: holds_since_def)
  have late: "\<not> (\<exists>u. born_by E r u \<and> u + L \<le> w_start w)"
  proof
    assume "\<exists>u. born_by E r u \<and> u + L \<le> w_start w"
    then obtain u where u: "born_by E r u" "u + L \<le> w_start w" by blast
    have "clock_of E c (made S) - second < clock_of E c u"
      using S e u(1) by (auto simp: object_ok_def born_by_def)
    then have "made S - X < u" by (rule promptD(7) [OF E])
    then show False using promptD(3) [OF E] u(2) t time now by linarith
  qed
  have "if HolderIdentity r = w_by w then made S \<le> w_start w
    else \<exists>u. born_by E r u \<and> u + L \<le> w_start w"
    using w e by (simp add: write_ok_def)
  then have "w_by w = c" "t \<le> w_start w" using late t e(3) by (auto split: if_splits)
  then show ?thesis using w(1) by (simp add: holds_since_def carry_out_def write_ok_def)
qed

lemma write_ok_carry_out:
  assumes "write_ok E L S w'" "applicable w S"
  shows "write_ok E L (carry_out w S) w'"
  using assms by (cases "w_base w'"; cases "object S")
    (auto simp: write_ok_def applicable_def carry_out_def)

lemma object_ok_carry_out:
  assumes E: "prompt E R L X" and w: "write_ok E L S w" "w_start w \<le> elapsed S"
    "w_start w \<le> begun (candidates S (w_by w))"
  shows "object_ok E (carry_out w S)"
proof -
  have holder: "HolderIdentity (w_record w) = w_by w" "w_by w \<noteq> []"
    and time: "RenewTime (w_record w) = time_at E (HolderIdentity (w_record w)) (w_start w)"
    using w(1) by (simp_all add: write_ok_def)
  show ?thesis
    using born_wire_record [OF time] born_by_later [OF E _ w(2)] w(3) holder
    by (simp add: object_ok_def annotation_ok_def carry_out_def)
qed

lemma got_ok_carry_out: "got_ok E S e \<Longrightarrow> got_ok E (carry_out w S) e"
  by (clarsimp simp: got_ok_def carry_out_def)

lemma carry_out_sel [simp]:
  "elapsed (carry_out w S) = elapsed S" "candidates (carry_out w S) = candidates S"
  "strays (carry_out w S) = strays S" "made (carry_out w S) = w_start w"
  by (simp_all add: carry_out_def)

lemma candidate_ok_carry_out:
  assumes E: "prompt E R L X" and S: "object_ok E S" and w: "write_ok E L S w" "applicable w S"
    and now: "w_start w \<le> elapsed S" and p: "candidate_ok E R L S c p"
  shows "candidate_ok E R L (carry_out w S) c p"
proof -
  have t: "timely E R (elapsed S) p" using p by (simp add: candidate_ok_def)
  have "holds_since (carry_out w S) c (last_ok p)" if "leading p"
    using holds_since_carry_out [OF E S w now] leading_until [OF E t that] p that
    by (simp add: candidate_ok_def)
  moreover have "holds_since (carry_out w S) c (begun p)" if "phase p = Written r" for r
  proof (rule holds_since_carry_out [OF E S w now])
    show "holds_since S c (begun p)" using p that by (simp add: candidate_ok_def)
    show "elapsed S \<le> begun p + R + 5 * delay E"
      using promptD(1,2) [OF E] t that by (simp add: timely_def)
  qed
  ultimately show ?thesis
    using p write_ok_carry_out [OF _ w(2)] got_ok_carry_out by (simp add: candidate_ok_def)
qed

lemma sound_carry_out:
  assumes E: "prompt E R L X" and S: "sound E R L S" and w: "stray_ok E L S w" "applicable w S"
    and ws: "set ws \<subseteq> set (strays S)"
  shows "sound E R L ((carry_out w S)\<lparr>strays := ws\<rparr>)"
proof -
  let ?S = "(carry_out w S)\<lparr>strays := ws\<rparr>"
  have same: "candidate_ok E R L ?S d q = candidate_ok E R L (carry_out w S) d q"
    "object_ok E ?S = object_ok E (carry_out w S)"
    "stray_ok E L ?S v = stray_ok E L (carry_out w S) v" for d q v
    by (simp_all add: candidate_ok_def got_ok_def write_ok_def applicable_def holds_since_def
        object_ok_def stray_ok_def)
  have "begun (candidates S (w_by w)) \<le> elapsed S"
    using soundD(1) [OF S, of "w_by w"] by (simp add: candidate_ok_def timely_def)
  then have now: "w_start w \<le> elapsed S" using w(1) by (simp add: stray_ok_def)
  have wr: "write_ok E L S w" using w(1) by (simp add: stray_ok_def)
  have "candidate_ok E R L (carry_out w S) c (candidates S c)" for c
    by (rule candidate_ok_carry_out [OF E soundD(2) [OF S] wr w(2) now soundD(1) [OF S]])
  moreover have "object_ok E (carry_out w S)"
    using object_ok_carry_out [OF E wr now] w(1) by (simp add: stray_ok_def)
  moreover have "stray_ok E L (carry_out w S) v" if "v \<in> set ws" for v
    using soundD(3) [OF S, of v] that ws write_ok_carry_out [OF _ w(2)]
    by (auto simp: stray_ok_def)
  ultimately show ?thesis by (simp add: sound_def same)
qed

lemma sound_touched:
  assumes S: "sound E R L S" and S': "occurs E Touched S = Some S'"
  shows "sound E R L S'"
proof -
  obtain e' where e': "S' = S\<lparr>object := Some e'\<rparr>"
    "\<forall>e. object S = Some e \<longrightarrow> e' = e\<lparr>ep_Version := Suc (ep_Version e)\<rparr>"
    "object S = None \<longrightarrow> ep_annotation e' = Absent"
    using S' by (auto split: option.splits)
  have w: "write_ok E L S' w" if "write_ok E L S w" for w
    using that e'(2) unfolding e'(1)
    by (cases "w_base w"; cases "object S") (auto simp: write_ok_def applicable_def)
  have h: "holds_since S' c t" if "holds_since S c t" for c t
    using that e'(2) unfolding e'(1) by (auto simp: holds_since_def)
  have g: "got_ok E S' e" if "got_ok E S e" for e
    using that e'(2) unfolding e'(1) by (auto simp: got_ok_def)
  have sel: "elapsed S' = elapsed S" "candidates S' = candidates S" "strays S' = strays S"
    unfolding e'(1) by simp_all
  have "candidate_ok E R L S' c (candidates S c)" for c
    using soundD(1) [OF S, of c] w h g by (simp add: candidate_ok_def sel)
  moreover have "object_ok E S'"
    using soundD(2) [OF S] e'(2,3) unfolding e'(1)
    by (cases "object S") (auto simp: object_ok_def annotation_ok_def)
  ultimately show ?thesis
    using soundD(3) [OF S] w by (simp add: sound_def sel stray_ok_def)
qed

lemma timely_passes:
  assumes "prompt E R L X" "timely E R t p" "in_time E c (t + d) p" "0 \<le> d"
  shows "timely E R (t + d) p"
  using promptD(1) [OF assms(1)] timer_unnoticedD [OF assms(1), of c "t + d" p] assms(2-4)
  by (cases "phase p") (auto simp: timely_def in_time_def split: if_splits)

lemma sound_passes:
  assumes E: "prompt E R L X" and S: "sound E R L S" and d: "0 \<le> d"
    and time: "\<forall>c \<in> set (identities E). in_time E c (elapsed S + d) (candidates S c)"
  shows "sound E R L (S\<lparr>elapsed := elapsed S + d\<rparr>)"
proof -
  let ?S = "S\<lparr>elapsed := elapsed S + d\<rparr>"
  have a: "annotation_ok E (elapsed S + d) a" if "annotation_ok E (elapsed S) a" for a
    using that d born_by_later [OF E, of _ "elapsed S" "elapsed S + d"] by (simp add: annotation_ok_def)
  have same: "write_ok E L ?S w = write_ok E L S w" "holds_since ?S c t = holds_since S c t" for w c t
    by (simp_all add: write_ok_def applicable_def holds_since_def)
  have g: "got_ok E ?S e" if "got_ok E S e" for e using that a by (simp add: got_ok_def)
  have "candidate_ok E R L ?S c (candidates S c)" for c
  proof -
    have c: "candidate_ok E R L S c (candidates S c)" by (rule soundD(1) [OF S])
    then have "in_time E c (elapsed S + d) (candidates S c)"
      using time by (cases "phase (candidates S c) = Down") (auto simp: candidate_ok_def in_time_def)
    then have "timely E R (elapsed S + d) (candidates S c)"
      using timely_passes [OF E _ _ d] c by (simp add: candidate_ok_def)
    then show ?thesis using c g by (simp add: candidate_ok_def same)
  qed
  moreover have "object_ok E ?S" using soundD(2) [OF S] a by (simp add: object_ok_def)
  ultimately show ?thesis using soundD(3) [OF S] by (simp add: sound_def stray_ok_def same)
qed

subsection \<open>Every step keeps the invariant\<close>

lemma sound_Write_served:
  assumes E: "prompt E R L X" and S: "sound E R L S" and c: "phase (candidates S c) = Writing w" "applicable w S"
  shows "sound E R L (carry_out w (set_candidate c ((candidates S c)\<lparr>phase := Written (w_record w)\<rparr>) S))"
proof -
  let ?p = "candidates S c" and ?p' = "(candidates S c)\<lparr>phase := Written (w_record w)\<rparr>"
  have p: "candidate_ok E R L S c ?p" by (rule soundD(1) [OF S])
  have w: "w_by w = c" "w_start w = begun ?p" "write_ok E L S w" "timely E R (elapsed S) ?p"
    using p c by (simp_all add: candidate_ok_def)
  have now: "w_start w \<le> elapsed S" using w by (simp add: timely_def)
  have after: "sound E R L ((carry_out w S)\<lparr>strays := strays S\<rparr>)"
    by (rule sound_carry_out [OF E S _ c(2)]) (use w in \<open>simp_all add: stray_ok_def\<close>)
  have eq: "(carry_out w S)\<lparr>strays := strays S\<rparr> = carry_out w S" by (simp add: carry_out_def)
  have rec: "HolderIdentity (w_record w) = c" "RenewTime (w_record w) = time_at E c (begun ?p)"
    using w by (simp_all add: write_ok_def)
  have held: "holds_since (carry_out w S) c t" if "t \<le> begun ?p" for t
    using that rec w(2) by (simp add: holds_since_def carry_out_def)
  have "candidate_ok E R L (carry_out w S) c ?p" using soundD(1) [OF after, of c] eq by simp
  then have "candidate_ok E R L (carry_out w S) c ?p'"
    using rec held c(1) w(4) by (simp add: candidate_ok_def timely_def)
  then have "sound E R L (set_candidate c ?p' (carry_out w S))"
    by (intro sound_candidate_only) (use after eq in simp_all)
  moreover have "set_candidate c ?p' (carry_out w S) = carry_out w (set_candidate c ?p' S)"
    by (rule election.equality) (simp_all add: carry_out_def)
  ultimately show ?thesis by simp
qed

text \<open>A candidate that stops waiting leaves at most one request behind.\<close>

lemma sound_gives_up:
  assumes S: "sound E R L S" and p: "candidate_ok E R L S c p"
    and begun: "begun (candidates S c) = begun p"
  shows "sound E R L ((set_candidate c p S)\<lparr>strays := stray (phase (candidates S c)) @ strays S\<rparr>)"
proof (rule sound_candidate [OF S p])
  show "write_ok E L S w \<and> w_by w = c \<and> w_start w \<le> begun p"
    if "w \<in> set (stray (phase (candidates S c)))" for w
    using that soundD(1) [OF S, of c] begun
    by (cases "phase (candidates S c)") (simp_all add: candidate_ok_def)
qed (simp add: begun)

lemma begun_attempt_failed [simp]: "begun (attempt_failed E c t p) = begun p"
  by (simp add: attempt_failed_def ended_def)

lemma begun_decide [simp]: "begun (decide E c t reply p) = begun p"
  by (simp add: decide_def Let_def split: option.split sum.split)

lemma sound_occurs:
  assumes E: "prompt E R L X" and S: "sound E R L S" and ev: "occurs E ev S = Some S'"
  shows "sound E R L S'"
proof -
  note ok = soundD(1) [OF S]
  note time = ok [unfolded candidate_ok_def timely_def]
  show ?thesis
  proof (cases ev)
    case (Started c)
    then have S': "S' = set_candidate c (started E c (elapsed S) (candidates S c)) S"
      and c: "c \<in> set (identities E)" "c \<noteq> []" using ev by (auto split: if_splits)
    show ?thesis unfolding S'
      by (rule sound_candidate_only [OF S candidate_ok_started [OF ok c]])
        (simp add: started_def no_candidate_def)
  next
    case (Begins final c)
    then have S': "S' = set_candidate c (begin_attempt final (elapsed S) (candidates S c)) S"
      and c: "may_begin E c final (elapsed S) (candidates S c)" using ev by (auto split: if_splits)
    show ?thesis unfolding S'
      by (rule sound_candidate_only [OF S candidate_ok_begins [OF E ok c]])
        (use time [of c] in \<open>simp add: begin_attempt_def\<close>)
  next
    case (Get_served c)
    then have S': "S' = set_candidate c ((candidates S c)\<lparr>phase := Got (object S)\<rparr>) S"
      and c: "phase (candidates S c) = Getting" using ev by (auto split: if_splits)
    have "got_ok E S e" if "object S = Some e" for e
      using soundD(2) [OF S] that by (simp add: object_ok_def got_ok_def)
    then have "candidate_ok E R L S c ((candidates S c)\<lparr>phase := Got (object S)\<rparr>)"
      using ok [of c] c by (simp add: candidate_ok_def timely_def)
    then show ?thesis unfolding S' by (intro sound_candidate_only [OF S]) simp_all
  next
    case (Answered c)
    then obtain reply where S': "S' = set_candidate c (decide E c (elapsed S) reply (candidates S c)) S"
      and c: "phase (candidates S c) = Got reply"
      using ev by (auto split: if_splits phase.splits)
    show ?thesis unfolding S'
      by (rule sound_candidate_only [OF S candidate_ok_decide [OF E soundD(2) [OF S] ok refl c]]) simp
  next
    case (Write_served c)
    then obtain w where S': "S' = carry_out w
          (set_candidate c ((candidates S c)\<lparr>phase := Written (w_record w)\<rparr>) S)"
      and c: "phase (candidates S c) = Writing w" "applicable w S"
      using ev by (auto split: if_splits phase.splits)
    show ?thesis unfolding S' by (rule sound_Write_served [OF E S c])
  next
    case (Acknowledged c)
    then obtain r where S': "S' = set_candidate c (attempt_succeeded E c (elapsed S) r (candidates S c)) S"
      and c: "phase (candidates S c) = Written r"
      using ev by (auto split: if_splits phase.splits)
    show ?thesis unfolding S'
      by (rule sound_candidate_only [OF S candidate_ok_succeeded [OF E ok c]])
        (simp add: attempt_succeeded_def)
  next
    case (Lost c)
    then have S': "S' = (set_candidate c (attempt_failed E c (elapsed S) (candidates S c)) S)
          \<lparr>strays := stray (phase (candidates S c)) @ strays S\<rparr>"
      and c: "phase (candidates S c) \<noteq> Down" "phase (candidates S c) \<noteq> Waiting"
      using ev by (auto simp: running_candidate_def split: if_splits)
    show ?thesis unfolding S'
      by (rule sound_gives_up [OF S candidate_ok_failed [OF E ok c]]) simp
  next
    case (Late n)
    then have S': "S' = (carry_out (strays S ! n) S)
          \<lparr>strays := take n (strays S) @ drop (Suc n) (strays S)\<rparr>"
      and n: "n < length (strays S)" "applicable (strays S ! n) S" using ev by (auto split: if_splits)
    show ?thesis unfolding S'
      by (rule sound_carry_out [OF E S soundD(3) [OF S] n(2)])
        (use n(1) set_take_subset [of n "strays S"] set_drop_subset [of "Suc n" "strays S"] in auto)
  next
    case Touched
    then show ?thesis using sound_touched [OF S] ev by simp
  next
    case (Crashed c)
    then have S': "S' = (set_candidate c (ended (candidates S c)) S)
          \<lparr>strays := stray (phase (candidates S c)) @ strays S\<rparr>" using ev by (auto split: if_splits)
    show ?thesis unfolding S'
      by (rule sound_gives_up [OF S candidate_ok_ended [OF ok]]) (simp add: ended_def)
  next
    case (Passes d)
    then have S': "S' = S\<lparr>elapsed := elapsed S + d\<rparr>" and d: "0 \<le> d"
      "\<forall>c \<in> set (identities E). in_time E c (elapsed S + d) (candidates S c)"
      using ev by (auto split: if_splits)
    show ?thesis unfolding S' by (rule sound_passes [OF E S d])
  qed
qed

lemma elects_sound: "elects E S \<Longrightarrow> prompt E R L X \<Longrightarrow> sound E R L S"
  by (induction rule: elects.induct) (auto intro: sound_nobody sound_occurs)

end
