(* ===== verification/Election_Props.thy ===== *)
theory Election_Props
  imports Election_Invariant
begin

section \<open>What the election guarantees\<close>

subsection \<open>One leader, and two\<close>

text \<open>
  Clocks whose rate is between \<open>q / p\<close> and \<open>p / q\<close> of real time, wherever they are set.
\<close>

definition steady :: "setting \<Rightarrow> int \<Rightarrow> int \<Rightarrow> bool" where
  "steady E p q \<longleftrightarrow> 0 < p \<and> 0 < q \<and>
     (\<forall>c s t. s \<le> t \<longrightarrow>
        q * (t - s) \<le> p * (clock_of E c t - clock_of E c s) \<and>
        q * (clock_of E c t - clock_of E c s) \<le> p * (t - s))"

lemma steadyD:
  assumes "steady E p q" "s \<le> t"
  shows "q * (t - s) \<le> p * (clock_of E c t - clock_of E c s)"
    and "q * (clock_of E c t - clock_of E c s) \<le> p * (t - s)"
    and "clock_of E c s \<le> clock_of E c t"
proof -
  show 1: "q * (t - s) \<le> p * (clock_of E c t - clock_of E c s)"
    and "q * (clock_of E c t - clock_of E c s) \<le> p * (t - s)"
    using assms by (simp_all add: steady_def)
  have "0 \<le> q * (t - s)" using assms by (simp add: steady_def)
  then have "0 \<le> p * (clock_of E c t - clock_of E c s)" using 1 by linarith
  then show "clock_of E c s \<le> clock_of E c t" using assms(1) by (simp add: steady_def zero_le_mult_iff)
qed

lemma int_floor:
  fixes a q :: int
  assumes "0 < q"
  obtains x where "q * x \<le> a" and "a < q * (x + 1)"
proof
  have "q * (a div q) + a mod q = a" by (rule mult_div_mod_eq)
  moreover have "q * (a div q + 1) = q * (a div q) + q" by (simp add: distrib_left)
  ultimately show "q * (a div q) \<le> a" "a < q * (a div q + 1)"
    using pos_mod_sign [OF assms, of a] pos_mod_bound [OF assms, of a] by linarith+
qed

lemma int_ceiling:
  fixes a q :: int
  assumes "0 < q"
  obtains x where "q * (x - 1) < a" and "a \<le> q * x"
proof -
  obtain x where "q * x \<le> a - 1" "a - 1 < q * (x + 1)" by (rule int_floor [OF assms])
  then have "q * ((x + 1) - 1) < a" "a \<le> q * (x + 1)" by simp_all
  then show ?thesis by (rule that)
qed

lemma steady_prompt:
  assumes E: "steady E p q" and D: "0 \<le> delay E" and RD: "0 \<le> RenewDeadline (durations E)"
    and fits: "p * p * (RenewDeadline (durations E) + second) + 5 * (p * q) * delay E
      \<le> q * q * LeaseDuration (durations E)"
  obtains R L X where "prompt E R L X"
proof -
  let ?r = "RenewDeadline (durations E)" and ?l = "LeaseDuration (durations E)"
  have pq: "0 < p" "0 < q" using E by (simp_all add: steady_def)
  obtain R where R: "q * R \<le> p * ?r" "p * ?r < q * (R + 1)" by (rule int_floor [OF pq(2)])
  obtain X where X: "q * (X - 1) < p * second" "p * second \<le> q * X" by (rule int_ceiling [OF pq(2)])
  obtain L where L: "p * (L - 1) < q * ?l" "q * ?l \<le> p * L" by (rule int_ceiling [OF pq(1)])
  have "0 \<le> p * ?r" using pq RD by simp
  then have R0: "0 \<le> R" using R(2) pq(2) zero_less_mult_pos [of q "R + 1"] by linarith
  have "0 < p * second" using pq second_pos by simp
  then have X0: "0 < X" using X(2) pq(2) zero_less_mult_pos [of q X] by linarith
  have l0: "0 < ?l"
  proof -
    have "0 < p * p * (?r + second)" using pq RD second_pos by simp
    moreover have "0 \<le> 5 * (p * q) * delay E" using pq D by simp
    ultimately have "0 < q * q * ?l" using fits by linarith
    then show ?thesis using pq by (simp add: zero_less_mult_iff)
  qed
  have "R + 5 * delay E + X \<le> L"
  proof (rule ccontr)
    assume "\<not> R + 5 * delay E + X \<le> L"
    then have "(p * q) * L \<le> (p * q) * (R + 5 * delay E + (X - 1))" using pq by simp
    moreover have "q * (q * ?l) \<le> q * (p * L)" using L(2) pq by simp
    moreover have "p * (q * R) \<le> p * (p * ?r)" using R(1) pq by simp
    moreover have "p * (q * (X - 1)) < p * (p * second)" using X(1) pq by simp
    ultimately show False using fits by (simp add: algebra_simps)
  qed
  moreover have "t \<le> s + R" if "clock_of E c t \<le> clock_of E c s + ?r" for c s t
  proof (cases "s \<le> t")
    case True
    have "p * (clock_of E c t - clock_of E c s) \<le> p * ?r" using that pq by simp
    then have "q * (t - s) < q * (R + 1)" using steadyD(1) [OF E True, of c] R(2) by linarith
    then show ?thesis using pq by simp
  qed (use R0 in simp)
  moreover have "s + L \<le> t" if "clock_of E c s + ?l \<le> clock_of E c t" for c s t
  proof -
    have st: "s \<le> t" using steadyD(3) [OF E, of t s c] that l0 by linarith
    have "q * ?l \<le> q * (clock_of E c t - clock_of E c s)" using that pq by simp
    then have "p * (L - 1) < p * (t - s)" using steadyD(2) [OF E st, of c] L(1) by linarith
    then show ?thesis using pq by simp
  qed
  moreover have "s - X < t" if "clock_of E c s - second < clock_of E c t" for c s t
  proof (cases "s \<le> t")
    case False
    then have ts: "t \<le> s" by simp
    have "p * (clock_of E c s - clock_of E c t) < p * second" using that pq by simp
    then have "q * (s - t) < q * X" using steadyD(1) [OF E ts, of c] X(2) by linarith
    then show ?thesis using pq by simp
  qed (use X0 in simp)
  ultimately have "prompt E R L X"
    using D R0 steadyD(3) [OF E] by (simp add: prompt_def)
  then show ?thesis by (rule that)
qed

text \<open>C5: let the clocks be set however wrong and run at most by the factor \<open>p / q\<close> too fast or too slow,
  and every attempt and every reaction to a timer take at most \<open>delay\<close>. If five delays, and
  \<open>RenewDeadline\<close> and a second on the slowest clock, fit into \<open>LeaseDuration\<close> on the fastest, then
  whatever calls are lost, late or repeated and whatever processes are restarted, a leader is the
  holder of the lock and there is no other leader. For the durations of \<open>SingletonWith\<close> and perfect
  clocks that is a delay of 0.8 seconds.\<close>

theorem one_leader:
  assumes "elects E S" "steady E p q" "0 \<le> delay E" "0 \<le> RenewDeadline (durations E)"
    and "p * p * (RenewDeadline (durations E) + second) + 5 * (p * q) * delay E
      \<le> q * q * LeaseDuration (durations E)"
    and "leading (candidates S c)"
  shows "(\<exists>e r. object S = Some e \<and> ep_annotation e = Holds r \<and> HolderIdentity r = c) \<and>
    (\<forall>d. leading (candidates S d) \<longrightarrow> d = c)"
proof -
  obtain R L X where E: "prompt E R L X" using steady_prompt [OF assms(2-5)] .
  have "holds_since S d (last_ok (candidates S d))" if "leading (candidates S d)" for d
    using soundD(1) [OF elects_sound [OF assms(1) E], of d] that by (simp add: candidate_ok_def)
  from this [OF assms(6)] this show ?thesis by (force simp: holds_since_def)
qed

text \<open>The configuration of \<open>SingletonWith\<close>, two candidates whose clocks differ, and any bound on calls.\<close>

definition two_pods :: "int \<Rightarrow> setting" where
  "two_pods d = \<lparr>identities = [''a'', ''b''], durations = singleton_config ''ns'' ''all'' [],
     clock_of = \<lambda>c t. t + (if c = ''a'' then 1000000 else 5000000) * second, delay = d\<rparr>"

definition wins :: "string \<Rightarrow> election_event list" where
  "wins c = [Begins False c, Get_served c, Answered c, Write_served c]"

definition leads_after :: "setting \<Rightarrow> election_event list \<Rightarrow> string \<Rightarrow> bool" where
  "leads_after E evs c = (case play E evs nobody of None \<Rightarrow> False | Some S \<Rightarrow> leading (candidates S c))"

lemma leads_after_elects:
  assumes "leads_after E evs c"
  shows "elects E (the (play E evs nobody))" and "leading (candidates (the (play E evs nobody)) c)"
  using assms play_elects [OF elects.start] by (auto simp: leads_after_def split: option.splits)

text \<open>A run in which the first candidate wins, renews the lock and keeps the other away.\<close>

definition renewed_lock :: "election_event list" where
  "renewed_lock = Started ''a'' # wins ''a'' @ [Acknowledged ''a'', Started ''b'',
     Begins False ''b'', Get_served ''b'', Answered ''b'', Passes (2 * second)] @
     wins ''a'' @ [Passes 500000000, Acknowledged ''a'', Passes (9 * second), Touched,
     Begins False ''b'', Get_served ''b'', Passes 700000000, Answered ''b'']"

lemma renewed_lock_leads: "leads_after (two_pods 800000000) renewed_lock ''a''"
  by code_simp

theorem one_leader_witness:
  "\<exists>S. elects (two_pods 800000000) S \<and> leading (candidates S ''a'') \<and>
     (\<forall>d. leading (candidates S d) \<longrightarrow> d = ''a'')"
proof -
  note run = leads_after_elects [OF renewed_lock_leads]
  have "steady (two_pods 800000000) 1 1" by (simp add: steady_def two_pods_def)
  then have "\<forall>d. leading (candidates (the (play (two_pods 800000000) renewed_lock nobody)) d) \<longrightarrow> d = ''a''"
    by (rule one_leader [OF run(1) _ _ _ _ run(2), THEN conjunct2])
      (simp_all add: two_pods_def second_def)
  then show ?thesis using run by blast
qed

text \<open>
  A run with calls of a second: the first leader hears late that it has won, its attempts to
  renew the lock fail, the last two by hanging. They end before the bound, but the lease the other
  candidate saw has expired by then.
\<close>

definition fails :: "string \<Rightarrow> election_event list" where
  "fails c = [Begins False c, Lost c]"

definition two_terms :: "election_event list" where
  "two_terms = Started ''a'' # wins ''a'' @ [Started ''b'', Begins False ''b'', Get_served ''b'',
     Answered ''b'', Passes second, Acknowledged ''a'', Passes (2 * second)] @
     fails ''a'' @ [Passes (2 * second)] @ fails ''a'' @ [Passes (2 * second)] @
     fails ''a'' @ [Passes (2 * second)] @ fails ''a'' @ [Passes (3 * second), Begins False ''a'',
     Passes second, Lost ''a'', Passes second, Begins True ''a'', Passes second] @
     wins ''b'' @ [Acknowledged ''b'']"

lemma two_terms_lead:
  "leads_after (two_pods second) two_terms ''a''" "leads_after (two_pods second) two_terms ''b''"
  by code_simp+

text \<open>What can happen with one bound can happen with a greater one.\<close>

lemma occurs_slower:
  assumes "occurs E ev S = Some S'" "delay E \<le> d" and clocks: "steady E p q"
  shows "occurs (E\<lparr>delay := d\<rparr>) ev S = Some S'"
proof -
  have [simp]: "time_at (E\<lparr>delay := d\<rparr>) = time_at E" "lec_of (E\<lparr>delay := d\<rparr>) = lec_of E"
    by (simp_all add: fun_eq_iff time_at_def lec_of_def)
  have [simp]: "attempt_failed (E\<lparr>delay := d\<rparr>) = attempt_failed E"
    "attempt_succeeded (E\<lparr>delay := d\<rparr>) = attempt_succeeded E" "started (E\<lparr>delay := d\<rparr>) = started E"
    by (simp_all add: fun_eq_iff attempt_failed_def attempt_succeeded_def started_def)
  have [simp]: "decide (E\<lparr>delay := d\<rparr>) = decide E" "running_candidate (E\<lparr>delay := d\<rparr>) = running_candidate E"
    by (simp_all add: fun_eq_iff decide_def running_candidate_def Let_def
        cong: option.case_cong sum.case_cong if_cong)
  have unnoticed: "timer_unnoticed (E\<lparr>delay := d\<rparr>) c t p" if "timer_unnoticed E c t p" for c t p
    using that steadyD(3) [OF clocks, of "t - d" "t - delay E" c] assms(2)
    by (simp add: timer_unnoticed_def)
  have starts: "may_begin (E\<lparr>delay := d\<rparr>) c final t p" if "may_begin E c final t p" for c final t p
    using that unnoticed by (auto simp: may_begin_def timer_fired_def split: if_splits)
  have time: "in_time (E\<lparr>delay := d\<rparr>) c t p" if "in_time E c t p" for c t p
    using that assms(2) unnoticed by (auto simp: in_time_def split: phase.splits)
  show ?thesis using assms(1) starts time by (cases ev) (auto split: if_splits phase.splits)
qed

lemma elects_slower: "elects E S \<Longrightarrow> delay E \<le> d \<Longrightarrow> steady E p q \<Longrightarrow> elects (E\<lparr>delay := d\<rparr>) S"
  by (induction rule: elects.induct) (auto intro: elects.intros occurs_slower)

text \<open>C6: the operator's durations leave less than a second for a call: nothing bounds a call of its
  client, and once calls may take a second or longer, two pods lead, and fence nodes, at a time.\<close>

theorem two_leaders:
  assumes "second \<le> d"
  shows "\<exists>S. elects (two_pods d) S \<and> leading (candidates S ''a'') \<and> leading (candidates S ''b'')"
proof -
  let ?S = "the (play (two_pods second) two_terms nobody)"
  have "elects ((two_pods second)\<lparr>delay := d\<rparr>) ?S"
    by (rule elects_slower [OF leads_after_elects(1) [OF two_terms_lead(1)], where p = 1 and q = 1])
      (use assms in \<open>simp_all add: two_pods_def steady_def\<close>)
  then have "elects (two_pods d) ?S" by (simp add: two_pods_def)
  then show ?thesis
    using leads_after_elects(2) [OF two_terms_lead(1)] leads_after_elects(2) [OF two_terms_lead(2)]
    by blast
qed

theorem two_leaders_witness:
  "\<exists>S. elects (two_pods (30 * second)) S \<and> leading (candidates S ''a'') \<and> leading (candidates S ''b'')"
  by (rule two_leaders) (simp add: second_def)

end
