(* ===== verification/Attempts.thy ===== *)
theory Attempts
  imports Election_Props
begin

section \<open>Attempts at a lock that answers\<close>

text \<open>Whether an attempt that begins at \<open>start\<close> and finds \<open>cont\<close> at \<open>t\<close> takes the lock, and the
  record it writes then.\<close>

definition takes ::
    "LeaderElectionConfig \<Rightarrow> LeaderElector \<Rightarrow> error + LeaderElectionRecord \<Rightarrow> Time \<Rightarrow> Time \<Rightarrow> bool" where
  "takes lec le cont start t =
     (case cont of
        Inl err \<Rightarrow> IsNotFound err
      | Inr old \<Rightarrow> \<not> held_by_other lec (observe old t le) old start)"

definition written ::
    "LeaderElectionConfig \<Rightarrow> error + LeaderElectionRecord \<Rightarrow> Time \<Rightarrow> LeaderElectionRecord" where
  "written lec cont start =
     (case cont of
        Inl err \<Rightarrow> fresh_record lec start
      | Inr old \<Rightarrow> next_record lec old (fresh_record lec start))"

text \<open>
  \<open>lock_contract\<close> is what \<open>tryAcquireOrRenew\<close> expects of a lock that answers and that nobody else
  changes meanwhile: it reads its \<open>content\<close>, creates it when there is none, and updates it once it
  has been \<open>seen\<close>. \<open>EndpointsLock\<close> keeps it over the server of \<open>Candidates\<close>, and the steps of an
  undisturbed attempt there are one call of \<open>tryAcquireOrRenew\<close>.
\<close>

locale lock_contract =
  fixes L :: "'s resource_lock"
    and content :: "'s \<Rightarrow> error + LeaderElectionRecord"
    and seen :: "'s \<Rightarrow> bool"
  assumes reads: "lock_Get L s = (got, s1) \<Longrightarrow>
      got = content s \<and> content s1 = content s \<and> (\<forall>r. content s = Inr r \<longrightarrow> seen s1)"
    and creates: "content s = Inl err \<Longrightarrow> IsNotFound err \<Longrightarrow> lock_Create L r s = (err2, s1) \<Longrightarrow>
      err2 = None \<and> content s1 = Inr (wire_record r)"
    and updates: "content s = Inr old \<Longrightarrow> seen s \<Longrightarrow> lock_Update L r s = (err2, s1) \<Longrightarrow>
      err2 = None \<and> content s1 = Inr (wire_record r)"
begin

lemma attempt_cases:
  assumes "tryAcquireOrRenew L lec le s = (ok, le', s')"
  shows "ok = takes lec le (content s) (lock_clock L s) (lock_clock L (snd (lock_Get L s)))"
    and "ok \<Longrightarrow> content s' = Inr (wire_record (written lec (content s) (lock_clock L s))) \<and>
      observedRecord le' = written lec (content s) (lock_clock L s) \<and> IsLeader lec le'"
    and "\<not> ok \<Longrightarrow> content s' = content s"
proof -
  obtain got s1 where s1: "lock_Get L s = (got, s1)" by (metis surj_pair)
  have c: "got = content s" "content s1 = content s" "\<And>r. content s = Inr r \<Longrightarrow> seen s1"
    using reads [OF s1] by auto
  have "ok = takes lec le (content s) (lock_clock L s) (lock_clock L s1) \<and>
    (ok \<longrightarrow> content s' = Inr (wire_record (written lec (content s) (lock_clock L s))) \<and>
      observedRecord le' = written lec (content s) (lock_clock L s) \<and> IsLeader lec le') \<and>
    (\<not> ok \<longrightarrow> content s' = content s)"
  proof (cases "content s")
    case (Inl err)
    obtain err2 s2 where s2: "lock_Create L (fresh_record lec (lock_clock L s)) s1 = (err2, s2)"
      by (metis surj_pair)
    have created: "err2 = None \<and> content s2 = Inr (wire_record (fresh_record lec (lock_clock L s)))"
      if "IsNotFound err" using creates [OF _ that s2] c(2) Inl by simp
    show ?thesis using assms Inl c(1,2) created
      by (auto simp: tryAcquireOrRenew_def s1 s2 takes_def written_def acknowledged_def IsLeader_def
          Let_def split: if_splits)
  next
    case (Inr old)
    obtain err2 s2 where s2: "lock_Update L (next_record lec old (fresh_record lec (lock_clock L s))) s1 =
        (err2, s2)" by (metis surj_pair)
    have "err2 = None \<and> content s2 =
        Inr (wire_record (next_record lec old (fresh_record lec (lock_clock L s))))"
      using updates [OF _ _ s2] c(2,3) Inr by simp
    then show ?thesis using assms Inr c(1,2)
      by (auto simp: tryAcquireOrRenew_def s1 s2 takes_def written_def acknowledged_def IsLeader_def
          Let_def split: if_splits)
  qed
  then show "ok = takes lec le (content s) (lock_clock L s) (lock_clock L (snd (lock_Get L s)))"
    and "ok \<Longrightarrow> content s' = Inr (wire_record (written lec (content s) (lock_clock L s))) \<and>
      observedRecord le' = written lec (content s) (lock_clock L s) \<and> IsLeader lec le'"
    and "\<not> ok \<Longrightarrow> content s' = content s" by (simp_all add: s1)
qed

end

subsection \<open>The server answers\<close>

text \<open>
  The client of candidate \<open>c\<close> when the server answers every call: its world is the time and the
  object, and a call takes \<open>d1\<close> (a read) or \<open>d2\<close> (a write).
\<close>

definition not_found :: error where
  "not_found = StatusError ''NotFound'' ''endpoints not found''"

definition store_client ::
    "setting \<Rightarrow> string \<Rightarrow> int \<Rightarrow> int \<Rightarrow> (int \<times> Endpoints option) endpoints_client" where
  "store_client E c d1 d2 =
     \<lparr>endpoints_Get = \<lambda>(t, obj).
        (case obj of None \<Rightarrow> (new_endpoints, Some not_found) | Some e \<Rightarrow> (e, None), (t + d1, obj)),
      endpoints_Create = \<lambda>a (t, obj).
        (case obj of
           None \<Rightarrow> let e = \<lparr>ep_Version = 1, ep_annotation = a\<rparr> in ((e, None), (t + d2, Some e))
         | Some _ \<Rightarrow> ((new_endpoints, Some (StatusError ''AlreadyExists'' [])), (t + d2, obj))),
      endpoints_Update = \<lambda>e (t, obj).
        (case obj of
           None \<Rightarrow> ((new_endpoints, Some not_found), (t + d2, obj))
         | Some e' \<Rightarrow>
             if ep_Version e = ep_Version e'
             then let e2 = e\<lparr>ep_Version := Suc (ep_Version e)\<rparr> in ((e2, None), (t + d2, Some e2))
             else ((new_endpoints, Some (StatusError ''Conflict'' [])), (t + d2, obj))),
      time_Now = \<lambda>(t, obj). time_at E c t\<rparr>"

definition stored :: "Endpoints option \<times> int \<times> Endpoints option \<Rightarrow> error + LeaderElectionRecord" where
  "stored st =
     (case snd (snd st) of None \<Rightarrow> Inl not_found | Some e \<Rightarrow> unmarshal_record e)"

lemma not_found_IsNotFound [simp]: "IsNotFound not_found"
  by (simp add: not_found_def)

lemma stored_Inl: "stored (el, t, obj) = Inl err \<Longrightarrow> IsNotFound err \<Longrightarrow> obj = None"
  by (auto simp: stored_def unmarshal_record_def split: option.splits annotation.splits)

interpretation endpoints_lock: lock_contract "EndpointsLock (store_client E c d1 d2)" stored
    "\<lambda>st. fst st = snd (snd st)" for E c d1 d2
proof unfold_locales
  fix s s1 :: "Endpoints option \<times> int \<times> Endpoints option" and r err err2 old
  obtain el t obj where s: "s = (el, t, obj)" by (metis surj_pair)
  show "got = stored s \<and> stored s1 = stored s \<and> (\<forall>r. stored s = Inr r \<longrightarrow> fst s1 = snd (snd s1))"
    if "lock_Get (EndpointsLock (store_client E c d1 d2)) s = (got, s1)" for got
    using that by (auto simp: s EndpointsLock_def EndpointsLock_Get_def store_client_def stored_def
        split: option.splits)
  show "err2 = None \<and> stored s1 = Inr (wire_record r)"
    if "stored s = Inl err" "IsNotFound err"
      "lock_Create (EndpointsLock (store_client E c d1 d2)) r s = (err2, s1)"
    using that(3) stored_Inl [OF that(1) [unfolded s] that(2)]
    by (auto simp: s EndpointsLock_def EndpointsLock_Create_def store_client_def stored_def
        unmarshal_record_def Let_def)
  show "err2 = None \<and> stored s1 = Inr (wire_record r)"
    if "stored s = Inr old" "fst s = snd (snd s)"
      "lock_Update (EndpointsLock (store_client E c d1 d2)) r s = (err2, s1)"
    using that by (auto simp: s EndpointsLock_def EndpointsLock_Update_def store_client_def stored_def
        unmarshal_record_def Let_def split: option.splits)
qed

subsection \<open>What an attempt does\<close>

text \<open>C13: with a server that answers, an attempt takes the lock exactly when there is no record, or it
  is the candidate's own, or it has been observed unchanged for \<open>LeaseDuration\<close> when the attempt
  begins; the record then names the candidate and the beginning of the attempt, keeps the time of
  acquisition of a lock that is renewed and counts a transition otherwise. Else nothing is written.\<close>

theorem lock_taken_iff:
  assumes "tryAcquireOrRenew (EndpointsLock (store_client E c d1 d2)) (lec_of E c) le (el, T, obj) =
    (ok, le', el', T', obj')"
  shows "(ok \<longleftrightarrow>
      (case obj of
         None \<Rightarrow> True
       | Some e \<Rightarrow>
           (case unmarshal_record e of
              Inl err \<Rightarrow> False
            | Inr old \<Rightarrow>
                HolderIdentity old = c \<or>
                (if observedRecord le = old
                 then \<not> time_After (time_Add (observedTime le) (LeaseDuration (durations E))) (time_at E c T)
                 else clock_of E c (T + d1) + LeaseDuration (durations E) \<le> clock_of E c T)))) \<and>
    (ok \<longrightarrow> IsLeader (lec_of E c) le' \<and>
      (\<exists>r. stored (el', T', obj') = Inr r \<and> HolderIdentity r = c \<and>
        RenewTime r = wire_time (time_at E c T) \<and>
        (case stored (el, T, obj) of
           Inl err \<Rightarrow> AcquireTime r = RenewTime r \<and> LeaderTransitions r = 0
         | Inr old \<Rightarrow>
             if HolderIdentity old = c
             then AcquireTime r = wire_time (AcquireTime old) \<and>
                  LeaderTransitions r = LeaderTransitions old
             else AcquireTime r = RenewTime r \<and>
                  LeaderTransitions r = LeaderTransitions old + 1))) \<and>
    (\<not> ok \<longrightarrow> stored (el', T', obj') = stored (el, T, obj))"
proof -
  let ?L = "EndpointsLock (store_client E c d1 d2)" and ?s = "(el, T, obj)"
  note cases = endpoints_lock.attempt_cases [OF assms]
  have start: "lock_clock ?L ?s = time_at E c T"
    "lock_clock ?L (snd (lock_Get ?L ?s)) = time_at E c (T + d1)"
    by (auto simp: EndpointsLock_def EndpointsLock_Get_def store_client_def split: option.splits)
  have after: "time_After (time_Add (time_at E c (T + d1)) d) (time_at E c T) \<longleftrightarrow>
      clock_of E c T < clock_of E c (T + d1) + d" for d
    by (auto simp: time_After_def time_Add_def)
  have parse: "unmarshal_record e = Inl err \<Longrightarrow> \<not> IsNotFound err" for e err
    by (auto simp: unmarshal_record_def split: annotation.splits)
  have "ok \<longleftrightarrow> takes (lec_of E c) le (stored ?s) (time_at E c T) (time_at E c (T + d1))"
    using cases(1) by (simp only: start)
  then have 1: "ok \<longleftrightarrow> (case obj of None \<Rightarrow> True | Some e \<Rightarrow> (case unmarshal_record e of
              Inl err \<Rightarrow> False
            | Inr old \<Rightarrow> HolderIdentity old = c \<or>
                (if observedRecord le = old
                 then \<not> time_After (time_Add (observedTime le) (LeaseDuration (durations E))) (time_at E c T)
                 else clock_of E c (T + d1) + LeaseDuration (durations E) \<le> clock_of E c T)))"
    using parse after by (auto simp: takes_def stored_def held_by_other_def observe_def
        split: option.splits sum.splits)
  have 2: "\<exists>r. stored (el', T', obj') = Inr r \<and> HolderIdentity r = c \<and>
        RenewTime r = wire_time (time_at E c T) \<and>
        (case stored ?s of
           Inl err \<Rightarrow> AcquireTime r = RenewTime r \<and> LeaderTransitions r = 0
         | Inr old \<Rightarrow>
             if HolderIdentity old = c
             then AcquireTime r = wire_time (AcquireTime old) \<and>
                  LeaderTransitions r = LeaderTransitions old
             else AcquireTime r = RenewTime r \<and>
                  LeaderTransitions r = LeaderTransitions old + 1)" if ok
    using cases(2) [OF that] by (cases "stored ?s")
      (simp_all add: start written_def next_record_def fresh_record_def)
  show ?thesis using 1 2 cases(2,3) by blast
qed

text \<open>The second pod finds a lease of the first that has expired.\<close>

definition old_lease :: LeaderElectionRecord where
  "old_lease = \<lparr>HolderIdentity = ''a'', LeaseDurationSeconds = 15,
     AcquireTime = \<lparr>wall = 7 * second, mono = None\<rparr>, RenewTime = \<lparr>wall = 9 * second, mono = None\<rparr>,
     LeaderTransitions = 3\<rparr>"

definition watching :: "int \<Rightarrow> LeaderElector" where
  "watching t = \<lparr>observedRecord = old_lease, observedTime = \<lparr>wall = t, mono = Some t\<rparr>,
     reportedLeader = ''a''\<rparr>"

theorem lock_taken_iff_witness:
  "fst (tryAcquireOrRenew (EndpointsLock (store_client (two_pods second) ''b'' 1 1))
     (lec_of (two_pods second) ''b'') (watching (5000000 * second))
     (None, 15 * second, Some \<lparr>ep_Version = 7, ep_annotation = Holds old_lease\<rparr>))"
  using lock_taken_iff [of "two_pods second" "''b''" 1 1 "watching (5000000 * second)" None "15 * second"
      "Some \<lparr>ep_Version = 7, ep_annotation = Holds old_lease\<rparr>"]
  by (cases "tryAcquireOrRenew (EndpointsLock (store_client (two_pods second) ''b'' 1 1))
     (lec_of (two_pods second) ''b'') (watching (5000000 * second))
     (None, 15 * second, Some \<lparr>ep_Version = 7, ep_annotation = Holds old_lease\<rparr>)")
    (simp add: unmarshal_record_def watching_def two_pods_def time_After_def
      time_Add_def second_def)

text \<open>An attempt at the lock of the store, step by step.\<close>

lemma unmarshal_record_Inl: "unmarshal_record e = Inl err \<Longrightarrow> \<not> IsNotFound err"
  by (auto simp: unmarshal_record_def split: annotation.splits)

lemma attempt_creates:
  "tryAcquireOrRenew (EndpointsLock (store_client E c d1 d2)) lec le (el, T, None) =
     (let ler = fresh_record lec (time_at E c T);
          obj = Some \<lparr>ep_Version = 1, ep_annotation = Holds (wire_record ler)\<rparr>
      in (True, acknowledged ler (time_at E c (T + d1 + d2)) le, obj, T + d1 + d2, obj))"
  by (simp add: tryAcquireOrRenew_def EndpointsLock_def EndpointsLock_Get_def
      EndpointsLock_Create_def store_client_def Let_def)

lemma attempt_cannot_read:
  assumes "unmarshal_record e = Inl err"
  shows "tryAcquireOrRenew (EndpointsLock (store_client E c d1 d2)) lec le (el, T, Some e) =
    (False, le, Some e, T + d1, Some e)"
  using unmarshal_record_Inl [OF assms] assms
  by (simp add: tryAcquireOrRenew_def EndpointsLock_def EndpointsLock_Get_def store_client_def Let_def)

lemma attempt_updates:
  assumes "unmarshal_record e = Inr old" "observe old (time_at E c (T + d1)) le = le1"
  shows "tryAcquireOrRenew (EndpointsLock (store_client E c d1 d2)) lec le (el, T, Some e) =
    (if held_by_other lec le1 old (time_at E c T) then (False, le1, Some e, T + d1, Some e)
     else (let ler = next_record lec old (fresh_record lec (time_at E c T));
               obj = Some \<lparr>ep_Version = Suc (ep_Version e), ep_annotation = Holds (wire_record ler)\<rparr>
           in (True, acknowledged ler (time_at E c (T + d1 + d2)) le1, obj, T + d1 + d2, obj)))"
  using assms by (simp add: tryAcquireOrRenew_def EndpointsLock_def EndpointsLock_Get_def
      EndpointsLock_Update_def store_client_def Let_def)

lemmas attempt_steps = attempt_creates attempt_cannot_read attempt_updates [OF _ refl]

lemma undisturbed_write:
  assumes "play E [Passes d2, Write_served c, Acknowledged c] S1 = Some S2"
    and "phase (candidates S1 c) = Writing w"
  shows "elapsed S2 = elapsed S1 + d2 \<and> object S2 = object (carry_out w S1) \<and>
    leading (candidates S2 c) \<and> elector (candidates S2 c) = fst (maybeReportTransition False
      (acknowledged (w_record w) (time_at E c (elapsed S1 + d2)) (elector (candidates S1 c))))"
  using assms by (auto simp: running_candidate_def carry_out_def attempt_succeeded_def
      split: if_splits)

text \<open>What an attempt that has read the object without being disturbed does next.\<close>

lemma undisturbed_read:
  assumes "play E [Begins final c, Passes d1, Get_served c, Answered c] S = Some S1"
  shows "elapsed S1 = elapsed S + d1" and "object S1 = object S"
    and "candidates S1 c = decide E c (elapsed S + d1) (object S)
      ((begin_attempt final (elapsed S) (candidates S c))\<lparr>phase := Got (object S)\<rparr>)"
  using assms by (auto simp: running_candidate_def split: if_splits)

lemma decide_write:
  assumes "decide E c t reply p = q"
  shows "phase q = Writing w \<Longrightarrow> phase p = Got reply \<Longrightarrow> w_base w = map_option ep_Version reply"
  using assms by (auto simp: decide_def attempt_failed_def ended_def Let_def
      split: option.splits sum.splits if_splits)

text \<open>C19: an attempt of a candidate that nobody disturbs is one call of \<open>tryAcquireOrRenew\<close> on the lock
  in the object: same result, same times, same object, and the same of what the elector knows.\<close>

theorem attempt_is_tryAcquireOrRenew:
  assumes "play E [Begins final c, Passes d1, Get_served c, Answered c] S = Some S1"
    and "tryAcquireOrRenew (EndpointsLock (store_client E c d1 d2)) (lec_of E c)
      (elector (candidates S c)) (el, elapsed S, object S) = (ok, le, el', t, obj)"
  shows "if ok
    then (\<exists>w. phase (candidates S1 c) = Writing w \<and> applicable w S1) \<and>
      (\<forall>S2. play E [Passes d2, Write_served c, Acknowledged c] S1 = Some S2 \<longrightarrow>
         elapsed S2 = t \<and> object S2 = obj \<and> leading (candidates S2 c) \<and>
         elector (candidates S2 c) = fst (maybeReportTransition False le))
    else elapsed S1 = t \<and> object S1 = obj \<and>
      candidates S1 c = attempt_failed E c t ((begin_attempt final (elapsed S) (candidates S c))
        \<lparr>phase := Got (object S), elector := le\<rparr>)"
proof -
  let ?p = "(begin_attempt final (elapsed S) (candidates S c))\<lparr>phase := Got (object S)\<rparr>"
  let ?start = "time_at E c (elapsed S)"
  note S1 = undisturbed_read [OF assms(1)]
  have same: "?p\<lparr>elector := elector (candidates S c)\<rparr> = ?p" by (simp add: begin_attempt_def)
  have wins: ?thesis
    if w: "phase (candidates S1 c) = Writing w" and ok: "ok" and eqs: "t = elapsed S1 + d2"
      "obj = object (carry_out w S1)"
      "le = acknowledged (w_record w) (time_at E c (elapsed S1 + d2)) (elector (candidates S1 c))" for w
  proof -
    have "applicable w S1"
      unfolding applicable_def S1(2) by (rule decide_write [OF S1(3) [symmetric] w]) simp
    then show ?thesis
      unfolding if_P [OF ok] eqs using w undisturbed_write [OF _ w] by blast
  qed
  have fails: ?thesis if "\<not> ok" "t = elapsed S1" "obj = object S"
      "candidates S1 c = attempt_failed E c (elapsed S1) (?p\<lparr>elector := le\<rparr>)"
    using that S1(2) by simp
  show ?thesis
  proof (cases "object S")
    case None
    have w: "phase (candidates S1 c) = Writing \<lparr>w_by = c, w_base = None,
        w_record = fresh_record (lec_of E c) ?start, w_start = elapsed S\<rparr>"
      and el: "elector (candidates S1 c) = elector (candidates S c)"
      unfolding S1(3) by (simp_all add: None decide_def begin_attempt_def)
    show ?thesis
      by (rule wins [OF w])
        (use assms(2) in \<open>auto simp: None attempt_creates Let_def carry_out_def S1(1,2) el\<close>)
  next
    case (Some e)
    show ?thesis
    proof (cases "unmarshal_record e")
      case (Inl err)
      have "candidates S1 c = attempt_failed E c (elapsed S1) ?p"
        unfolding S1(1,3) by (simp add: decide_def Some Inl)
      then show ?thesis
        by (intro fails) (use assms(2) same in \<open>auto simp: Some attempt_cannot_read [OF Inl] S1(1)\<close>)
    next
      case (Inr old)
      define le1 where "le1 = observe old (time_at E c (elapsed S + d1)) (elector (candidates S c))"
      note updates = attempt_updates [OF Inr le1_def [symmetric]]
      show ?thesis
      proof (cases "held_by_other (lec_of E c) le1 old ?start")
        case True
        have "candidates S1 c = attempt_failed E c (elapsed S1) (?p\<lparr>elector := le1\<rparr>)"
          unfolding S1(1,3) using True
          by (simp add: decide_def Some Inr Let_def le1_def begin_attempt_def)
        then show ?thesis
          by (intro fails) (use assms(2) True in \<open>auto simp: Some updates S1(1)\<close>)
      next
        case False
        have w: "phase (candidates S1 c) = Writing \<lparr>w_by = c, w_base = Some (ep_Version e),
            w_record = next_record (lec_of E c) old (fresh_record (lec_of E c) ?start),
            w_start = elapsed S\<rparr>"
          and el: "elector (candidates S1 c) = le1"
          unfolding S1(3) using False
          by (simp_all add: decide_def Some Inr Let_def le1_def begin_attempt_def)
        show ?thesis
          by (rule wins [OF w])
            (use assms(2) False in \<open>auto simp: Some updates Let_def carry_out_def S1(1,2) el\<close>)
      qed
    qed
  qed
qed

definition one_started :: election where
  "one_started = the (play (two_pods second) [Started ''a''] nobody)"

definition first_read :: "election_event list" where
  "first_read = [Begins False ''a'', Passes 5, Get_served ''a'', Answered ''a'']"

lemma one_started_reads:
  "\<not> Option.is_none (play (two_pods second) first_read one_started)" "object one_started = None"
  by code_simp+

theorem attempt_is_tryAcquireOrRenew_witness:
  "\<exists>S1 w. play (two_pods second) first_read one_started = Some S1 \<and>
     phase (candidates S1 ''a'') = Writing w \<and> applicable w S1"
proof -
  obtain S1 where S1: "play (two_pods second) first_read one_started = Some S1"
    using one_started_reads(1) by (auto simp: Option.is_none_def)
  show ?thesis
    using attempt_is_tryAcquireOrRenew [OF S1 [unfolded first_read_def],
        unfolded one_started_reads(2), OF attempt_creates [unfolded Let_def]] S1
    unfolding if_True by blast
qed

text \<open>C14: a lease that a candidate has observed unchanged for \<open>LeaseDuration\<close> is taken over by its next
  attempt that is served, which makes it the leader and counts a transition.\<close>

theorem standby_takes_over:
  assumes "c \<in> set (identities E)" "c \<noteq> []"
    and "phase (candidates S c) = Waiting" "\<not> leading (candidates S c)"
      "not_before (candidates S c) \<le> clock_of E c (elapsed S)"
    and "object S = Some e" "ep_annotation e = Holds r" "HolderIdentity r \<noteq> c"
    and "observedRecord (elector (candidates S c)) = r"
      "mono (observedTime (elector (candidates S c))) = Some t"
      "t + LeaseDuration (durations E) \<le> clock_of E c (elapsed S)"
  shows "\<exists>S' e' r'. play E (wins c @ [Acknowledged c]) S = Some S' \<and> elapsed S' = elapsed S \<and>
    leading (candidates S' c) \<and> IsLeader (lec_of E c) (elector (candidates S' c)) \<and>
    object S' = Some e' \<and> ep_annotation e' = Holds r' \<and> HolderIdentity r' = c \<and>
    LeaderTransitions r' = LeaderTransitions r + 1"
proof -
  have free: "\<not> held_by_other (lec_of E c) (elector (candidates S c)) r (time_at E c (elapsed S))"
    using assms(10,11) by (simp add: held_by_other_def time_After_def time_Add_def)
  have same: "observe r (time_at E c (elapsed S)) (elector (candidates S c)) = elector (candidates S c)"
    using assms(9) by (simp add: observe_def)
  have begins: "may_begin E c False (elapsed S) (candidates S c)"
    using assms(3-5) by (simp add: may_begin_def)
  show ?thesis
    using assms(1-8) free same begins
    by (simp add: wins_def running_candidate_def begin_attempt_def decide_def unmarshal_holds Let_def
        applicable_def carry_out_def attempt_succeeded_def maybeReportTransition_def
        acknowledged_def IsLeader_def next_record_def fresh_record_def)
qed

text \<open>The second pod has observed the lease of the first; the first is gone, and the lease runs out.\<close>

definition abandoned_lock :: election where
  "abandoned_lock = the (play (two_pods second)
     (Started ''a'' # wins ''a'' @ [Acknowledged ''a'', Started ''b'', Begins False ''b'',
      Get_served ''b'', Answered ''b'', Passes second, Crashed ''a'', Passes (14 * second)]) nobody)"

definition lease_of_a :: LeaderElectionRecord where
  "lease_of_a = \<lparr>HolderIdentity = ''a'', LeaseDurationSeconds = 15,
     AcquireTime = \<lparr>wall = 1000000 * second, mono = None\<rparr>,
     RenewTime = \<lparr>wall = 1000000 * second, mono = None\<rparr>, LeaderTransitions = 0\<rparr>"

lemma abandoned_lock:
  "phase (candidates abandoned_lock ''b'') = Waiting" "\<not> leading (candidates abandoned_lock ''b'')"
  "not_before (candidates abandoned_lock ''b'') \<le>
     clock_of (two_pods second) ''b'' (elapsed abandoned_lock)"
  "object abandoned_lock = Some \<lparr>ep_Version = 1, ep_annotation = Holds lease_of_a\<rparr>"
  "observedRecord (elector (candidates abandoned_lock ''b'')) = lease_of_a"
  "mono (observedTime (elector (candidates abandoned_lock ''b''))) = Some (5000000 * second)"
  "5000000 * second + LeaseDuration (durations (two_pods second)) \<le>
     clock_of (two_pods second) ''b'' (elapsed abandoned_lock)"
  by code_simp+

theorem standby_takes_over_witness:
  "\<exists>S'. play (two_pods second) (wins ''b'' @ [Acknowledged ''b'']) abandoned_lock = Some S' \<and>
     leading (candidates S' ''b'')"
  using standby_takes_over [of "''b''" "two_pods second" abandoned_lock, OF _ _ abandoned_lock(1-4) _ _
      abandoned_lock(5-7)]
  by (fastforce simp: two_pods_def lease_of_a_def)

end
