(* ===== verification/Double_Fencing.thy ===== *)
theory Double_Fencing
  imports Fencing_Handler_Props
begin

section \<open>A request that is handled twice at the same time\<close>

text \<open>
  Between the check and the creation of a job another handling of the same request can fall, by
  another goroutine or by a second leader (\<open>Election_Props.two_leaders\<close>) whose cache holds the same
  configurations.
\<close>

lemma createFencingJob_labels:
  "createFencingJob \<rho> req cfg m = Inr (None, Some j) \<Longrightarrow>
   Labels (j_ObjectMeta j) = Some (JobLabels req (fm_Name m)) \<and>
   OwnerReferences (j_ObjectMeta j) = [NewControllerRef req]"
  by (auto simp: createFencingJob_def split: sum.splits option.splits prod.splits)

lemma assigned_config_world [simp]:
  "assigned_config req (s\<lparr>world := w\<rparr>) = assigned_config req s"
  by (simp add: assigned_config_def)

text \<open>C7: two processes that handle the same open request, as two leaders do, each with the
  configuration in its cache, both create a job for it when the second handles it between the check
  and the creation of the first: each finds the method idle, and the server creates what it is
  asked for. The target is powered off twice.\<close>

theorem request_fenced_twice:
  assumes "\<not> Complete (Status req)" "ActiveMethod (Status req) = None"
    and "assigned_config req a = Some cfg" "assigned_config req b = Some cfg" "Methods cfg = m # ms"
    and "isFencingMethodActive K (sub \<rho> 2) req m a = (False, a1)"
    and "isFencingMethodActive K (sub \<rho>' 2) req m (b\<lparr>world := world a1\<rparr>) = (False, b1)"
    and "createFencingJob (sub \<rho> 3) req cfg m = Inr (None, Some j)"
    and "createFencingJob (sub \<rho>' 3) req cfg m = Inr (None, Some j')"
    and "\<forall>job w. fst (fst (create_job K job w)) = None"
  shows "\<exists>x r b2 r' a2.
    HandleFencingRequest_check K \<rho> req False a = Returned (Inr x) a1 \<and>
    HandleFencingRequest K \<rho>' req False (b\<lparr>world := world a1\<rparr>) = Returned (None, r) b2 \<and>
    HandleFencingRequest_start K \<rho> x (a1\<lparr>world := world b2\<rparr>) = Returned (None, r') a2 \<and>
    CreateJob j \<in> set (new_calls a a2) \<and> CreateJob j' \<in> set (new_calls b b2) \<and>
    Labels (j_ObjectMeta j) = Labels (j_ObjectMeta j') \<and>
    OwnerReferences (j_ObjectMeta j) = OwnerReferences (j_ObjectMeta j')"
proof -
  let ?b = "b\<lparr>world := world a1\<rparr>"
  have creates: "\<exists>j2 w2. create_job K i w = ((None, j2), w2)" for i w
    using assms(10) by (metis prod.collapse)
  let ?k = "the (FencingRequestStatus.Config (Status req))"
  have m: "chooseFencingMethod K \<rho>'' req cfg s = ((None, Some (0, m), ms = []), s)" for \<rho>'' s
    using assms(2,5) by (simp add: chooseFencingMethod_def)
  let ?x = "(req, None, (?k, cfg), (0, m), ms = [])"
  have check: "HandleFencingRequest_check K \<rho> req False a = Returned (Inr ?x) a1"
    by (rule HandleFencingRequest_check_run [OF assms(1,3) m assms(6)])
  have other: "HandleFencingRequest_check K \<rho>' req False ?b = Returned (Inr ?x) b1"
    by (rule HandleFencingRequest_check_run [OF assms(1) _ m assms(7)]) (simp add: assms(4))
  obtain jb wb where "create_job K j' (world b1) = ((None, jb), wb)" using creates by blast
  from HandleFencingRequest_start_run [OF assms(9) this]
  obtain r b2 rb where b2: "HandleFencingRequest_start K \<rho>' ?x b1 = Returned (None, r) b2"
    "calls b2 = calls b1 @ [CreateJob j', UpdateRequest rb]" by blast
  have run: "HandleFencingRequest K \<rho>' req False ?b = Returned (None, r) b2"
    unfolding HandleFencingRequest_steps other by (simp add: b2(1))
  let ?a = "a1\<lparr>world := world b2\<rparr>"
  obtain ja wa where "create_job K j (world ?a) = ((None, ja), wa)" using creates by blast
  from HandleFencingRequest_start_run [OF assms(8) this]
  obtain r' a2 ra where a2: "HandleFencingRequest_start K \<rho> ?x ?a = Returned (None, r') a2"
    "calls a2 = calls ?a @ [CreateJob j, UpdateRequest ra]" by blast
  have "calls b1 = calls b @ new_calls ?b b1"
    using calls_ext [OF only_ext [OF reads_isFencingMethodActive [of ?b K "sub \<rho>' 2" req m]]]
    by (simp add: assms(7))
  then have "CreateJob j' \<in> set (new_calls b b2)" using new_calls_append [OF _ b2(2)] by simp
  moreover have "calls a1 = calls a @ new_calls a a1"
    using calls_ext [OF only_ext [OF reads_isFencingMethodActive [of a K "sub \<rho> 2" req m]]]
    by (simp add: assms(6))
  then have "CreateJob j \<in> set (new_calls a a2)"
    using new_calls_append [of ?a a "new_calls a a1", OF _ a2(2)] by simp
  ultimately show ?thesis
    using check run a2(1) createFencingJob_labels [OF assms(8)] createFencingJob_labels [OF assms(9)]
    by (intro exI conjI) simp_all
qed

text \<open>The sample request, and a server that lists no running job.\<close>

theorem request_fenced_twice_witness:
  "\<exists>x a1 b2 r. HandleFencingRequest_check quiet in_order (assigned_request None) False
      (open_state [sample_method ''m1'']) = Returned (Inr x) a1 \<and>
    HandleFencingRequest quiet in_order (assigned_request None) False
      ((open_state [sample_method ''m1''])\<lparr>world := world a1\<rparr>) = Returned (None, r) b2"
proof -
  let ?s = "open_state [sample_method ''m1'']" and ?r = "assigned_request None"
  obtain a1 where a: "isFencingMethodActive quiet (sub in_order 2) ?r (sample_method ''m1'') ?s =
      (False, a1)" using sample_inactive by blast
  obtain b1 where b: "isFencingMethodActive quiet (sub in_order 2) ?r (sample_method ''m1'')
      (?s\<lparr>world := world a1\<rparr>) = (False, b1)" using sample_inactive by blast
  obtain j where j: "createFencingJob (sub in_order 3) ?r
      (sample_config ''all'' None [sample_method ''m1'']) (sample_method ''m1'') = Inr (None, Some j)"
    using sample_job by blast
  have m: "Methods (sample_config ''all'' None [sample_method ''m1'']) = [sample_method ''m1'']"
    by (simp add: sample_config_def)
  have K: "\<forall>job w. fst (fst (create_job quiet job w)) = None" by (simp add: sample_created)
  from request_fenced_twice [OF sample_open assigned_sample assigned_sample m a b j j K]
  show ?thesis by blast
qed

end
