(* ===== verification/Shared_Memory_Props.thy ===== *)
theory Shared_Memory_Props
  imports Crashes
begin

section \<open>Answers that change the loaded configurations\<close>

text \<open>
  Two things the server can do to the loaded configurations by answering: an update that comes
  back with another \<open>status.config\<close> renames the configuration that the request points into
  (\<open>req.Status.Config = &chosen.Name\<close>), and a job that comes back with another command replaces
  the configured one (\<open>getContainerCommand\<close> hands out the configuration's own slice).
\<close>

subsection \<open>The run of the handler\<close>

text \<open>
  An open request for which the loop has chosen a configuration, whose first method is idle, and
  whose job is created: all that is written to the cache is written by the two answers.
\<close>

lemma HandleFencingRequest_chosen_run:
  assumes "\<not> Complete (Status req)" and "ActiveMethod (Status req) = None"
    and "chooseFencingConfig K (sub \<rho> 0) req s = Returned ((None, Some (key, cfg)), req1, p) s1"
    and "Methods cfg = m # ms"
    and "isFencingMethodActive K (sub \<rho> 2) req1 m s1 = (False, s2)"
    and "createFencingJob (sub \<rho> 3) req1 cfg m = Inr (None, Some j)"
    and "create_job K j (world s2) = ((None, j'), w)"
  shows "\<exists>t r w'. HandleFencingRequest K \<rho> req False s = Returned (None, snd (fst (update_request K r w'))) t \<and>
    FencingRequestStatus.Config (Status r) = FencingRequestStatus.Config (Status req1) \<and>
    fencingConfigs t = fencingConfigs (through_pointer p
      (FencingRequestStatus.Config (Status (snd (fst (update_request K r w')))))
      (through_slices K key 0 j j' s))"
proof -
  have a: "ActiveMethod (Status req1) = None"
    using chooseFencingConfig_result [OF assms(3)] assms(2) by auto
  have pick: "chooseFencingMethod K (sub \<rho> 1) req1 cfg s1 = ((None, Some (0, m), ms = []), s1)"
    by (rule chooseFencingMethod_first [OF a assms(4)])
  have same: "fencingConfigs s2 = fencingConfigs s"
    using fencingConfigs_ext [OF only_ext [OF reads_chooseFencingConfig [of s K "sub \<rho> 0" req]]]
      fencingConfigs_ext [OF only_ext [OF reads_isFencingMethodActive [of s1 K "sub \<rho> 2" req1 m]]]
    by (simp add: assms(3,5))
  let ?req = "req1\<lparr>Status := (Status req1)\<lparr>ActiveJob := Some (Name (j_ObjectMeta j'))\<rparr>\<rparr>"
  let ?e = "Some (Errorf (fm_Name m @ '' initiated as '' @ Name (j_ObjectMeta j')))"
  define s3 where "s3 = through_slices K key 0 j j' (note_call (CreateJob j) (s2\<lparr>world := w\<rparr>))"
  have c: "action_Create_job K (key, 0) j s2 = ((None, j'), s3)"
    by (simp add: action_Create_job_def perform_def assms(7) s3_def)
  obtain tm s4 where n: "now K s3 = (tm, s4)" by (metis surj_pair)
  let ?r = "with_update ?req (update_entry tm (fm_Name m) MethodProgress ?e)"
  let ?a = "action_Update K p ?r s4"
  have "HandleFencingRequest K \<rho> req False s = Returned (None, snd (fst ?a)) (snd ?a)"
    using assms(1,3,5,6) pick [unfolded One_nat_def]
    by (simp add: HandleFencingRequest_def schedule_job_def HandleFencingRequestError_eq
        create_job_once.backoff_runs_once defaultBackoff_def create_job_closure_def c AddResult_eq n
        split_beta Let_def)
  moreover have "snd (fst ?a) = snd (fst (update_request K ?r (world s4)))"
    by (simp add: action_Update_def perform_def split_beta Let_def)
  moreover have "fencingConfigs s4 = fencingConfigs s3"
    using ext_now [of s3 K] n by (simp add: ext_def)
  then have slices: "fencingConfigs s4 = fencingConfigs (through_slices K key 0 j j' s)"
    by (simp add: s3_def through_slices_def note_call_def same)
  let ?u = "perform (UpdateRequest ?r) (update_request K ?r) s4"
  have "fencingConfigs (snd ?u) = fencingConfigs (through_slices K key 0 j j' s)"
    using fencingConfigs_ext [OF ext_perform] slices by metis
  from through_pointer_cache [OF this]
  have "fencingConfigs (snd ?a) = fencingConfigs (through_pointer p
      (FencingRequestStatus.Config (Status (snd (fst (update_request K ?r (world s4))))))
      (through_slices K key 0 j j' s))"
    by (simp add: action_Update_def perform_def split_beta Let_def)
  moreover have "FencingRequestStatus.Config (Status ?r) = FencingRequestStatus.Config (Status req1)"
    by (simp add: with_update_def)
  ultimately show ?thesis by (intro exI [of _ "snd ?a"] exI [of _ ?r] exI [of _ "world s4"]) simp
qed

text \<open>Which requests point into the cache.\<close>

lemma chooseFencingConfig_pointer:
  assumes "chooseFencingConfig K \<rho> req s = Returned ((e, Some (key, cfg)), req', p) t"
  shows "assigned_config req s = None \<Longrightarrow> p = Some key"
    and "p \<in> {None, Some key}"
    and "p \<noteq> None \<Longrightarrow> FencingRequestStatus.Config (Status req') = Some (Name (cfg_ObjectMeta cfg))"
proof -
  let ?o = "config_loop K (sub \<rho> 1) (Target (Spec req)) 0
    (range_over (sub \<rho> 0) (fencingConfigs s)) (- 1) None s"
  have "(assigned_config req s = None \<longrightarrow> p = Some key) \<and> p \<in> {None, Some key} \<and> (p \<noteq> None \<longrightarrow>
      FencingRequestStatus.Config (Status req') = Some (Name (cfg_ObjectMeta cfg)))"
  proof (cases "assigned_config req s")
    case None
    then show ?thesis using assms
      by (cases ?o) (auto simp: chooseFencingConfig_open split: option.splits)
  qed (use assms in \<open>simp add: chooseFencingConfig_assigned\<close>)
  then show "assigned_config req s = None \<Longrightarrow> p = Some key" and "p \<in> {None, Some key}"
    and "p \<noteq> None \<Longrightarrow> FencingRequestStatus.Config (Status req') = Some (Name (cfg_ObjectMeta cfg))"
    by blast+
qed

lemma cached_entry_at:
  "m_ok cfgs \<Longrightarrow> (key, v) \<in> set cfgs \<Longrightarrow> map_of cfgs key = Some v"
  by (simp add: m_ok_distinct)

subsection \<open>Properties\<close>

text \<open>C8: the answer to the update of a request renames the configuration that was chosen for it: when
  the answer carries \<open>x\<close> as \<open>status.config\<close>, the cached configuration is called \<open>x\<close> afterwards, and no
  other entry changes. Any later request that it is chosen for is then assigned to \<open>x\<close>, by which no
  configuration can be found if none is stored under that name.\<close>

theorem answer_renames_configuration:
  assumes "m_ok (fencingConfigs s)" and "map_of (fencingConfigs s) x = None"
    and "\<not> Complete (Status req)" and "ActiveMethod (Status req) = None"
    and "assigned_config req s = None"
    and "chooseFencingConfig K (sub \<rho> 0) req s = Returned ((None, Some (key, cfg)), req1, p) s1"
    and "Methods cfg = m # ms"
    and "isFencingMethodActive K (sub \<rho> 2) req1 m s1 = (False, s2)"
    and "createFencingJob (sub \<rho> 3) req1 cfg m = Inr (None, Some j)"
    and "create_job K j (world s2) = ((None, j'), w)"
    and "\<forall>r w. FencingRequestStatus.Config (Status (snd (fst (update_request K r w)))) = Some x"
  shows "\<exists>r t c. HandleFencingRequest K \<rho> req False s = Returned (None, r) t \<and>
    map_of (fencingConfigs t) = (map_of (fencingConfigs s))(key \<mapsto> Some c) \<and>
    Name (cfg_ObjectMeta c) = x \<and>
    (\<forall>\<rho>' q e q' u. chooseFencingConfig K \<rho>' q t = Returned ((e, Some (key, c)), q', Some key) u \<longrightarrow>
       FencingRequestStatus.Config (Status q') = Some x \<and> assigned_config q' t = None)"
proof -
  let ?c = "set_config_name x (write_method K 0 j j' cfg)"
  have p: "p = Some key" using chooseFencingConfig_pointer(1) [OF assms(6,5)] .
  have "(key, Some cfg) \<in> set (fencingConfigs s)" using chooseFencingConfig_result [OF assms(6)] by simp
  then have entry: "map_of (fencingConfigs s) key = Some (Some cfg)" by (rule cached_entry_at [OF assms(1)])
  obtain t r w' where run: "HandleFencingRequest K \<rho> req False s =
      Returned (None, snd (fst (update_request K r w'))) t"
    and t: "fencingConfigs t = fencingConfigs (through_pointer p
      (FencingRequestStatus.Config (Status (snd (fst (update_request K r w')))))
      (through_slices K key 0 j j' s))"
    using HandleFencingRequest_chosen_run [OF assms(3,4,6-10)] by blast
  have cache: "map_of (fencingConfigs t) = (map_of (fencingConfigs s))(key \<mapsto> Some ?c)"
    by (simp add: t p assms(11) through_slices_def map_of_m_modify entry)
  moreover have name: "Name (cfg_ObjectMeta ?c) = x" by (simp add: set_config_name_def)
  moreover have "FencingRequestStatus.Config (Status q') = Some x \<and> assigned_config q' t = None"
    if "chooseFencingConfig K \<rho>' q t = Returned ((e, Some (key, ?c)), q', Some key) u" for \<rho>' q e q' u
  proof -
    have q: "FencingRequestStatus.Config (Status q') = Some x"
      using chooseFencingConfig_pointer(3) [OF that] name by simp
    have "x \<noteq> key" using entry assms(2) by auto
    then have "map_of (fencingConfigs t) x = None" by (simp add: cache assms(2))
    then show ?thesis using q by (simp add: assigned_config_def)
  qed
  ultimately show ?thesis using run by blast
qed

text \<open>C30: the answer to the creation of a job replaces the command of the mechanism that it was built
  from: for a method with one mechanism that takes its parameters from the environment, and an answer
  whose container has a command of the same length, the cached configuration keeps the answered
  command, and every job that is built from the method later runs that one.\<close>

theorem answer_rewrites_command:
  assumes "m_ok (fencingConfigs s)"
    and "\<not> Complete (Status req)" and "ActiveMethod (Status req) = None"
    and "chooseFencingConfig K (sub \<rho> 0) req s = Returned ((None, Some (key, cfg)), req1, p) s1"
    and "Methods cfg = m # ms" and "Mechanisms m = [k]" and "mech_Container k = Some c0"
    and "ArgumentFormat k = ''env''"
    and "isFencingMethodActive K (sub \<rho> 2) req1 m s1 = (False, s2)"
    and "createFencingJob (sub \<rho> 3) req1 cfg m = Inr (None, Some j)"
    and "create_job K j (world s2) = ((None, j'), w)"
    and "Containers j' = [c']" and "length (Command c') = length (Command c0)"
  shows "\<exists>r t c m'. HandleFencingRequest K \<rho> req False s = Returned (None, r) t \<and>
    map_of (fencingConfigs t) key = Some (Some c) \<and> Methods c = m' # ms \<and>
    (\<forall>\<rho>' q d i. createFencingJob \<rho>' q d m' = Inr (None, Some i) \<longrightarrow>
       map Command (Containers i) = [Command c'])"
proof -
  have "(key, Some cfg) \<in> set (fencingConfigs s)" using chooseFencingConfig_result [OF assms(4)] by simp
  then have entry: "map_of (fencingConfigs s) key = Some (Some cfg)" by (rule cached_entry_at [OF assms(1)])
  obtain t r w' where run: "HandleFencingRequest K \<rho> req False s =
      Returned (None, snd (fst (update_request K r w'))) t"
    and t: "fencingConfigs t = fencingConfigs (through_pointer p
      (FencingRequestStatus.Config (Status (snd (fst (update_request K r w')))))
      (through_slices K key 0 j j' s))"
    using HandleFencingRequest_chosen_run [OF assms(2,3,4,5,9-11)] by blast
  let ?k = "k\<lparr>mech_Container := Some (c0\<lparr>Command := Command c'\<rparr>)\<rparr>"
  let ?m = "m\<lparr>Mechanisms := [?k]\<rparr>"
  obtain c where sent: "Containers j = [c]"
    using createFencingJob_built [OF assms(10)] by (auto simp: assms(6) list_all2_Cons1)
  have "write_command K k c c' = ?k"
    using assms(13) by (simp add: write_command_def shares_command_def assms(7,8) overwritten_def)
  then have "Methods (write_method K 0 j j' cfg) = ?m # ms"
    by (simp add: write_method_def assms(5,6,12) sent)
  moreover obtain d where "map_of (fencingConfigs t) key = Some (Some d)"
    "Methods d = Methods (write_method K 0 j j' cfg)"
    using chooseFencingConfig_pointer(2) [OF assms(4)] unfolding t by (cases p; cases "FencingRequestStatus.Config (Status (snd (fst (update_request K r w'))))")
      (auto simp: through_slices_def map_of_m_modify entry set_config_name_def)
  moreover have "map Command (Containers i) = [Command c']"
    if "createFencingJob \<rho>' q d' ?m = Inr (None, Some i)" for \<rho>' q d' i
    using createFencingJob_built [OF that] built_env_command [of "Target (Spec q)" ?k]
    by (auto simp: list_all2_Cons1 assms(8))
  ultimately show ?thesis using run by metis
qed

subsection \<open>Witnesses\<close>

text \<open>A server that answers every update with another configuration and every job with another command.\<close>

definition meddling :: "unit api" where
  "meddling = (quiet_api [sample_node ''somehost''] [] [] [])
     \<lparr>update_request := (\<lambda>r w. ((None, r\<lparr>Status := (Status r)\<lparr>Config := Some ''other''\<rparr>\<rparr>), w)),
      create_job := (\<lambda>j w. ((None, j\<lparr>Containers := map (\<lambda>c. c\<lparr>Command := [''/bin/true'']\<rparr>) (Containers j)\<rparr>), w))\<rparr>"

definition env_method :: FencingMethod where
  "env_method = (sample_method ''m1'')\<lparr>Mechanisms := [sample_mechanism ''env'']\<rparr>"

definition env_config :: FencingConfig where
  "env_config = sample_config ''all'' None [env_method]"

definition env_state :: "unit opstate" where
  "env_state = sample_state [(''all'', Some env_config)]"

lemma env_open:
  "m_ok (fencingConfigs env_state)" "map_of (fencingConfigs env_state) ''other'' = None"
  "\<not> Complete (Status (sample_request None))" "ActiveMethod (Status (sample_request None)) = None"
  "assigned_config (sample_request None) env_state = None" "Methods env_config = env_method # []"
  by (simp_all add: env_state_def env_config_def assigned_config_def sample_defs m_ok_def)

lemma env_choice:
  "\<exists>req1 s1. chooseFencingConfig meddling (sub in_order 0) (sample_request None) env_state =
     Returned ((None, Some (''all'', env_config)), req1, Some ''all'') s1"
  by (simp add: chooseFencingConfig_def env_state_def env_config_def meddling_def sample_defs ListNodes_def
      api_defs perform_def note_call_def nodeInList_def)

lemma env_idle: "\<exists>s2. isFencingMethodActive meddling \<rho> req m s = (False, s2)"
  by (simp add: isFencingMethodActive_def ListJobs_def api_defs perform_def meddling_def quiet_api_def Let_def)

lemma env_job:
  assumes "Target (Spec req) = ''somehost''"
  shows "\<exists>j c. createFencingJob \<rho> req d env_method = Inr (None, Some j) \<and> Containers j = [c]"
  by (simp add: createFencingJob_def CreateContainer_def getContainerCommand_def getContainerEnv_def
      env_method_def sample_mechanism_def sample_dynamic_def Lookup_def processSecrets_def
      secrets_loop_eq assms)

text \<open>What both witnesses instantiate: the choice, the idle method, the job and its creation.\<close>

lemma env_run:
  "\<exists>req1 s1 s2 j c.
     chooseFencingConfig meddling (sub in_order 0) (sample_request None) env_state =
       Returned ((None, Some (''all'', env_config)), req1, Some ''all'') s1 \<and>
     isFencingMethodActive meddling (sub in_order 2) req1 env_method s1 = (False, s2) \<and>
     createFencingJob (sub in_order 3) req1 env_config env_method = Inr (None, Some j) \<and>
     create_job meddling j (world s2) =
       ((None, j\<lparr>Containers := [c\<lparr>Command := [''/bin/true'']\<rparr>]\<rparr>), world s2)"
proof -
  obtain req1 s1 where c: "chooseFencingConfig meddling (sub in_order 0) (sample_request None) env_state =
       Returned ((None, Some (''all'', env_config)), req1, Some ''all'') s1" using env_choice by blast
  have "Target (Spec req1) = ''somehost''"
    using chooseFencingConfig_result [OF c] by (auto simp: sample_defs)
  from env_job [OF this] obtain j d where
    "createFencingJob (sub in_order 3) req1 env_config env_method = Inr (None, Some j)"
    "Containers j = [d]" by blast
  moreover from this have "create_job meddling j w =
      ((None, j\<lparr>Containers := [d\<lparr>Command := [''/bin/true'']\<rparr>]\<rparr>), w)" for w
    by (simp add: meddling_def)
  ultimately show ?thesis using c env_idle by blast
qed

theorem answer_renames_configuration_witness:
  "\<exists>r t c. HandleFencingRequest meddling in_order (sample_request None) False env_state =
      Returned (None, r) t \<and>
    map_of (fencingConfigs t) ''all'' = Some (Some c) \<and> Name (cfg_ObjectMeta c) = ''other''"
proof -
  obtain req1 s1 s2 j c where c: "chooseFencingConfig meddling (sub in_order 0) (sample_request None) env_state =
       Returned ((None, Some (''all'', env_config)), req1, Some ''all'') s1"
    and i: "isFencingMethodActive meddling (sub in_order 2) req1 env_method s1 = (False, s2)"
    and j: "createFencingJob (sub in_order 3) req1 env_config env_method = Inr (None, Some j)"
    and cr: "create_job meddling j (world s2) =
       ((None, j\<lparr>Containers := [c\<lparr>Command := [''/bin/true'']\<rparr>]\<rparr>), world s2)" using env_run by blast
  have u: "\<forall>r w. FencingRequestStatus.Config (Status (snd (fst (update_request meddling r w)))) = Some ''other''"
    by (simp add: meddling_def)
  from answer_renames_configuration [OF env_open(1-5) c env_open(6) i j cr u] show ?thesis by auto
qed

theorem answer_rewrites_command_witness:
  "\<exists>r t c m'. HandleFencingRequest meddling in_order (sample_request None) False env_state =
      Returned (None, r) t \<and>
    map_of (fencingConfigs t) ''all'' = Some (Some c) \<and> Methods c = [m'] \<and>
    (\<forall>\<rho> q d i. createFencingJob \<rho> q d m' = Inr (None, Some i) \<longrightarrow>
       map Command (Containers i) = [[''/bin/true'']])"
proof -
  obtain req1 s1 s2 j c where c: "chooseFencingConfig meddling (sub in_order 0) (sample_request None) env_state =
       Returned ((None, Some (''all'', env_config)), req1, Some ''all'') s1"
    and i: "isFencingMethodActive meddling (sub in_order 2) req1 env_method s1 = (False, s2)"
    and j: "createFencingJob (sub in_order 3) req1 env_config env_method = Inr (None, Some j)"
    and cr: "create_job meddling j (world s2) =
       ((None, j\<lparr>Containers := [c\<lparr>Command := [''/bin/true'']\<rparr>]\<rparr>), world s2)" using env_run by blast
  have k: "Mechanisms env_method = [sample_mechanism ''env'']"
    "mech_Container (sample_mechanism ''env'') = Some \<lparr>c_Name = ''baremetal'', Image = ''agents'',
        Command = [''/sbin/fence_ipmilan''], Env = [], VolumeMounts = []\<rparr>"
    "ArgumentFormat (sample_mechanism ''env'') = ''env''"
    by (simp_all add: env_method_def sample_mechanism_def)
  from answer_rewrites_command [OF env_open(1,3,4) c env_open(6) k i j cr] show ?thesis by simp
qed

end
