(* ===== verification/Spec2Isabelle.thy ===== *)
theory Spec2Isabelle
  imports Config Mechanism Fencing_Props Fencing_Handler_Props Config_Job_Props Handler_Props
    Wire Boot_Props Workflow Crashes Field_Selectors DeepCopy_Props Logging Scheme Decode
    Sdk_Props Serving Attempts Double_Fencing Shared_Memory_Props
begin

text \<open>
  A verification library of the fencing operator, a Kubernetes operator in Go that powers off
  (fences) nodes that are lost so that their workload can be recovered.

  \<^bold>\<open>The program.\<close> One process (\<open>cmd/fencing-operator/main.go\<close>, helpers in
  \<open>pkg/k8sutil/k8sutil.go\<close>) wins a leader election, creates the custom resource definition and
  watches nodes, events, ConfigMaps, jobs and fencing requests. \<open>Handle\<close>
  (\<open>pkg/stub/handler.go\<close>) sends each event to its handler. A lost node or a kernel warning
  creates a fencing request, a node that is back deletes its requests. A ConfigMap is decoded
  (\<open>pkg/config/config.go\<close>, \<open>pkg/apis/fencing/v1alpha1/mechanism.go\<close>) into a fencing
  configuration that the package variable \<open>fencingConfigs\<close> caches. A request
  (\<open>pkg/stub/fencing.go\<close>) is matched with the most specific configuration for its target, a
  method of it is chosen, and a job is created that runs the method's mechanisms; an event of
  the job completes the request or carries on with it. Every write goes through a loop with
  exponential backoff, and every step is recorded in the status of the request
  (\<open>pkg/apis/fencing/v1alpha1/request.go\<close>).

  \<^bold>\<open>The theories.\<close>

    \<^item> \<open>Prelude\<close>: errors, calls that return or panic (\<open>outcome\<close>), Go maps as association lists
      sorted by key, and the order in which a Go \<open>range\<close> visits a map as an oracle \<open>\<rho>\<close>, over
      which every theorem quantifies.
    \<^item> \<open>Backoff\<close>: \<open>wait.ExponentialBackoff\<close>. Its fuel is the number of steps, as in the code.
      The locale \<open>one_shot\<close> is the contract of a closure that never asks for a second attempt;
      all four write closures of the operator are interpretations, so none is ever retried.
    \<^item> \<open>Config\<close>: the dynamic values of YAML, the walk along a dotted key and every getter with its
      read lock. The locales \<open>config_getter\<close> and \<open>balanced_getter\<close> state what a getter returns
      and what it leaves of the lock; each getter is an interpretation.
    \<^item> \<open>Labels\<close>: the vendored label selectors and the validation of labels.
    \<^item> \<open>Types\<close>: the records of \<open>types.go\<close> and the fields of the Kubernetes objects in use.
    \<^item> \<open>Wire\<close>: the JSON form of requests by the struct tags; locale \<open>codec\<close> for a pair of encoder
      and decoder.
    \<^item> \<open>Mechanism\<close>: methods and mechanisms from a configuration, and the command and environment
      of a container; the two renderings of dynamic parameters share the locale
      \<open>dynamic_renderer\<close>.
    \<^item> \<open>Cluster\<close>: the API server as an argument \<open>K\<close> with any world, the state of the operator
      (\<open>fencingConfigs\<close> and a ghost log of all calls), the writes of the server's answers into memory
      that belongs to the cache (\<open>through_pointer\<close>, \<open>through_slices\<close>), and the frame facts by which
      properties speak of the calls of an operation.
    \<^item> \<open>Shared_Memory\<close>: what such writes leave of the cache: all but names of configurations and
      elements of commands (\<open>cache_outline\<close>), and everything when the server gives back what it is
      sent (\<open>echoes\<close>); \<open>evolves\<close> and \<open>kept\<close> carry both through the handlers.
      \<open>Shared_Memory_Props\<close>: what an answer that differs does to later requests.
    \<^item> \<open>Requests\<close>, \<open>Queries\<close>: history and update of a request; the list and get helpers.
    \<^item> \<open>Fencing\<close>: the choice of a configuration and a method, the construction of the job.
    \<^item> \<open>Fencing_Handlers\<close>: the handlers for requests, jobs and ConfigMaps.
    \<^item> \<open>Fencing_Steps\<close>: \<open>HandleFencingRequest\<close> as its check for a running job and the rest.
      \<open>Double_Fencing\<close>: what two handlings of a request at the same time do.
    \<^item> \<open>Handlers\<close>: the handlers for nodes and events, dirty volumes, the dispatcher. The locales
      \<open>call_loop\<close> and \<open>pure_call_loop\<close> are the contract of its loops over pods, claims and
      requests.
    \<^item> \<open>Bootstrap\<close>: \<open>main\<close>, \<open>run\<close>, the clients, the custom resource definition, leadership.
    \<^item> \<open>Workflow\<close>: the operator as a transition system over events, with an invariant of all
      calls and a refinement of the cache.
    \<^item> \<open>Crashes\<close>: the type of every reachable configuration (\<open>wf_cache\<close>), exactly when the
      handling of a request or of a job crashes, and \<open>HandleConfigMap\<close> as its two writes to
      \<open>fencingConfigs\<close>, between which a request of another goroutine can fall.
    \<^item> \<open>Field_Selectors\<close>: the operator as a whole with a server that selects custom resources by
      the fields \<open>metadata.name\<close> and \<open>metadata.namespace\<close> only.
    \<^item> \<open>Store\<close>: a store of pointers, in which maps, slices and pointers of \<open>types.go\<close> are addresses,
      and the contract of a copy: locale \<open>copier\<close> (value, footprint, what is shared), its
      extension \<open>separating\<close> (nothing is shared), and the rules that carry it over structs, slices
      and \<open>new\<close>. \<open>DeepCopy\<close>: every function of \<open>zz_generated.deepcopy.go\<close>. \<open>DeepCopy_Props\<close>:
      each type's \<open>DeepCopy\<close> as an interpretation, of \<open>separating\<close> but for requests, their
      statuses and their lists; values read as the records of \<open>Types\<close> (\<open>read_config\<close>,
      \<open>read_request\<close>).
    \<^item> \<open>Logging\<close>: \<open>JsonLogObject\<close> (\<open>pkg/util/logging.go\<close>) and \<open>Version\<close> of \<open>main.go\<close>.
      \<open>Scheme\<close>: the registration of the types (\<open>register.go\<close>).
    \<^item> \<open>Decode\<close>: the decoding of an answer into the object that was sent, field by field; locale
      \<open>echo\<close> for what a value decodes to when it comes back unchanged.
    \<^item> \<open>Rest\<close>, \<open>Sdk\<close>: the client the operator is built with. \<open>Rest\<close> is client-go: building,
      checking, sending and repeating a request, and the dynamic client; \<open>Sdk\<close> is \<open>query\<close> and
      \<open>action\<close> of the operator SDK. Together they give \<open>sdk_api\<close>, the server \<open>K\<close> of \<open>Cluster\<close> as a
      function of the connection, of discovery and of the codecs of API machinery types.
      \<open>Sdk_Props\<close>: it keeps the contracts the other properties ask of \<open>K\<close>, and what becomes of the
      operator's queries. Invariants of whole runs share the locale \<open>run_contract\<close> of
      \<open>Field_Selectors\<close>.
    \<^item> \<open>Workqueue\<close>: the queue of an informer with its rate limits; locale \<open>work_queue\<close>.
      \<open>Informer\<close>: how an object of the cluster becomes an event: deltas, notifications, the worker,
      and all interleavings of these steps over all informers (\<open>inner\<close>, \<open>running\<close>).
      \<open>Informer_Props\<close>: the simulation by \<open>Workflow.reach\<close>. \<open>Informer_Steps\<close>: locale
      \<open>informer_invariant\<close> (an invariant of one informer holds of all in every state of the
      process), its interpretations, and the measure of what is left to do. \<open>Draining\<close>: the locales
      \<open>draining\<close> (every step uses up work) and, extending it, \<open>stubborn\<close> (only a panic ends it),
      which \<open>Process\<close> and \<open>Serving\<close> interpret. \<open>Process\<close>: the informers with any deltas.
    \<^item> \<open>Delta_FIFO\<close>, \<open>Reflector\<close>: where the deltas come from: the queue of client-go that collects
      them, and the reflector that lists and watches; with them the process reacts to the lists and
      watch events of the server (\<open>serving\<close>). \<open>Reflector_Props\<close>: the queue as a map (\<open>view\<close>), and the
      invariant of every reflector. \<open>Serving\<close>: the process from the server's lists to the handlers.
    \<^item> \<open>Election\<close>: one attempt at the leadership (client-go \<open>leaderelection\<close> and its
      \<open>resourcelock\<close>): Go times, the record in the annotation of the lock object, \<open>EndpointsLock\<close>
      over any client and \<open>tryAcquireOrRenew\<close> over any lock. \<open>Candidates\<close>: the election as a
      transition system in real time (\<open>occurs\<close>, \<open>elects\<close>): the loops \<open>acquire\<close> and \<open>renew\<close> of every
      candidate, its attempts split at their calls, the server with its versions, lost answers,
      late writes, crashes, and a clock per machine. \<open>Election_Invariant\<close>: its invariant
      (\<open>sound\<close>), kept by every step. \<open>Election_Props\<close>: when there is one leader and when there are
      two. \<open>Attempts\<close>: the locale \<open>lock_contract\<close> (a lock that answers), \<open>EndpointsLock\<close> as its
      interpretation, and the undisturbed steps of \<open>Candidates\<close> as calls of \<open>tryAcquireOrRenew\<close>.
    \<^item> \<open>Samples\<close>: a concrete server and objects for the witnesses. \<open>Fencing_Props\<close>,
      \<open>Fencing_Handler_Props\<close>, \<open>Config_Job_Props\<close>, \<open>Handler_Props\<close>, \<open>Boot_Props\<close>: the properties
      of the theories they are named after; the other properties stand at the end of their own
      theory.

  \<^bold>\<open>Correspondence.\<close> A definition has the name of the Go function it models; a loop is a
  recursive function \<open>..._loop\<close> with the variables of the source as arguments, a closure
  \<open>..._closure\<close>. A method on a pointer returns the object as it leaves it. A pointer that may be
  \<open>nil\<close> is an option, and following \<open>None\<close> is the outcome \<open>Panicked NilDeref\<close>. Integers have
  their width. Log lines are left out, unless forming their arguments can panic.

  \<^bold>\<open>What the properties show.\<close> For any server and any map order: the calls each handler may
  make and their order; which configuration, method and job a request gets; what a ConfigMap
  does to the cache on every branch; when requests are created, completed and cancelled; what
  containers run with; that reading the configuration refines a recursive lookup; that the
  cache refines an abstract table over whole runs, up to what answers are decoded into; that waiting for the definition ends after
  at most five attempts; that a copied configuration shares nothing with the original. They
  also show where the program does not do what it means to: no method but the first is ever
  tried, a \<open>nil\<close> entry of the cache or a configuration without methods crashes the operator (and
  of the requests that the server delivers, nothing else does), every update of a configuration
  opens a window for such a crash, the active job does not survive a write and is shared by
  copies, no request is found again by the selector the code uses or in the namespace it asks
  for, a missed deletion or an object that cannot be decoded ends the process, an answer of the server
  can rename a loaded configuration or replace its command, and others, each named by its theorem.
  For the process with its informers and reflectors: that the properties of runs hold of it, since
  its events are a run of the transition system, that it comes to rest and
  has then handled every object as the server last reported it (and the two interleavings in
  which it has not), and that nothing is ever tried again. For the election: that a leader is
  the only one as long as calls take at most 0.8 seconds, wherever the clocks are set, and that two
  pods lead at once when calls may take a second, which nothing in the client prevents; both can then
  create a job for the same request.

  \<^bold>\<open>Bounds.\<close> No operation needs fuel beyond the code's own: the loops are structural, the
  backoff runs \<open>Steps = 5\<close> times at most, and a request is sent \<open>maxRetries = 10\<close> times at most.
  The steps of the informers are bounded by \<open>left\<close>: four for a notification, three for a key that
  waits, two and one for the worker; \<open>fifo_left\<close> adds four for a delta and one for its key. Every
  step of the election is bounded by \<open>delay\<close>, and the rate of a clock by \<open>steady\<close>; \<open>one_leader\<close> says
  how they must fit the durations of the configuration. Hypotheses about code outside the repository are named:
  \<open>steady_nodes\<close> (the server answers a node query the same way during one choice),
  \<open>keeps_complete\<close> and \<open>wire_server\<close> (an update's answer does not undo what was sent, and
  decoded requests are as \<open>Wire\<close> shows; \<open>Sdk_Props\<close> proves the second of \<open>sdk_api\<close>, and the first
  from \<open>stores_status\<close>), \<open>echoes\<close> (the server gives back the \<open>status.config\<close> and the commands it is
  sent; \<open>echoes_sdk\<close> has it from \<open>stores_status\<close> and the commands), \<open>gmap_ok\<close> and \<open>yaml_ok\<close> (the YAML decoder builds maps
  without duplicate keys), \<open>metadata_fields_only\<close> (a query of requests by another field than
  the two of the metadata has no items), \<open>namespaced_kind\<close> and \<open>namespaces_are_labels\<close> (discovery
  reports the kind as namespaced; a list in a namespace whose name is no DNS label is empty),
  \<open>only_adds\<close> (the API machinery's own registration
  replaces no type), \<open>heap_ok\<close> (maps in the store have distinct keys). Each has a witness.

  \<^bold>\<open>Not modelled.\<close> The event recorder; the text layer of JSON and YAML; the deep copies of
  \<open>ObjectMeta\<close> and \<open>v1.Container\<close>, which the API machinery provides and which are values in
  \<open>Store\<close>; what a decoding that fails has written before it fails (\<open>Decode\<close>). Of the client:
  the resource versions and the connection of a watch (its events are any sequence), TLS,
  throttling, locks in a ConfigMap, and the time at which a delayed key becomes ready (any).
  The lock object is assumed to stay: others may change it but for its annotation, and nobody
  deletes it. \<open>SingletonWith\<close> takes the outcome of the election (\<open>acquire\<close>) as an argument. The SDK runs one goroutine per watched resource and \<open>fencingConfigs\<close> is not protected; the model
  interleaves the steps of the informers, but runs each handler as a whole, apart from the two
  writes of \<open>HandleConfigMap\<close> in \<open>Crashes\<close> and the two steps of \<open>Fencing_Steps\<close>.
  \<open>newContainerFromConfig\<close> names an undeclared variable in the source and does not compile; it is
  read as the parameter its error message speaks of.
\<close>

end
